theory Spec2Isabelle
  imports Main "HOL-Library.Word" "HOL-Library.AList"
begin

unbundle bit_operations_syntax

section \<open>Common types of the user-mode driver\<close>

type_synonym u8 = "8 word"
type_synonym u16 = "16 word"
type_synonym u32 = "32 word"
type_synonym u64 = "64 word"

text \<open>
  The status codes (\<open>aipu_status_t\<close>) that the modelled functions return. Only the
  codes that occur in the modelled code paths are listed.
\<close>

datatype aipu_status =
    AIPU_STATUS_SUCCESS
  | AIPU_STATUS_ERROR_NULL_PTR
  | AIPU_STATUS_ERROR_INVALID_OP
  | AIPU_STATUS_ERROR_INVALID_GBIN
  | AIPU_STATUS_ERROR_UNKNOWN_BIN
  | AIPU_STATUS_ERROR_GVERSION_UNSUPPORTED
  | AIPU_STATUS_ERROR_INVALID_TENSOR_TYPE
  | AIPU_STATUS_ERROR_UNMATCH_OUT_SHAPE
  | AIPU_STATUS_ERROR_ZERO_TENSOR_SIZE

section \<open>Task control blocks (tcb.h, the v3.1 layout)\<close>

text \<open>
  An access outside a \<open>std::vector\<close> has no defined behaviour in the source; the model
  stops there with \<open>Out_Of_Bounds\<close>. Every other failure is a status code.
\<close>

datatype fault = Status aipu_status | Out_Of_Bounds

definition sizeof_tcb_t :: nat where
  "sizeof_tcb_t = 128"

definition TCB_FLAG_TASK_TYPE :: "u32 \<Rightarrow> u32" where
  "TCB_FLAG_TASK_TYPE f = f AND 0xF"

definition TCB_FLAG_TASK_TYPE_GRID_INIT :: u32 where
  "TCB_FLAG_TASK_TYPE_GRID_INIT = 0"

definition TCB_FLAG_TASK_TYPE_GROUP_INIT :: u32 where
  "TCB_FLAG_TASK_TYPE_GROUP_INIT = 1"

definition TCB_FLAG_TASK_TYPE_TASK :: u32 where
  "TCB_FLAG_TASK_TYPE_TASK = 2"

definition TCB_FLAG_DEP_TYPE :: "u32 \<Rightarrow> u32" where
  "TCB_FLAG_DEP_TYPE f = f AND 0x30"

definition TCB_FLAG_DEP_TYPE_NONE :: u32 where
  "TCB_FLAG_DEP_TYPE_NONE = 0"

definition TCB_FLAG_DEP_TYPE_GROUP :: u32 where
  "TCB_FLAG_DEP_TYPE_GROUP = push_bit 4 1"

definition TCB_FLAG_DEP_TYPE_PRE_ALL :: u32 where
  "TCB_FLAG_DEP_TYPE_PRE_ALL = push_bit 4 2"

definition TCB_FLAG_END_TYPE_GROUP_END :: u32 where
  "TCB_FLAG_END_TYPE_GROUP_END = push_bit 6 1"

definition TCB_FLAG_END_TYPE_GRID_END :: u32 where
  "TCB_FLAG_END_TYPE_GRID_END = push_bit 7 1"

definition TCB_FLAG_GRID_INIT :: u32 where
  "TCB_FLAG_GRID_INIT = push_bit 21 1"

definition TCB_FLAG_L2D_FLUSH :: u32 where
  "TCB_FLAG_L2D_FLUSH = push_bit 22 1"

definition EN_INTERRUPT_TEC_SIGNAL :: u32 where
  "EN_INTERRUPT_TEC_SIGNAL = push_bit 1 1"

definition EN_INTERRUPT_TEC_ALL :: u32 where
  "EN_INTERRUPT_TEC_ALL = push_bit 0 1 OR push_bit 1 1 OR push_bit 2 1 OR push_bit 3 1"

definition EN_INTERRUPT_GRID_ALL :: u32 where
  "EN_INTERRUPT_GRID_ALL = push_bit 0 1 OR push_bit 3 1"

definition EN_GROUP_DEPEND :: u16 where
  "EN_GROUP_DEPEND = push_bit 15 1"

text \<open>
  \<open>tcb_t\<close>. The record keeps the flag word, the dependency array (which lies outside
  the union) and those members of the union that the builder sets from the job and the
  graph alone. The interrupt enable word, the group id and the grid id lie at the same
  offsets in the three variants of the union (\<open>interrupt_en\<close>, \<open>grid_intrrupt_en\<close>;
  \<open>groupid\<close>, \<open>grid_groupid\<close>, \<open>group_groupid\<close>; \<open>gridid\<close>, \<open>grid_gridid\<close>,
  \<open>group_gridid\<close>), so each is one field. Members that hold addresses of buffers of
  the memory manager (\<open>spc\<close>, \<open>tcbp\<close>, \<open>sp\<close>, \<open>pp\<close>, \<open>dp\<close>, \<open>cp\<close>, \<open>pprint\<close>,
  \<open>pprofiler\<close>, \<open>global_param\<close>, the ASIDs and the GM words) and the constant
  dimensions are left out: none of them overlaps the flag word or the dependency array.
\<close>

record tcb_t =
  flag :: u32
  interrupt_en :: u32
  groupid :: u16
  gridid :: u16
  taskid :: u16
  ica_warmup_len :: u16
  group_num :: u32
  group_dim_x :: u16
  group_deps :: "u16 list"

text \<open>\<open>memset(&tcb, 0, sizeof(tcb_t))\<close>.\<close>

definition tcb_zero :: tcb_t where
  "tcb_zero = \<lparr>flag = 0, interrupt_en = 0, groupid = 0, gridid = 0, taskid = 0,
     ica_warmup_len = 0, group_num = 0, group_dim_x = 0, group_deps = [0, 0, 0, 0]\<rparr>"

section \<open>Graph and job (graph_v3x.h, job_v3_1.cpp)\<close>

definition SUBG_DEPEND_NONE :: int where
  "SUBG_DEPEND_NONE = 0"

definition SUBG_DEPEND_PREALL :: int where
  "SUBG_DEPEND_PREALL = - 1"

text \<open>
  \<open>Subgraph\<close>: the members that the TCB builder reads. \<open>precursor_cnt\<close> is an
  \<open>int32_t\<close>, kept as its value.
\<close>

record Subgraph =
  sg_id :: u32
  printfifo_size :: u32
  warmup_len :: u32
  precursors :: "u32 list"
  precursor_cnt :: int

record GraphV3X =
  m_subgraphs :: "Subgraph list"
  m_fake_subgraph :: bool
  m_text_size :: nat

definition get_subgraph_cnt :: "GraphV3X \<Rightarrow> nat" where
  "get_subgraph_cnt graph = (if m_fake_subgraph graph then 0 else length (m_subgraphs graph))"

text \<open>\<open>get_subgraph\<close> is \<open>m_subgraphs[sg_id]\<close>.\<close>

definition get_subgraph :: "GraphV3X \<Rightarrow> nat \<Rightarrow> fault + Subgraph" where
  "get_subgraph graph i =
     (if i < length (m_subgraphs graph) then Inr (m_subgraphs graph ! i) else Inl Out_Of_Bounds)"

datatype aipu_job_status =
    AIPU_JOB_STATUS_NO_STATUS
  | AIPU_JOB_STATUS_DONE
  | AIPU_JOB_STATUS_EXCEPTION
  | AIPU_JOB_STATUS_INIT
  | AIPU_JOB_STATUS_SCHED
  | AIPU_JOB_STATUS_BIND

text \<open>
  \<open>JobV3_1\<close>: the members that the TCB builder and \<open>schedule\<close> read and write.
  \<open>m_tcbs_pa\<close> is \<open>m_tcbs->pa\<close>, which is also \<open>m_init_tcb.pa\<close>; the TCB of task
  \<open>j\<close> of \<open>m_sg_job[i]\<close> has the address that \<open>init_per_task_data\<close> gives it
  (\<open>task_tcb_pa\<close> below). \<open>m_group_id_idx\<close> is kept at the width of the 16-bit fields
  it is stored into. \<open>m_err_code\<close> holds address and size of each error-code buffer.
\<close>

record JobV3_1 =
  m_id :: nat
  m_sg_cnt :: nat
  m_task_per_sg :: nat
  m_tot_tcb_cnt :: nat
  m_core_cnt :: nat
  m_grid_id :: u16
  m_start_group_id :: u16
  m_group_id_idx :: u16
  m_tcbs_pa :: nat
  m_status :: aipu_job_status
  m_backup_tcb :: "tcb_t option list option"
  m_backup_tcb_used :: bool
  m_err_code :: "(nat \<times> nat) list"
  m_is_defer_run :: bool
  m_do_trigger :: bool
  m_bind_cmdpool_id :: u32
  m_qos :: u32
  m_partition_id :: u32

text \<open>
  Device memory. The TCB buffer is kept at the granularity of whole TCBs, by the address
  a TCB is written to (every access to it transfers \<open>sizeof(tcb_t)\<close> bytes at a multiple
  of that size from the start of the buffer); all other buffers are bytes.
\<close>

record device_memory =
  tcb_mem :: "nat \<Rightarrow> tcb_t option"
  byte_mem :: "nat \<Rightarrow> u8"

text \<open>
  Modelled from the spec: the memory manager (\<open>m_mem\<close>) is not part of the sources.
  \<open>write\<close> copies to device memory, \<open>zeroize\<close> zeroes device-visible bytes, \<open>read\<close>
  copies from device memory (spec 4.3).
\<close>

definition mem_write_tcb :: "device_memory \<Rightarrow> nat \<Rightarrow> tcb_t \<Rightarrow> device_memory" where
  "mem_write_tcb mem pa tcb = mem\<lparr>tcb_mem := (tcb_mem mem)(pa := Some tcb)\<rparr>"

fun mem_write_tcbs :: "device_memory \<Rightarrow> nat \<Rightarrow> tcb_t option list \<Rightarrow> device_memory" where
  "mem_write_tcbs mem pa [] = mem"
| "mem_write_tcbs mem pa (t # ts) =
     mem_write_tcbs (mem\<lparr>tcb_mem := (tcb_mem mem)(pa := t)\<rparr>) (pa + sizeof_tcb_t) ts"

definition mem_read_tcbs :: "device_memory \<Rightarrow> nat \<Rightarrow> nat \<Rightarrow> tcb_t option list" where
  "mem_read_tcbs mem pa n = map (\<lambda>k. tcb_mem mem (pa + k * sizeof_tcb_t)) [0..<n]"

definition mem_zeroize_tcbs :: "device_memory \<Rightarrow> nat \<Rightarrow> nat \<Rightarrow> device_memory" where
  "mem_zeroize_tcbs mem pa n = mem_write_tcbs mem pa (replicate n (Some tcb_zero))"

definition mem_zeroize :: "device_memory \<Rightarrow> nat \<Rightarrow> nat \<Rightarrow> device_memory" where
  "mem_zeroize mem pa sz =
     mem\<lparr>byte_mem := (\<lambda>a. if pa \<le> a \<and> a < pa + sz then 0 else byte_mem mem a)\<rparr>"

text \<open>
  \<open>set_job_params\<close>; the count of TCBs is computed in \<open>uint32_t\<close>.
\<close>

definition set_job_params :: "JobV3_1 \<Rightarrow> nat \<Rightarrow> nat \<Rightarrow> nat \<Rightarrow> JobV3_1" where
  "set_job_params job sg_cnt task_per_sg core_cnt =
     (let tot = (1 + sg_cnt * (task_per_sg + 1)) mod 2 ^ 32 in
      job\<lparr>m_sg_cnt := sg_cnt, m_task_per_sg := task_per_sg, m_tot_tcb_cnt := tot,
          m_backup_tcb := Some (replicate tot None)\<rparr>)"

text \<open>
  The address of the TCB of task \<open>j\<close> of \<open>m_sg_job[i]\<close>, as \<open>init_per_task_data\<close>
  computes it: \<open>m_tcbs->pa + (2 + i * (1 + m_task_per_sg) + j) * sizeof(tcb_t)\<close>, the
  index in \<open>uint32_t\<close>.
\<close>

definition task_tcb_pa :: "JobV3_1 \<Rightarrow> nat \<Rightarrow> nat \<Rightarrow> nat" where
  "task_tcb_pa job i j =
     m_tcbs_pa job + ((2 + i * (1 + m_task_per_sg job) + j) mod 2 ^ 32) * sizeof_tcb_t"

text \<open>
  The loop of \<open>config_tcb_deps\<close> over the precursors: \<open>i\<close> is the loop index, the
  fourth argument the number of iterations that remain.
\<close>

fun config_tcb_deps_loop ::
  "u16 \<Rightarrow> u32 list \<Rightarrow> nat \<Rightarrow> nat \<Rightarrow> tcb_t \<Rightarrow> fault + tcb_t" where
  "config_tcb_deps_loop start pre i 0 tcb = Inr tcb"
| "config_tcb_deps_loop start pre i (Suc n) tcb =
     (if length pre \<le> i then Inl Out_Of_Bounds
      else if pre ! i > 0x7fff then Inl (Status AIPU_STATUS_ERROR_INVALID_GBIN)
      else
        let dep_group_id = (ucast (pre ! i + ucast start) :: u16);
            dep_group_id = dep_group_id AND 0x7FFF
        in config_tcb_deps_loop start pre (Suc i) n
             (tcb\<lparr>group_deps := (group_deps tcb)[i := EN_GROUP_DEPEND OR dep_group_id]\<rparr>))"

text \<open>\<open>config_tcb_deps\<close>, with the cases of the \<open>switch\<close> in the order of the source.\<close>

definition config_tcb_deps ::
  "JobV3_1 \<Rightarrow> GraphV3X \<Rightarrow> tcb_t \<Rightarrow> nat \<Rightarrow> fault + tcb_t" where
  "config_tcb_deps job graph tcb sg =
     (case get_subgraph graph sg of
        Inl e \<Rightarrow> Inl e
      | Inr s \<Rightarrow>
          if precursor_cnt s = SUBG_DEPEND_NONE
            then Inr (tcb\<lparr>flag := flag tcb OR TCB_FLAG_DEP_TYPE_NONE\<rparr>)
          else if 1 \<le> precursor_cnt s \<and> precursor_cnt s \<le> 4
            then config_tcb_deps_loop (m_start_group_id job) (precursors s) 0
                   (nat (precursor_cnt s)) (tcb\<lparr>flag := flag tcb OR TCB_FLAG_DEP_TYPE_GROUP\<rparr>)
          else if precursor_cnt s = SUBG_DEPEND_PREALL
            then Inr (tcb\<lparr>flag := flag tcb OR TCB_FLAG_DEP_TYPE_PRE_ALL\<rparr>)
          else Inl (Status AIPU_STATUS_ERROR_INVALID_GBIN))"

text \<open>
  \<open>setup_task_tcb\<close>, in two steps: \<open>task_tcb\<close> is the TCB that the function composes,
  \<open>setup_task_tcb\<close> flushes it to the address of \<open>m_sg_job[sg].tasks[task]\<close>.
  \<open>m_task_per_sg - 1\<close> and \<open>m_sg_cnt - 1\<close> are \<open>uint32_t\<close> differences.
\<close>

definition u32_pred :: "nat \<Rightarrow> nat" where
  "u32_pred n = (n + 2 ^ 32 - 1) mod 2 ^ 32"

definition task_tcb :: "JobV3_1 \<Rightarrow> GraphV3X \<Rightarrow> nat \<Rightarrow> nat \<Rightarrow> fault + tcb_t" where
  "task_tcb job graph sg task =
     (if m_sg_cnt job \<le> sg \<or> m_task_per_sg job \<le> task then Inl Out_Of_Bounds
      else
        let tcb = tcb_zero\<lparr>interrupt_en := EN_INTERRUPT_TEC_ALL, flag := TCB_FLAG_TASK_TYPE_TASK\<rparr>;
            tcb = (if task = u32_pred (m_task_per_sg job)
                   then tcb\<lparr>flag := flag tcb OR TCB_FLAG_END_TYPE_GROUP_END\<rparr> else tcb);
            tcb = (if sg = u32_pred (m_sg_cnt job) \<and> task = u32_pred (m_task_per_sg job)
                   then tcb\<lparr>flag := flag tcb OR TCB_FLAG_END_TYPE_GRID_END\<rparr> else tcb)
        in case (if task = 0 then config_tcb_deps job graph tcb sg else Inr tcb) of
             Inl e \<Rightarrow> Inl e
           | Inr tcb \<Rightarrow>
               (case get_subgraph graph sg of
                  Inl e \<Rightarrow> Inl e
                | Inr s \<Rightarrow>
                    let tcb = tcb\<lparr>groupid := m_group_id_idx job, gridid := m_grid_id job,
                                 taskid := of_nat task, ica_warmup_len := ucast (warmup_len s),
                                 group_dim_x := of_nat (m_task_per_sg job)\<rparr>
                    in Inr (if printfifo_size s > 0
                            then tcb\<lparr>interrupt_en := interrupt_en tcb OR EN_INTERRUPT_TEC_SIGNAL\<rparr>
                            else tcb)))"

definition setup_task_tcb ::
  "JobV3_1 \<Rightarrow> GraphV3X \<Rightarrow> nat \<Rightarrow> nat \<Rightarrow> device_memory \<Rightarrow> fault + device_memory" where
  "setup_task_tcb job graph sg task mem =
     (case task_tcb job graph sg task of
        Inl e \<Rightarrow> Inl e
      | Inr tcb \<Rightarrow> Inr (mem_write_tcb mem (task_tcb_pa job sg task) tcb))"

text \<open>
  \<open>setup_tcb_group\<close>: the loop over the tasks (\<open>t\<close> is the loop variable, the fourth
  argument the number of iterations that remain), then the increment of the group index.
\<close>

fun setup_tcb_group_loop ::
  "JobV3_1 \<Rightarrow> GraphV3X \<Rightarrow> nat \<Rightarrow> nat \<Rightarrow> nat \<Rightarrow> device_memory \<Rightarrow> fault + device_memory" where
  "setup_tcb_group_loop job graph sg t 0 mem = Inr mem"
| "setup_tcb_group_loop job graph sg t (Suc n) mem =
     (case setup_task_tcb job graph sg t mem of
        Inl e \<Rightarrow> Inl e
      | Inr mem' \<Rightarrow> setup_tcb_group_loop job graph sg (Suc t) n mem')"

definition setup_tcb_group ::
  "JobV3_1 \<Rightarrow> GraphV3X \<Rightarrow> nat \<Rightarrow> device_memory \<Rightarrow> fault + JobV3_1 \<times> device_memory" where
  "setup_tcb_group job graph sg mem =
     (case setup_tcb_group_loop job graph sg 0 (m_task_per_sg job) mem of
        Inl e \<Rightarrow> Inl e
      | Inr mem' \<Rightarrow> Inr (job\<lparr>m_group_id_idx := m_group_id_idx job + 1\<rparr>, mem'))"

text \<open>
  The TCBs that \<open>setup_tcb_chain\<close> composes itself: the grid init TCB, and the group
  init TCB of the \<open>i\<close>-th subgraph of the graph.
\<close>

definition grid_init_tcb :: "JobV3_1 \<Rightarrow> tcb_t" where
  "grid_init_tcb job =
     tcb_zero\<lparr>flag := TCB_FLAG_TASK_TYPE_GRID_INIT OR TCB_FLAG_L2D_FLUSH,
       group_num := of_nat (m_sg_cnt job),
       interrupt_en := EN_INTERRUPT_GRID_ALL,
       gridid := m_grid_id job,
       groupid := m_group_id_idx job\<rparr>"

definition group_init_tcb :: "JobV3_1 \<Rightarrow> GraphV3X \<Rightarrow> nat \<Rightarrow> fault + tcb_t" where
  "group_init_tcb job graph i =
     (case get_subgraph graph i of
        Inl e \<Rightarrow> Inl e
      | Inr s \<Rightarrow>
          config_tcb_deps job graph
            (tcb_zero\<lparr>flag := TCB_FLAG_TASK_TYPE_GROUP_INIT OR TCB_FLAG_GRID_INIT,
               gridid := m_grid_id job, groupid := m_group_id_idx job\<rparr>)
            (unat (sg_id s)))"

text \<open>
  The loop of \<open>setup_tcb_chain\<close> over the subgraphs: \<open>i\<close> is the loop variable, the
  third argument the number of iterations that remain. The group init TCB of iteration
  \<open>i\<close> goes to \<open>m_init_tcb.pa + sizeof(tcb_t) + (m_task_per_sg + 1) * i * sizeof(tcb_t)\<close>;
  the task TCBs are those of \<open>m_sg_job[id]\<close> for the id of the \<open>i\<close>-th subgraph.
\<close>

definition group_init_tcb_pa :: "JobV3_1 \<Rightarrow> nat \<Rightarrow> nat" where
  "group_init_tcb_pa job i =
     m_tcbs_pa job + sizeof_tcb_t + (((m_task_per_sg job + 1) * i) mod 2 ^ 32) * sizeof_tcb_t"

fun setup_tcb_chain_loop ::
  "GraphV3X \<Rightarrow> nat \<Rightarrow> nat \<Rightarrow> JobV3_1 \<Rightarrow> device_memory \<Rightarrow> fault + JobV3_1 \<times> device_memory" where
  "setup_tcb_chain_loop graph i 0 job mem = Inr (job, mem)"
| "setup_tcb_chain_loop graph i (Suc n) job mem =
     (case group_init_tcb job graph i of
        Inl e \<Rightarrow> Inl e
      | Inr tcb \<Rightarrow>
          (case get_subgraph graph i of
             Inl e \<Rightarrow> Inl e
           | Inr s \<Rightarrow>
               (case setup_tcb_group job graph (unat (sg_id s))
                       (mem_write_tcb mem (group_init_tcb_pa job i) tcb) of
                  Inl e \<Rightarrow> Inl e
                | Inr (job', mem') \<Rightarrow> setup_tcb_chain_loop graph (Suc i) n job' mem')))"

definition setup_tcb_chain ::
  "JobV3_1 \<Rightarrow> GraphV3X \<Rightarrow> device_memory \<Rightarrow> fault + JobV3_1 \<times> device_memory" where
  "setup_tcb_chain job graph mem =
     (case setup_tcb_chain_loop graph 0 (get_subgraph_cnt graph) job
             (mem_write_tcb mem (m_tcbs_pa job) (grid_init_tcb job)) of
        Inl e \<Rightarrow> Inl e
      | Inr (job', mem') \<Rightarrow> Inr (job'\<lparr>m_status := AIPU_JOB_STATUS_INIT\<rparr>, mem'))"

text \<open>
  \<open>init\<close>, for the TCB chain: the grid id, the start group id and the address of the
  TCB buffer are what the device and the memory manager hand out (their failures leave
  \<open>init\<close> before any TCB is written and are not modelled). The TCB buffer is zeroed
  when it is allocated; the chain is built unless the graph has no subgraph, and is
  read back into the backup.
\<close>

definition init ::
  "JobV3_1 \<Rightarrow> GraphV3X \<Rightarrow> nat \<Rightarrow> u16 \<Rightarrow> u16 \<Rightarrow> nat \<Rightarrow> device_memory
     \<Rightarrow> fault + JobV3_1 \<times> device_memory" where
  "init job graph core_cnt grid_id start_group_id tcbs_pa mem =
     (let job = set_job_params (job\<lparr>m_core_cnt := core_cnt\<rparr>) (get_subgraph_cnt graph) 4 core_cnt;
          job = job\<lparr>m_grid_id := grid_id, m_start_group_id := start_group_id,
                    m_group_id_idx := start_group_id, m_tcbs_pa := tcbs_pa\<rparr>;
          mem = mem_zeroize_tcbs mem tcbs_pa (m_tot_tcb_cnt job)
      in if get_subgraph_cnt graph = 0 then Inr (job\<lparr>m_status := AIPU_JOB_STATUS_INIT\<rparr>, mem)
         else
           (case setup_tcb_chain job graph mem of
              Inl e \<Rightarrow> Inl e
            | Inr (job', mem') \<Rightarrow>
                Inr (case m_backup_tcb job' of
                       None \<Rightarrow> job'
                     | Some b \<Rightarrow>
                         job'\<lparr>m_backup_tcb :=
                                Some (mem_read_tcbs mem' (m_tcbs_pa job') (m_tot_tcb_cnt job'))\<rparr>,
                     mem')))"

text \<open>
  A graph and a job for the examples: two subgraphs, the second depending on the first;
  the job as \<open>init\<close> sets it up before the chain is built, with grid id 3, start
  group id 5 and the TCB buffer at address \<open>0x1000\<close>.
\<close>

definition example_subgraph :: "u32 \<Rightarrow> int \<Rightarrow> u32 list \<Rightarrow> Subgraph" where
  "example_subgraph i cnt pre =
     \<lparr>sg_id = i, printfifo_size = 0, warmup_len = 0, precursors = pre, precursor_cnt = cnt\<rparr>"

definition example_graph :: GraphV3X where
  "example_graph =
     \<lparr>m_subgraphs = [example_subgraph 0 0 [], example_subgraph 1 1 [0]],
      m_fake_subgraph = False, m_text_size = 4096\<rparr>"

definition example_job :: JobV3_1 where
  "example_job =
     \<lparr>m_id = 1, m_sg_cnt = 2, m_task_per_sg = 4, m_tot_tcb_cnt = 11, m_core_cnt = 1,
      m_grid_id = 3, m_start_group_id = 5, m_group_id_idx = 5, m_tcbs_pa = 0x1000,
      m_status = AIPU_JOB_STATUS_NO_STATUS, m_backup_tcb = Some (replicate 11 None),
      m_backup_tcb_used = False, m_err_code = [], m_is_defer_run = False,
      m_do_trigger = False, m_bind_cmdpool_id = 0xffffffff, m_qos = 0, m_partition_id = 0\<rparr>"

definition example_memory :: device_memory where
  "example_memory = \<lparr>tcb_mem = (\<lambda>a. None), byte_mem = (\<lambda>a. 0)\<rparr>"

text \<open>The \<open>k\<close>-th TCB of the TCB buffer that starts at \<open>pa\<close>.\<close>

definition tcb_at :: "device_memory \<Rightarrow> nat \<Rightarrow> nat \<Rightarrow> tcb_t option" where
  "tcb_at mem pa k = tcb_mem mem (pa + k * sizeof_tcb_t)"




text \<open>
  Graphs for the examples whose subgraphs do not carry their position as id: two
  subgraphs with the id 0, and the ids 1 and 0 with the second subgraph depending on
  all before it; and a graph whose second subgraph has the count 7.
\<close>

definition example_graph_repeated_ids :: GraphV3X where
  "example_graph_repeated_ids =
     \<lparr>m_subgraphs = [example_subgraph 0 0 [], example_subgraph 0 0 []],
      m_fake_subgraph = False, m_text_size = 4096\<rparr>"




section \<open>Parser: ordering of the I/O tensor descriptors (parser_base.cpp)\<close>

text \<open>
  \<open>GraphIOTensorDesc\<close>: the fields that \<open>fill_io_tensor_desc_inner\<close> sets. The scale
  is a float in the source; it is kept as its 32-bit pattern, no arithmetic is done on it.
\<close>

record GraphIOTensorDesc =
  tensor_id :: u32
  tensor_size :: u32
  ref_section_iter :: u32
  offset_in_section :: u32
  scale_bits :: u32
  zero_point :: u32
  data_type :: u32

text \<open>
  The loop of \<open>sort_io_tensor\<close>. \<open>n\<close> is \<open>tensors_tmp.size()\<close>, the second argument
  is the part of \<open>tensors_tmp\<close> from index \<open>i\<close> on, and \<open>tensors\<close> is the vector that is
  written through the reference. The loop leaves at the first id that is out of range
  (\<open>break\<close>), and keeps what it has written so far.
\<close>

fun sort_io_tensor_loop ::
  "nat \<Rightarrow> GraphIOTensorDesc list \<Rightarrow> nat \<Rightarrow> GraphIOTensorDesc list
     \<Rightarrow> aipu_status \<times> GraphIOTensorDesc list" where
  "sort_io_tensor_loop n [] i tensors = (AIPU_STATUS_SUCCESS, tensors)"
| "sort_io_tensor_loop n (t # rest) i tensors =
     (if unat (tensor_id t) \<ge> n then (AIPU_STATUS_ERROR_INVALID_GBIN, tensors)
      else sort_io_tensor_loop n rest (Suc i)
             (if unat (tensor_id t) \<noteq> i then tensors[unat (tensor_id t) := t] else tensors))"

definition sort_io_tensor ::
  "GraphIOTensorDesc list \<Rightarrow> aipu_status \<times> GraphIOTensorDesc list" where
  "sort_io_tensor tensors = sort_io_tensor_loop (length tensors) tensors 0 tensors"

text \<open>
  \<open>GraphIOTensors\<close>: the I/O tensor lists of a BSS, as \<open>fill_io_tensor_desc_inner\<close>
  fills them.
\<close>

record GraphIOTensors =
  inputs :: "GraphIOTensorDesc list"
  outputs :: "GraphIOTensorDesc list"
  inter_dumps :: "GraphIOTensorDesc list"
  profiler :: "GraphIOTensorDesc list"
  printf :: "GraphIOTensorDesc list"
  layer_counter :: "GraphIOTensorDesc list"
  err_code :: "GraphIOTensorDesc list"
  segmmus :: "GraphIOTensorDesc list"
  outputs_shape :: "GraphIOTensorDesc list"

text \<open>
  \<open>sort_io\<close>: the four lists in the order of the source; the first failure leaves
  (\<open>goto finish\<close>) with the lists sorted so far written back.
\<close>

definition sort_io :: "GraphIOTensors \<Rightarrow> aipu_status \<times> GraphIOTensors" where
  "sort_io io =
     (case sort_io_tensor (inputs io) of (ret1, v1) \<Rightarrow>
      let io1 = io\<lparr>inputs := v1\<rparr> in
      if ret1 \<noteq> AIPU_STATUS_SUCCESS then (ret1, io1) else
      (case sort_io_tensor (outputs io1) of (ret2, v2) \<Rightarrow>
       let io2 = io1\<lparr>outputs := v2\<rparr> in
       if ret2 \<noteq> AIPU_STATUS_SUCCESS then (ret2, io2) else
       (case sort_io_tensor (inter_dumps io2) of (ret3, v3) \<Rightarrow>
        let io3 = io2\<lparr>inter_dumps := v3\<rparr> in
        if ret3 \<noteq> AIPU_STATUS_SUCCESS then (ret3, io3) else
        (case sort_io_tensor (outputs_shape io3) of (ret4, v4) \<Rightarrow>
         (ret4, io3\<lparr>outputs_shape := v4\<rparr>)))))"

text \<open>A descriptor with the given id and size, all other fields zero (for the examples).\<close>

definition mk_io_desc :: "u32 \<Rightarrow> u32 \<Rightarrow> GraphIOTensorDesc" where
  "mk_io_desc i s = \<lparr>tensor_id = i, tensor_size = s, ref_section_iter = 0,
     offset_in_section = 0, scale_bits = 0, zero_point = 0, data_type = 0\<rparr>"


section \<open>Simulator back end: group ids (simulator_v3_1.cpp)\<close>

text \<open>
  \<open>MAX_GROUP_ID\<close> is a constant of a header that is not part of the sources; it is the
  parameter \<open>max_id\<close>. \<open>m_group_id_bitmap\<close> is a function from the id to its bit.

  The outer loop of \<open>get_start_group_id\<close> up to its first free id: the first
  \<open>i\<close> from the given one on, below \<open>max_id\<close>, whose bit is clear.
\<close>

function first_free_id :: "nat \<Rightarrow> (nat \<Rightarrow> bool) \<Rightarrow> nat \<Rightarrow> nat option" where
  "first_free_id max_id bitmap i =
     (if i < max_id then (if bitmap i = False then Some i else first_free_id max_id bitmap (Suc i))
      else None)"
  by pat_completeness auto
termination
  by (relation "measure (\<lambda>(max_id, bitmap, i). max_id - i)") auto

text \<open>
  \<open>get_start_group_id\<close>: the result is the returned \<open>int\<close>, the value of the
  reference parameter \<open>start_group_id\<close> afterwards, and the bitmap afterwards. At the
  first free id \<open>i\<close> the function leaves with \<open>-1\<close> when \<open>i + group_cnt\<close> (in
  \<open>uint32_t\<close>) is not below \<open>max_id\<close>. Otherwise the inner loop sets \<open>ret = -1\<close> and
  leaves when a bit of the run is already set; the statements after that loop assign
  \<open>start_group_id = i\<close> and \<open>ret = 0\<close> and set the bits of the run in either case. A
  bitmap without a free id ends the outer loop with the initial \<open>ret = 0\<close>.
\<close>

definition get_start_group_id ::
  "nat \<Rightarrow> (nat \<Rightarrow> bool) \<Rightarrow> int \<Rightarrow> u16 \<Rightarrow> int \<times> u16 \<times> (nat \<Rightarrow> bool)" where
  "get_start_group_id max_id bitmap group_cnt start_group_id =
     (if group_cnt = 0 then (0, start_group_id, bitmap)
      else
        case first_free_id max_id bitmap 0 of
          None \<Rightarrow> (0, start_group_id, bitmap)
        | Some i \<Rightarrow>
            let lim = nat ((int i + group_cnt) mod 2 ^ 32) in
            if lim \<ge> max_id then (- 1, start_group_id, bitmap)
            else
              let ret = (if \<exists>j\<in>{i..<lim}. bitmap j = True then - 1 else (0 :: int));
                  ret = 0
              in (ret, of_nat i, (\<lambda>j. if i \<le> j \<and> j < lim then True else bitmap j)))"

text \<open>
  Modelled from the spec: \<open>put_start_group_id\<close> is not part of the sources (only its
  call in \<open>free_job_buffers\<close> is). It releases the run of \<open>count\<close> ids from \<open>start\<close>
  (spec 4.6).
\<close>

definition put_start_group_id :: "(nat \<Rightarrow> bool) \<Rightarrow> u16 \<Rightarrow> nat \<Rightarrow> (nat \<Rightarrow> bool)" where
  "put_start_group_id bitmap start count =
     (\<lambda>j. if unat start \<le> j \<and> j < unat start + count then False else bitmap j)"

text \<open>
  The bitmap of the failing scenario: from the empty bitmap, a run of two ids is taken
  (ids 0 and 1), a second run of two ids is taken (ids 2 and 3), and the first run is
  released.
\<close>

definition bitmap_after_release :: "nat \<Rightarrow> (nat \<Rightarrow> bool)" where
  "bitmap_after_release max_id =
     (case get_start_group_id max_id (\<lambda>j. False) 2 0 of (r1, s1, b1) \<Rightarrow>
      case get_start_group_id max_id b1 2 0 of (r2, s2, b2) \<Rightarrow>
        put_start_group_id b2 s1 2)"


section \<open>Scheduling and polling on the simulator back end (job_v3_1.cpp, simulator_v3_1.cpp)\<close>

text \<open>
  \<open>JobDesc\<close>: the members that the simulator back end reads. \<open>jobbase\<close> is a pointer
  to the job and is kept as the key of the job in the store of jobs below.
\<close>

record JobDesc =
  jobbase :: nat
  tcb_number :: u32
  tcb_head :: u64
  tcb_tail :: u64

text \<open>\<open>job_queue_elem_t\<close>, an element of \<open>m_buffer_queue\<close>.\<close>

record job_queue_elem_t =
  elem_job :: nat
  elem_jobdesc :: JobDesc

datatype tsm_register =
    TSM_STATUS
  | TSM_CMD_SCHED_ADDR_HI
  | TSM_CMD_SCHED_ADDR_LO
  | TSM_CMD_TCB_NUMBER
  | TSM_CMD_SCHED_CTRL

text \<open>
  Modelled from the spec: the simulator of the device (\<open>sim_aipu::Aipu\<close>) is a library
  outside the sources. It is kept as the value that a read of \<open>TSM_STATUS\<close> gives and
  the register writes that it has received, the oldest first.
\<close>

record sim_aipu =
  tsm_status :: u32
  register_writes :: "(tsm_register \<times> u32) list"

definition write_register :: "sim_aipu \<Rightarrow> tsm_register \<Rightarrow> u32 \<Rightarrow> sim_aipu" where
  "write_register aipu r v = aipu\<lparr>register_writes := register_writes aipu @ [(r, v)]\<rparr>"

text \<open>
  The state of \<open>SimulatorV3_1\<close>: \<open>m_aipu\<close> is \<open>None\<close> for the null pointer,
  \<open>m_commit_map\<close> an association list from grid ids to jobs, the two sets are lists
  without repetition. \<open>simv3_1_has_grid_done\<close> is the flag of that name of the file.
\<close>

record SimulatorV3_1 =
  m_aipu :: "sim_aipu option"
  m_buffer_queue :: "job_queue_elem_t list"
  m_commit_map :: "(u16 \<times> nat) list"
  m_cant_add_job_flag :: bool
  m_partition_mode :: u32
  m_done_set :: "nat list"
  m_sim_done_grid_set :: "u16 list"
  simv3_1_has_grid_done :: bool

text \<open>
  The constants and the helper of the simulator back end whose definitions are not
  part of the sources, as parameters.
\<close>

record simulator_consts =
  POOL_PCP :: u32
  POOL_SCP :: u32
  AIPU_JOB_QOS_SLOW :: u32
  CREATE_CMD_POOL :: u32
  DISPATCH_CMD_POOL :: u32
  get_cmdpool_id :: "nat \<Rightarrow> u32 \<Rightarrow> u32"

text \<open>Modelled from the spec: the two halves of a 64-bit address.\<close>

definition get_high_32 :: "u64 \<Rightarrow> u32" where
  "get_high_32 x = ucast (drop_bit 32 x)"

definition get_low_32 :: "u64 \<Rightarrow> u32" where
  "get_low_32 x = ucast x"

text \<open>\<open>SimulatorV3_1::is_cmdpool_full\<close>.\<close>

definition is_cmdpool_full ::
  "simulator_consts \<Rightarrow> u32 \<Rightarrow> u32 \<Rightarrow> u32 \<Rightarrow> nat \<Rightarrow> u32 \<Rightarrow> bool" where
  "is_cmdpool_full P qos part_id partition_mode cluster_idx reg_val =
     (let cmdpool_full_flag =
        (if qos = AIPU_JOB_QOS_SLOW P then
           (if partition_mode = POOL_SCP P \<and> part_id = 1
              then push_bit (cluster_idx + 4) 1 AND reg_val
            else push_bit cluster_idx 1 AND reg_val)
         else
           (if partition_mode = POOL_SCP P \<and> part_id = 1
              then push_bit (cluster_idx + 12) 1 AND reg_val
            else push_bit (cluster_idx + 8) 1 AND reg_val))
      in cmdpool_full_flag \<noteq> 0)"

text \<open>
  The command pool of a job: \<open>m_bind_cmdpool_id\<close> is chosen by \<open>get_cmdpool_id\<close> when
  it still is \<open>0xffffffff\<close>.
\<close>

definition bind_cmdpool :: "simulator_consts \<Rightarrow> nat \<Rightarrow> u32 \<Rightarrow> JobV3_1 \<Rightarrow> JobV3_1" where
  "bind_cmdpool P cluster_idx part_id job =
     (if m_bind_cmdpool_id job = 0xffffffff
        then job\<lparr>m_bind_cmdpool_id := get_cmdpool_id P cluster_idx part_id\<rparr>
      else job)"

text \<open>
  \<open>SimulatorV3_1::schedule\<close>. The jobs live in a store (\<open>jobs\<close>) from pointers to
  jobs, since the queue and the commit map hold pointers; a pointer that is not in the
  store is \<open>Out_Of_Bounds\<close>.
\<close>

definition SimulatorV3_1_schedule ::
  "simulator_consts \<Rightarrow> (nat \<rightharpoonup> JobV3_1) \<Rightarrow> SimulatorV3_1 \<Rightarrow> JobDesc
     \<Rightarrow> fault + aipu_status \<times> (nat \<rightharpoonup> JobV3_1) \<times> SimulatorV3_1" where
  "SimulatorV3_1_schedule P jobs sim jobdesc =
     (case jobs (jobbase jobdesc) of
        None \<Rightarrow> Inl Out_Of_Bounds
      | Some job \<Rightarrow>
          let grid_id = m_grid_id job;
              part_id = m_partition_id job;
              cluster_idx = 0;
              qos = m_qos job;
              part_id = (if POOL_SCP P < part_id then POOL_PCP P else part_id)
          in
          case m_aipu sim of
            None \<Rightarrow> Inr (AIPU_STATUS_ERROR_NULL_PTR, jobs, sim)
          | Some aipu \<Rightarrow>
              let job = bind_cmdpool P cluster_idx part_id job;
                  cmd_pool_id = m_bind_cmdpool_id job;
                  jobs = jobs(jobbase jobdesc \<mapsto> job);
                  job_queue_item = \<lparr>elem_job = jobbase jobdesc, elem_jobdesc = jobdesc\<rparr>;
                  sim = sim\<lparr>m_buffer_queue := m_buffer_queue sim @ [job_queue_item]\<rparr>
              in
              if \<not> m_cant_add_job_flag sim then
                (let reg_val = tsm_status aipu in
                 if \<not> is_cmdpool_full P qos part_id (m_partition_mode sim) cluster_idx reg_val then
                   (let job_queue_item = hd (m_buffer_queue sim);
                        job_desc = elem_jobdesc job_queue_item;
                        aipu = write_register aipu TSM_CMD_SCHED_ADDR_HI (get_high_32 (tcb_head job_desc));
                        aipu = write_register aipu TSM_CMD_SCHED_ADDR_LO (get_low_32 (tcb_head job_desc));
                        aipu = write_register aipu TSM_CMD_TCB_NUMBER (tcb_number job_desc);
                        v = push_bit 19 part_id OR push_bit 16 cmd_pool_id OR push_bit 8 qos;
                        aipu = write_register aipu TSM_CMD_SCHED_CTRL (v OR CREATE_CMD_POOL P);
                        aipu = write_register aipu TSM_CMD_SCHED_CTRL (DISPATCH_CMD_POOL P)
                    in Inr (AIPU_STATUS_SUCCESS, jobs,
                            sim\<lparr>m_cant_add_job_flag := True,
                                m_buffer_queue := tl (m_buffer_queue sim),
                                m_commit_map :=
                                  AList.update grid_id (jobbase job_desc) (m_commit_map sim),
                                m_aipu := Some aipu\<rparr>))
                 else Inr (AIPU_STATUS_SUCCESS, jobs, sim))
              else Inr (AIPU_STATUS_SUCCESS, jobs, sim))"

text \<open>
  The loop of \<open>SimulatorV3_1::fill_commit_queue\<close>; the second argument is the number
  of iterations that remain.
\<close>

fun fill_commit_queue_loop ::
  "simulator_consts \<Rightarrow> nat \<Rightarrow> (nat \<rightharpoonup> JobV3_1) \<Rightarrow> SimulatorV3_1
     \<Rightarrow> fault + aipu_status \<times> (nat \<rightharpoonup> JobV3_1) \<times> SimulatorV3_1" where
  "fill_commit_queue_loop P 0 jobs sim = Inr (AIPU_STATUS_SUCCESS, jobs, sim)"
| "fill_commit_queue_loop P (Suc n) jobs sim =
     (case m_buffer_queue sim of
        [] \<Rightarrow> Inl Out_Of_Bounds
      | job_queue_item # rest \<Rightarrow>
          (case jobs (elem_job job_queue_item) of
             None \<Rightarrow> Inl Out_Of_Bounds
           | Some job \<Rightarrow>
               let jobdesc = elem_jobdesc job_queue_item;
                   grid_id = m_grid_id job;
                   part_id = m_partition_id job;
                   qos = m_qos job;
                   cluster_idx = 0;
                   part_id = (if POOL_SCP P < part_id then POOL_PCP P else part_id)
               in
               case m_aipu sim of
                 None \<Rightarrow> Inr (AIPU_STATUS_ERROR_NULL_PTR, jobs, sim)
               | Some aipu \<Rightarrow>
                   let job = bind_cmdpool P 0 part_id job;
                       cmd_pool_id = m_bind_cmdpool_id job;
                       jobs = jobs(elem_job job_queue_item \<mapsto> job);
                       reg_val = tsm_status aipu
                   in
                   if \<not> is_cmdpool_full P qos part_id (m_partition_mode sim) cluster_idx reg_val then
                     (let aipu = write_register aipu TSM_CMD_SCHED_ADDR_HI (get_high_32 (tcb_head jobdesc));
                          aipu = write_register aipu TSM_CMD_SCHED_ADDR_LO (get_low_32 (tcb_head jobdesc));
                          aipu = write_register aipu TSM_CMD_TCB_NUMBER (get_low_32 (ucast (tcb_number jobdesc)));
                          v = push_bit 19 part_id OR push_bit 16 cmd_pool_id OR push_bit 8 qos;
                          aipu = write_register aipu TSM_CMD_SCHED_CTRL (v OR DISPATCH_CMD_POOL P)
                      in fill_commit_queue_loop P n jobs
                           (sim\<lparr>m_aipu := Some aipu,
                                m_buffer_queue := rest,
                                m_commit_map :=
                                  AList.update grid_id (elem_job job_queue_item) (m_commit_map sim),
                                m_cant_add_job_flag := True\<rparr>))
                   else Inr (AIPU_STATUS_SUCCESS, jobs, sim)))"

definition fill_commit_queue ::
  "simulator_consts \<Rightarrow> (nat \<rightharpoonup> JobV3_1) \<Rightarrow> SimulatorV3_1
     \<Rightarrow> fault + aipu_status \<times> (nat \<rightharpoonup> JobV3_1) \<times> SimulatorV3_1" where
  "fill_commit_queue P jobs sim =
     (let max_limit = 1;
          max_cnt = (if max_limit \<le> length (m_buffer_queue sim) then max_limit
                     else length (m_buffer_queue sim))
      in if 16 \<le> length (m_commit_map sim) then Inr (AIPU_STATUS_SUCCESS, jobs, sim)
         else fill_commit_queue_loop P max_cnt jobs sim)"

text \<open>
  Modelled from the spec: \<open>update_job_status\<close> with the state \<open>DONE\<close> sets the status
  of the job to \<open>DONE\<close>.
\<close>

definition update_job_status_done :: "JobV3_1 \<Rightarrow> JobV3_1" where
  "update_job_status_done job = job\<lparr>m_status := AIPU_JOB_STATUS_DONE\<rparr>"

text \<open>
  \<open>sim_cb_handler\<close> for the event \<open>AIPU_EV_GRID_END\<close> with the grid id \<open>v\<close>.
\<close>

definition sim_cb_handler :: "SimulatorV3_1 \<Rightarrow> u16 \<Rightarrow> SimulatorV3_1" where
  "sim_cb_handler sim v =
     sim\<lparr>m_sim_done_grid_set := List.insert v (m_sim_done_grid_set sim),
         simv3_1_has_grid_done := True\<rparr>"

text \<open>
  The wait on the condition variable in \<open>poll_status\<close>. The thread of the simulator
  is kept as the list of the grid ids that it will report, in order; the wait returns
  at once when \<open>simv3_1_has_grid_done\<close> holds, takes the next report otherwise, and
  never returns (\<open>None\<close>) when there is none.
\<close>

fun wait_grid_done :: "u16 list \<Rightarrow> SimulatorV3_1 \<Rightarrow> (u16 list \<times> SimulatorV3_1) option" where
  "wait_grid_done [] sim = (if simv3_1_has_grid_done sim then Some ([], sim) else None)"
| "wait_grid_done (v # events) sim =
     (if simv3_1_has_grid_done sim then Some (v # events, sim)
      else wait_grid_done events (sim_cb_handler sim v))"

text \<open>
  The loop of \<open>poll_status\<close> over \<open>m_sim_done_grid_set\<close>: the grids that are done and
  committed move their job to \<open>m_done_set\<close>; the result also has \<open>sim_done_grid_vec\<close>.
\<close>

fun collect_done_grids :: "u16 list \<Rightarrow> SimulatorV3_1 \<Rightarrow> u16 list \<Rightarrow> SimulatorV3_1 \<times> u16 list" where
  "collect_done_grids [] sim vec = (sim, vec)"
| "collect_done_grids (done_gridid # rest) sim vec =
     (case map_of (m_commit_map sim) done_gridid of
        None \<Rightarrow> collect_done_grids rest sim vec
      | Some j \<Rightarrow>
          collect_done_grids rest
            (sim\<lparr>m_done_set := List.insert j (m_done_set sim),
                 m_commit_map := AList.delete done_gridid (m_commit_map sim),
                 m_cant_add_job_flag := False\<rparr>)
            (vec @ [done_gridid]))"

datatype aipu_ll_status = AIPU_LL_STATUS_SUCCESS

text \<open>
  The \<open>while (1)\<close> loop of \<open>poll_status\<close>, with fuel: the first argument bounds the
  number of iterations, \<open>None\<close> is a call that has not returned within them or that
  waits for ever. \<open>events\<close> are the reports of the simulator that are still to come.
\<close>

fun poll_status_loop ::
  "simulator_consts \<Rightarrow> nat \<Rightarrow> u16 list \<Rightarrow> (nat \<rightharpoonup> JobV3_1) \<Rightarrow> SimulatorV3_1 \<Rightarrow> nat \<Rightarrow> u16
     \<Rightarrow> (fault + aipu_ll_status \<times> (nat \<rightharpoonup> JobV3_1) \<times> SimulatorV3_1) option" where
  "poll_status_loop P 0 events jobs sim job_ptr grid_id = None"
| "poll_status_loop P (Suc fuel) events jobs sim job_ptr grid_id =
     (if job_ptr \<in> set (m_done_set sim) then
        (case jobs job_ptr of
           None \<Rightarrow> Some (Inl Out_Of_Bounds)
         | Some job \<Rightarrow>
             Some (Inr (AIPU_LL_STATUS_SUCCESS, jobs(job_ptr \<mapsto> update_job_status_done job),
                        sim\<lparr>m_done_set := removeAll job_ptr (m_done_set sim)\<rparr>)))
      else if map_of (m_commit_map sim) grid_id \<noteq> None then
        (case (if grid_id \<notin> set (m_sim_done_grid_set sim)
               then map_option (\<lambda>(ev, s). (ev, s\<lparr>simv3_1_has_grid_done := False\<rparr>))
                      (wait_grid_done events sim)
               else Some (events, sim)) of
           None \<Rightarrow> None
         | Some (events, sim) \<Rightarrow>
             (case collect_done_grids (m_sim_done_grid_set sim) sim [] of
                (sim, sim_done_grid_vec) \<Rightarrow>
                  let sim = sim\<lparr>m_sim_done_grid_set :=
                                   filter (\<lambda>g. g \<notin> set sim_done_grid_vec) (m_sim_done_grid_set sim)\<rparr>
                  in
                  if 0 < length (m_buffer_queue sim) then
                    (case fill_commit_queue P jobs sim of
                       Inl e \<Rightarrow> Some (Inl e)
                     | Inr (ret, jobs, sim) \<Rightarrow>
                         poll_status_loop P fuel events jobs sim job_ptr grid_id)
                  else poll_status_loop P fuel events jobs sim job_ptr grid_id))
      else poll_status_loop P fuel events jobs sim job_ptr grid_id)"

text \<open>
  \<open>SimulatorV3_1::poll_status\<close> for the job \<open>job_ptr\<close> (the argument \<open>jobbase\<close>) of the graph \<open>graph\<close>; the
  subgraph count of a job is the one of its graph.
\<close>

definition poll_status ::
  "simulator_consts \<Rightarrow> nat \<Rightarrow> u16 list \<Rightarrow> GraphV3X \<Rightarrow> (nat \<rightharpoonup> JobV3_1) \<Rightarrow> SimulatorV3_1 \<Rightarrow> nat
     \<Rightarrow> (fault + aipu_ll_status \<times> (nat \<rightharpoonup> JobV3_1) \<times> SimulatorV3_1) option" where
  "poll_status P fuel events graph jobs sim job_ptr =
     (case jobs job_ptr of
        None \<Rightarrow> Some (Inl Out_Of_Bounds)
      | Some job \<Rightarrow>
          let grid_id = m_grid_id job in
          if get_subgraph_cnt graph = 0
            then Some (Inr (AIPU_LL_STATUS_SUCCESS, jobs(job_ptr \<mapsto> update_job_status_done job), sim))
          else poll_status_loop P fuel events jobs sim job_ptr grid_id)"

text \<open>
  The writes of \<open>JobV3_1::schedule\<close> to the buffers of the job before it hands the
  job to the device: the error-code buffer is zeroized when there is just one, and the
  TCB chain is written back from the backup when the backup is in use.
\<close>

definition restore_buffers :: "JobV3_1 \<Rightarrow> device_memory \<Rightarrow> device_memory" where
  "restore_buffers job mem =
     (let mem = (if length (m_err_code job) = 1
                   then mem_zeroize mem (fst (m_err_code job ! 0)) (snd (m_err_code job ! 0))
                 else mem)
      in case m_backup_tcb job of
           None \<Rightarrow> mem
         | Some backup \<Rightarrow>
             if m_backup_tcb_used job
               then mem_write_tcbs mem (m_tcbs_pa job) (take (m_tot_tcb_cnt job) backup)
             else mem)"

text \<open>The members of \<open>desc\<close> that the simulator back end reads.\<close>

definition schedule_desc :: "nat \<Rightarrow> JobV3_1 \<Rightarrow> JobDesc" where
  "schedule_desc this job =
     \<lparr>jobbase = this, tcb_number = of_nat (m_tot_tcb_cnt job),
      tcb_head = of_nat (m_tcbs_pa job),
      tcb_tail = of_nat (task_tcb_pa job (m_sg_cnt job - 1) (m_task_per_sg job - 1))\<rparr>"

text \<open>
  Modelled from the spec: \<open>validate_schedule_status\<close> is not part of the sources. By
  the lifecycle of a job in the specification a job is scheduled from the states
  \<open>INIT\<close>, \<open>DONE\<close> (a run again) and \<open>BIND\<close> (a deferred run); from any other state
  the operation is invalid.
\<close>

definition validate_schedule_status :: "JobV3_1 \<Rightarrow> aipu_status" where
  "validate_schedule_status job =
     (if m_status job \<in> {AIPU_JOB_STATUS_INIT, AIPU_JOB_STATUS_DONE, AIPU_JOB_STATUS_BIND}
        then AIPU_STATUS_SUCCESS else AIPU_STATUS_ERROR_INVALID_OP)"

text \<open>
  \<open>JobV3_1::schedule\<close> of the job \<open>this\<close> of the store. The subgraph count of a
  job is the one of its graph; the dumps of buffers to files of the host are left out.
  The last task of the last subgraph does not exist when \<open>m_sg_cnt\<close> or
  \<open>m_task_per_sg\<close> is 0.
\<close>

definition schedule ::
  "simulator_consts \<Rightarrow> GraphV3X \<Rightarrow> (nat \<rightharpoonup> JobV3_1)
     \<Rightarrow> device_memory \<Rightarrow> SimulatorV3_1 \<Rightarrow> nat
     \<Rightarrow> fault + aipu_status \<times> (nat \<rightharpoonup> JobV3_1) \<times> device_memory \<times> SimulatorV3_1" where
  "schedule P graph jobs mem sim this =
     (case jobs this of
        None \<Rightarrow> Inl Out_Of_Bounds
      | Some job \<Rightarrow>
          let ret = validate_schedule_status job in
          if ret \<noteq> AIPU_STATUS_SUCCESS then Inr (ret, jobs, mem, sim)
          else if get_subgraph_cnt graph = 0 then Inr (ret, jobs, mem, sim)
          else
            let mem = restore_buffers job mem;
                job = job\<lparr>m_backup_tcb_used := True\<rparr>;
                jobs = jobs(this \<mapsto> job)
            in
            if m_sg_cnt job = 0 \<or> m_task_per_sg job = 0 then Inl Out_Of_Bounds
            else
              case (if m_text_size graph = 0 then Inr (ret, jobs, sim)
                    else SimulatorV3_1_schedule P jobs sim (schedule_desc this job)) of
                Inl e \<Rightarrow> Inl e
              | Inr (ret, jobs, sim) \<Rightarrow>
                  if ret \<noteq> AIPU_STATUS_SUCCESS then Inr (ret, jobs, mem, sim)
                  else
                    (case jobs this of
                       None \<Rightarrow> Inl Out_Of_Bounds
                     | Some job \<Rightarrow>
                         Inr (ret,
                              jobs(this \<mapsto> job\<lparr>m_status :=
                                     (if m_is_defer_run job \<and> \<not> m_do_trigger job
                                        then AIPU_JOB_STATUS_BIND else AIPU_JOB_STATUS_SCHED)\<rparr>),
                              mem, sim)))"

text \<open>The constants of the simulator back end and a simulator for the examples.\<close>

definition example_consts :: simulator_consts where
  "example_consts =
     \<lparr>POOL_PCP = 0, POOL_SCP = 1, AIPU_JOB_QOS_SLOW = 0, CREATE_CMD_POOL = 1,
      DISPATCH_CMD_POOL = 2, get_cmdpool_id = (\<lambda>cluster_idx part_id. 0)\<rparr>"

definition example_simulator :: "sim_aipu option \<Rightarrow> SimulatorV3_1" where
  "example_simulator aipu =
     \<lparr>m_aipu = aipu, m_buffer_queue = [], m_commit_map = [], m_cant_add_job_flag = False,
      m_partition_mode = 0, m_done_set = [], m_sim_done_grid_set = [],
      simv3_1_has_grid_done = False\<rparr>"

text \<open>
  A job that has run once: its status is \<open>DONE\<close>, its backup of the TCB chain is in
  use, and its error-code buffer of 4 bytes lies at the address 0x8000.
\<close>

definition example_done_job :: JobV3_1 where
  "example_done_job =
     example_job\<lparr>m_status := AIPU_JOB_STATUS_DONE, m_backup_tcb_used := True,
                 m_backup_tcb := Some (replicate 11 (Some tcb_zero)),
                 m_err_code := [(0x8000, 4)]\<rparr>"

definition example_jobs :: "nat \<rightharpoonup> JobV3_1" where
  "example_jobs = [1 \<mapsto> example_done_job]"

text \<open>A memory whose error-code buffer holds the code 9 of the run before.\<close>

definition example_run_memory :: device_memory where
  "example_run_memory =
     \<lparr>tcb_mem = (\<lambda>a. None), byte_mem = (\<lambda>a. if a = 0x8000 then 9 else 0)\<rparr>"

text \<open>A graph without subgraphs.\<close>

definition example_empty_graph :: GraphV3X where
  "example_empty_graph = \<lparr>m_subgraphs = [], m_fake_subgraph = False, m_text_size = 0\<rparr>"

text \<open>The status that \<open>schedule\<close> gives a job that it has handed over.\<close>

definition scheduled_status :: "JobV3_1 \<Rightarrow> aipu_job_status" where
  "scheduled_status job =
     (if m_is_defer_run job \<and> \<not> m_do_trigger job
        then AIPU_JOB_STATUS_BIND else AIPU_JOB_STATUS_SCHED)"


section \<open>Dynamic output shapes (job_v3_1.cpp)\<close>

text \<open>The data types of a tensor (\<open>aipu_data_type_t\<close>).\<close>

datatype aipu_data_type =
    AIPU_DATA_TYPE_NONE
  | AIPU_DATA_TYPE_BOOL
  | AIPU_DATA_TYPE_U8
  | AIPU_DATA_TYPE_S8
  | AIPU_DATA_TYPE_U16
  | AIPU_DATA_TYPE_S16
  | AIPU_DATA_TYPE_U32
  | AIPU_DATA_TYPE_S32
  | AIPU_DATA_TYPE_U64
  | AIPU_DATA_TYPE_S64
  | AIPU_DATA_TYPE_F16
  | AIPU_DATA_TYPE_F32
  | AIPU_DATA_TYPE_F64
  | AIPU_DATA_TYPE_BF16

text \<open>
  An I/O buffer of the job (\<open>JobIOBuffer\<close>): the fields that the functions of this
  development read, the id, the size in bytes, the data type and the physical address.
\<close>

record JobIOBuffer =
  io_id :: u32
  io_size :: u32
  io_type :: aipu_data_type
  io_pa :: u64

text \<open>
  The state of the \<open>DynamicShape\<close> object of a job that \<open>parse_dynamic_out_shape\<close>
  uses: whether a dynamic shape is set, the number of configured input shapes, the
  flag \<open>dynamic_out_shape_updated\<close>, the configured size of each output, and how many
  times \<open>update_dynamic_io_tensor_size\<close> has run for the outputs.
\<close>

record DynamicShape =
  set_dyn_shape_true :: bool
  config_shape_sz :: nat
  dynamic_out_shape_updated :: bool
  config_out_tensor_size :: "nat \<rightharpoonup> u64"
  io_tensor_size_updates :: nat

text \<open>
  Modelled from the spec: \<open>testset_dynamic_out_shape_updated\<close> returns the flag and
  sets it, so that the update of the outputs happens at most once per job.
\<close>

definition testset_dynamic_out_shape_updated :: "DynamicShape \<Rightarrow> bool \<times> DynamicShape" where
  "testset_dynamic_out_shape_updated ds =
     (dynamic_out_shape_updated ds, ds\<lparr>dynamic_out_shape_updated := True\<rparr>)"

text \<open>
  Modelled from the spec: \<open>clear_config_out_tensor_size\<close> forgets every recorded
  output size.
\<close>

definition clear_config_out_tensor_size :: "DynamicShape \<Rightarrow> DynamicShape" where
  "clear_config_out_tensor_size ds = ds\<lparr>config_out_tensor_size := Map.empty\<rparr>"

text \<open>
  Modelled from the spec: \<open>set_config_out_tensor_size\<close> records the size of output
  \<open>i\<close>.
\<close>

definition set_config_out_tensor_size :: "nat \<Rightarrow> u64 \<Rightarrow> DynamicShape \<Rightarrow> DynamicShape" where
  "set_config_out_tensor_size i sz ds =
     ds\<lparr>config_out_tensor_size := (config_out_tensor_size ds)(i \<mapsto> sz)\<rparr>"

text \<open>
  Modelled from the spec: \<open>update_dynamic_io_tensor_size\<close> for the outputs is
  counted; what it writes is not part of this development.
\<close>

definition update_dynamic_io_tensor_size :: "DynamicShape \<Rightarrow> DynamicShape" where
  "update_dynamic_io_tensor_size ds =
     ds\<lparr>io_tensor_size_updates := Suc (io_tensor_size_updates ds)\<rparr>"

text \<open>
  The part of a job that \<open>parse_dynamic_out_shape\<close> works on: whether the graph has a
  dynamic shape, the \<open>DynamicShape\<close> object, the inputs, outputs and output-shape
  tensors, and how many times \<open>update_single_io_buffers\<close> has rewritten the outputs.
\<close>

record JobIO =
  is_dynamic_shape :: bool
  m_dyn_shape :: DynamicShape
  m_inputs :: "JobIOBuffer list"
  m_outputs :: "JobIOBuffer list"
  m_outputs_shape :: "JobIOBuffer list"
  single_io_updates :: nat

text \<open>
  Modelled from the spec: the 32-bit word that \<open>m_mem->read\<close> leaves in \<open>data[j]\<close>,
  four bytes of device memory, the lowest address first.
\<close>

definition mem_read_u32 :: "device_memory \<Rightarrow> nat \<Rightarrow> u32" where
  "mem_read_u32 mem a =
     ucast (byte_mem mem a) OR push_bit 8 (ucast (byte_mem mem (a + 1)))
       OR push_bit 16 (ucast (byte_mem mem (a + 2))) OR push_bit 24 (ucast (byte_mem mem (a + 3)))"

text \<open>The words \<open>data[0 .. size / 4 - 1]\<close> after the read of an output-shape tensor.\<close>

definition shape_data :: "device_memory \<Rightarrow> JobIOBuffer \<Rightarrow> u32 list" where
  "shape_data mem sh =
     map (\<lambda>j. mem_read_u32 mem (unat (io_pa sh) + 4 * j)) [0..<unat (io_size sh) div 4]"

text \<open>The inner loop \<open>size *= data[j]\<close>, in 64 bits.\<close>

fun shape_product :: "u32 list \<Rightarrow> u64 \<Rightarrow> u64" where
  "shape_product [] sz = sz"
| "shape_product (d # ds) sz = shape_product ds (sz * ucast d)"

text \<open>The shift of the size by the data type of the output.\<close>

definition shift_by_type :: "aipu_data_type \<Rightarrow> u64 \<Rightarrow> u64" where
  "shift_by_type ty sz =
     (if ty = AIPU_DATA_TYPE_U16 \<or> ty = AIPU_DATA_TYPE_S16
         \<or> ty = AIPU_DATA_TYPE_F16 \<or> ty = AIPU_DATA_TYPE_BF16
        then push_bit 1 sz
      else if ty = AIPU_DATA_TYPE_U32 \<or> ty = AIPU_DATA_TYPE_S32 \<or> ty = AIPU_DATA_TYPE_F32
        then push_bit 2 sz
      else sz)"

text \<open>
  The loop over the output-shape tensors: \<open>i\<close> is the loop variable, the next argument
  the number of tensors that remain. The local array \<open>data\<close> holds 96 words; a tensor
  of more bytes than that is \<open>Out_Of_Bounds\<close>.
\<close>

fun parse_dynamic_out_shape_loop ::
  "device_memory \<Rightarrow> JobIOBuffer list \<Rightarrow> JobIOBuffer list \<Rightarrow> nat \<Rightarrow> nat \<Rightarrow> DynamicShape
     \<Rightarrow> fault + aipu_status \<times> DynamicShape" where
  "parse_dynamic_out_shape_loop mem outs shapes i 0 ds = Inr (AIPU_STATUS_SUCCESS, ds)"
| "parse_dynamic_out_shape_loop mem outs shapes i (Suc n) ds =
     (if length shapes \<le> i \<or> length outs \<le> i then Inl Out_Of_Bounds
      else if 96 * 4 < unat (io_size (shapes ! i)) then Inl Out_Of_Bounds
      else
        let sz = shape_product (shape_data mem (shapes ! i)) 1 in
        if sz = 0
          then Inr (AIPU_STATUS_ERROR_ZERO_TENSOR_SIZE, clear_config_out_tensor_size ds)
        else
          let sz = shift_by_type (io_type (outs ! i)) sz in
          parse_dynamic_out_shape_loop mem outs shapes (Suc i) n
            (set_config_out_tensor_size i sz ds))"

text \<open>\<open>JobV3_1::parse_dynamic_out_shape\<close>.\<close>

definition parse_dynamic_out_shape :: "device_memory \<Rightarrow> JobIO \<Rightarrow> fault + aipu_status \<times> JobIO" where
  "parse_dynamic_out_shape mem job =
     (if is_dynamic_shape job \<and> set_dyn_shape_true (m_dyn_shape job)
         \<and> config_shape_sz (m_dyn_shape job) = length (m_inputs job)
      then
        let (updated, ds) = testset_dynamic_out_shape_updated (m_dyn_shape job) in
        if \<not> updated then
          (if length (m_outputs_shape job) \<noteq> length (m_outputs job)
             then Inr (AIPU_STATUS_ERROR_UNMATCH_OUT_SHAPE, job\<lparr>m_dyn_shape := ds\<rparr>)
           else
             case parse_dynamic_out_shape_loop mem (m_outputs job) (m_outputs_shape job) 0
                    (length (m_outputs_shape job)) ds of
               Inl e \<Rightarrow> Inl e
             | Inr (ret, ds') \<Rightarrow>
                 if ret \<noteq> AIPU_STATUS_SUCCESS then Inr (ret, job\<lparr>m_dyn_shape := ds'\<rparr>)
                 else Inr (AIPU_STATUS_SUCCESS,
                           job\<lparr>m_dyn_shape := update_dynamic_io_tensor_size ds',
                               single_io_updates := Suc (single_io_updates job)\<rparr>))
        else Inr (AIPU_STATUS_SUCCESS, job\<lparr>m_dyn_shape := ds\<rparr>)
      else Inr (AIPU_STATUS_SUCCESS, job))"

text \<open>
  The product of the dims of an output-shape tensor, in 64 bits, and the size that
  \<open>parse_dynamic_out_shape\<close> records for an output: that product, shifted by the type
  of the output.
\<close>

definition dims_product :: "device_memory \<Rightarrow> JobIOBuffer \<Rightarrow> u64" where
  "dims_product mem sh = prod_list (map ucast (shape_data mem sh))"

definition out_tensor_size :: "device_memory \<Rightarrow> JobIOBuffer \<Rightarrow> JobIOBuffer \<Rightarrow> u64" where
  "out_tensor_size mem out sh = shift_by_type (io_type out) (dims_product mem sh)"

text \<open>
  The bytes of an element as the specification gives them: 1 for U8 and S8, 2 for U16,
  S16, F16 and BF16, 4 for U32, S32 and F32. The specification gives none for the
  other types.
\<close>

definition bytes_per_element :: "aipu_data_type \<Rightarrow> u64 option" where
  "bytes_per_element ty =
     (if ty \<in> {AIPU_DATA_TYPE_U8, AIPU_DATA_TYPE_S8} then Some 1
      else if ty \<in> {AIPU_DATA_TYPE_U16, AIPU_DATA_TYPE_S16, AIPU_DATA_TYPE_F16,
                      AIPU_DATA_TYPE_BF16} then Some 2
      else if ty \<in> {AIPU_DATA_TYPE_U32, AIPU_DATA_TYPE_S32, AIPU_DATA_TYPE_F32} then Some 4
      else None)"

text \<open>
  A job for the examples: one input, two outputs of types F16 and S8, whose shape
  tensors of 8 bytes lie at the addresses 0x100 and 0x200.
\<close>

definition example_dyn_shape :: DynamicShape where
  "example_dyn_shape =
     \<lparr>set_dyn_shape_true = True, config_shape_sz = 1, dynamic_out_shape_updated = False,
      config_out_tensor_size = Map.empty, io_tensor_size_updates = 0\<rparr>"

definition example_job_io :: JobIO where
  "example_job_io =
     \<lparr>is_dynamic_shape = True, m_dyn_shape = example_dyn_shape,
      m_inputs = [\<lparr>io_id = 0, io_size = 16, io_type = AIPU_DATA_TYPE_S8, io_pa = 0\<rparr>],
      m_outputs = [\<lparr>io_id = 0, io_size = 64, io_type = AIPU_DATA_TYPE_F16, io_pa = 0x1000\<rparr>,
                   \<lparr>io_id = 1, io_size = 64, io_type = AIPU_DATA_TYPE_S8, io_pa = 0x2000\<rparr>],
      m_outputs_shape = [\<lparr>io_id = 0, io_size = 8, io_type = AIPU_DATA_TYPE_U32, io_pa = 0x100\<rparr>,
                         \<lparr>io_id = 1, io_size = 8, io_type = AIPU_DATA_TYPE_U32, io_pa = 0x200\<rparr>],
      single_io_updates = 0\<rparr>"

text \<open>
  A memory for the examples: the first shape tensor holds the dims 2 and 3, the second
  the dims 5 and \<open>d\<close> (one byte).
\<close>

definition example_shape_memory :: "u8 \<Rightarrow> device_memory" where
  "example_shape_memory d =
     \<lparr>tcb_mem = (\<lambda>a. None),
      byte_mem = (\<lambda>a. if a = 0x100 then 2 else if a = 0x104 then 3
                        else if a = 0x200 then 5 else if a = 0x204 then d else 0)\<rparr>"


section \<open>Parser: the walk over the BSS (parser_base.cpp, graph_v3.h)\<close>

text \<open>
  The structs that \<open>parse_bss_section\<close> copies out of the binary (\<open>graph.h\<close> is not
  part of the sources): the members that the function uses, under the names of the
  source with the struct as a prefix where two structs share a name. The scale is a
  float in the source and kept as its 32-bit pattern.
\<close>

record BSSHeader =
  stack_size :: u32
  stack_align_bytes :: u32
  static_section_desc_cnt :: u32
  reuse_section_desc_cnt :: u32

record BSSStaticSectionDesc =
  static_size :: u32
  static_align_bytes :: u32
  static_offset_in_file :: u32
  static_sub_section_cnt :: u32

record BSSReuseSectionDesc =
  reuse_size :: u32
  reuse_align_bytes :: u32
  reuse_sub_section_cnt :: u32

record SubSectionDesc =
  sub_type :: u32
  sub_size :: u32
  sub_id :: u32
  sub_offset_in_section_exec :: u32
  sub_addr_mask :: u32
  sub_offset_in_ro_cnt :: u32
  sub_scale :: u32
  sub_zero_point :: u32
  sub_data_type :: u32

text \<open>
  \<open>GraphParamMapLoadDesc\<close>: what \<open>param.init\<close> is given, in the order of its
  arguments. \<open>GraphSubSectionDesc\<close> and \<open>GraphSectionDesc\<close>: the members that
  \<open>parse_bss_section\<close> sets.
\<close>

record GraphParamMapLoadDesc =
  param_offset_in_map :: u32
  param_load_type :: u32
  param_buf_type :: u32
  param_ref_section_iter :: u32
  param_ref_sub_section_iter :: u32
  param_sub_section_offset :: u32
  param_addr_mask :: u32

record GraphSubSectionDesc =
  sub_offset_in_section :: u32

record GraphSectionDesc =
  section_size :: u32
  align_in_page :: u32
  section_offset_in_file :: u32
  section_type :: u32
  slot_index :: u32
  load_src :: u64
  relative_addr :: u32
  sub_sections :: "GraphSubSectionDesc list"

text \<open>
  What the function takes from headers that are not part of the sources; all of it is a
  parameter of the model:
  \<^item> the sizes of the four structs, and how the bytes that \<open>memcpy\<close> copies give the
    members of each;
  \<^item> the macro \<open>ALIGN_ADDR\<close> and the function \<open>aligned\<close>;
  \<^item> the section types and the two load types of a parameter map entry;
  \<^item> \<open>section_ir.init()\<close>, as a function of the descriptor before the call;
  \<^item> \<open>gobj.get_bweight_base(bss_id)\<close>.
\<close>

record bss_format =
  sizeof_BSSHeader :: nat
  sizeof_BSSStaticSectionDesc :: nat
  sizeof_BSSReuseSectionDesc :: nat
  sizeof_SubSectionDesc :: nat
  load_BSSHeader :: "u8 list \<Rightarrow> BSSHeader"
  load_BSSStaticSectionDesc :: "u8 list \<Rightarrow> BSSStaticSectionDesc"
  load_BSSReuseSectionDesc :: "u8 list \<Rightarrow> BSSReuseSectionDesc"
  load_SubSectionDesc :: "u8 list \<Rightarrow> SubSectionDesc"
  ALIGN_ADDR :: "u32 \<Rightarrow> u32"
  aligned :: "u32 \<Rightarrow> u32 \<Rightarrow> u32"
  SECTION_TYPE_INPUT :: u32
  SECTION_TYPE_OUTPUT :: u32
  SECTION_TYPE_INTER_DUMP :: u32
  SECTION_TYPE_PROF_DATA :: u32
  SECTION_TYPE_PLOG_DATA :: u32
  SECTION_TYPE_LAYER_COUNTER :: u32
  SECTION_TYPE_ERROR_CODE :: u32
  SECTION_TYPE_SEGMMU :: u32
  SECTION_TYPE_OUT_TENSOR_SHAPE :: u32
  SECTION_TYPE_ZEROCPY_CONSTANT :: u32
  PARAM_MAP_LOAD_TYPE_STATIC :: u32
  PARAM_MAP_LOAD_TYPE_REUSE :: u32
  section_init :: "GraphSectionDesc \<Rightarrow> GraphSectionDesc"
  get_bweight_base :: "u32 \<Rightarrow> u64"

text \<open>
  \<open>struct BSS\<close> of \<open>graph_v3.h\<close>. The two \<open>std::map\<close>s are association lists.
\<close>

record BSS =
  bss_id :: u32
  bss_stack_size :: u32
  stack_align_in_page :: u32
  param_map :: "GraphParamMapLoadDesc list"
  const_sections :: "(u32 \<times> GraphSectionDesc) list"
  zerocpy_const_sections :: "(u32 \<times> GraphSectionDesc) list"
  const_info :: "u32 list"
  static_sections :: "GraphSectionDesc list"
  reuse_sections :: "GraphSectionDesc list"
  bss_io :: GraphIOTensors

text \<open>
  The setters of \<open>GraphV3X\<close> that the walk calls, on \<open>m_bss_vec\<close>. Each of them tests
  \<open>bss_id < (uint32_t)m_bss_vec.size()\<close>, so the index is inside the vector where it
  is used. \<open>add_reuse_section\<close> also writes to \<open>m_bss_vec[0]\<close> when \<open>bss_id\<close> is not
  0, and the walk writes to \<open>m_bss_vec[0].io\<close> through the reference it takes at its
  start: \<open>parse_bss_section\<close> below stops at that reference when the vector is empty,
  and no setter changes the length of the vector.
\<close>

definition upd_bss :: "u32 \<Rightarrow> (BSS \<Rightarrow> BSS) \<Rightarrow> BSS list \<Rightarrow> BSS list" where
  "upd_bss i f v = (if i < of_nat (length v) then v[unat i := f (v ! unat i)] else v)"

definition set_stack :: "u32 \<Rightarrow> u32 \<Rightarrow> u32 \<Rightarrow> BSS list \<Rightarrow> BSS list" where
  "set_stack i sz align v =
     upd_bss i (\<lambda>b. b\<lparr>bss_stack_size := sz, stack_align_in_page := align\<rparr>) v"

definition add_param :: "u32 \<Rightarrow> GraphParamMapLoadDesc \<Rightarrow> BSS list \<Rightarrow> BSS list" where
  "add_param i param v = upd_bss i (\<lambda>b. b\<lparr>param_map := param_map b @ [param]\<rparr>) v"

definition add_const_section :: "u32 \<Rightarrow> GraphSectionDesc \<Rightarrow> BSS list \<Rightarrow> BSS list" where
  "add_const_section i sec v =
     upd_bss i (\<lambda>b. b\<lparr>const_sections := AList.update (slot_index sec) sec (const_sections b)\<rparr>) v"

definition add_zerocpy_const_section :: "u32 \<Rightarrow> GraphSectionDesc \<Rightarrow> BSS list \<Rightarrow> BSS list" where
  "add_zerocpy_const_section i sec v =
     upd_bss i (\<lambda>b. b\<lparr>zerocpy_const_sections :=
                         AList.update (slot_index sec) sec (zerocpy_const_sections b)\<rparr>) v"

definition add_static_section :: "u32 \<Rightarrow> GraphSectionDesc \<Rightarrow> BSS list \<Rightarrow> BSS list" where
  "add_static_section i sec v =
     upd_bss i (\<lambda>b. b\<lparr>static_sections := static_sections b @ [sec]\<rparr>) v"

definition add_reuse_section :: "u32 \<Rightarrow> GraphSectionDesc \<Rightarrow> BSS list \<Rightarrow> BSS list" where
  "add_reuse_section i sec v =
     (let v1 = upd_bss i (\<lambda>b. b\<lparr>reuse_sections := reuse_sections b @ [sec]\<rparr>) v
      in if i \<noteq> 0 then v1[0 := (v1 ! 0)\<lparr>reuse_sections := reuse_sections (v1 ! 0) @ [sec]\<rparr>]
         else v1)"

definition set_const_size :: "u32 \<Rightarrow> u32 \<Rightarrow> u32 \<Rightarrow> BSS list \<Rightarrow> BSS list" where
  "set_const_size i const_size zerocpy_const_size v =
     (let const_size1 = (if const_size = 0 then 4096 else const_size)
      in upd_bss i (\<lambda>b. b\<lparr>const_info := const_info b @ [const_size1, zerocpy_const_size]\<rparr>) v)"

text \<open>
  \<open>fill_io_tensor_desc_inner\<close>: the descriptor of a sub-section is appended to the
  list of its type; a type without a list leaves the lists as they are and gives
  \<open>INVALID_TENSOR_TYPE\<close>.
\<close>

definition fill_io_tensor_desc_inner ::
  "bss_format \<Rightarrow> u32 \<Rightarrow> u32 \<Rightarrow> SubSectionDesc \<Rightarrow> GraphIOTensors \<Rightarrow> aipu_status \<times> GraphIOTensors" where
  "fill_io_tensor_desc_inner F reuse_sec_iter sub_sec_iter sub_section_load desc =
     (let io_desc = \<lparr>tensor_id = sub_id sub_section_load,
                      tensor_size = sub_size sub_section_load,
                      ref_section_iter = reuse_sec_iter,
                      offset_in_section = sub_offset_in_section_exec sub_section_load,
                      scale_bits = sub_scale sub_section_load,
                      zero_point = sub_zero_point sub_section_load,
                      data_type = sub_data_type sub_section_load\<rparr>;
          ty = sub_type sub_section_load
      in if ty = SECTION_TYPE_INPUT F
           then (AIPU_STATUS_SUCCESS, desc\<lparr>inputs := inputs desc @ [io_desc]\<rparr>)
         else if ty = SECTION_TYPE_OUTPUT F
           then (AIPU_STATUS_SUCCESS, desc\<lparr>outputs := outputs desc @ [io_desc]\<rparr>)
         else if ty = SECTION_TYPE_INTER_DUMP F
           then (AIPU_STATUS_SUCCESS, desc\<lparr>inter_dumps := inter_dumps desc @ [io_desc]\<rparr>)
         else if ty = SECTION_TYPE_PROF_DATA F
           then (AIPU_STATUS_SUCCESS, desc\<lparr>profiler := profiler desc @ [io_desc]\<rparr>)
         else if ty = SECTION_TYPE_PLOG_DATA F
           then (AIPU_STATUS_SUCCESS, desc\<lparr>printf := printf desc @ [io_desc]\<rparr>)
         else if ty = SECTION_TYPE_LAYER_COUNTER F
           then (AIPU_STATUS_SUCCESS, desc\<lparr>layer_counter := layer_counter desc @ [io_desc]\<rparr>)
         else if ty = SECTION_TYPE_ERROR_CODE F
           then (AIPU_STATUS_SUCCESS, desc\<lparr>err_code := err_code desc @ [io_desc]\<rparr>)
         else if ty = SECTION_TYPE_SEGMMU F
           then (AIPU_STATUS_SUCCESS, desc\<lparr>segmmus := segmmus desc @ [io_desc]\<rparr>)
         else if ty = SECTION_TYPE_OUT_TENSOR_SHAPE F
           then (AIPU_STATUS_SUCCESS, desc\<lparr>outputs_shape := outputs_shape desc @ [io_desc]\<rparr>)
         else (AIPU_STATUS_ERROR_INVALID_TENSOR_TYPE, desc))"

text \<open>
  The memory of the process, by address, and the bytes that a \<open>memcpy\<close> of \<open>n\<close> bytes
  from the pointer \<open>p\<close> copies. \<open>*(uint32_t*)p\<close> reads four bytes, the lowest first.
\<close>

type_synonym host_memory = "u64 \<Rightarrow> u8"

fun mem_bytes :: "host_memory \<Rightarrow> u64 \<Rightarrow> nat \<Rightarrow> u8 list" where
  "mem_bytes mem p 0 = []"
| "mem_bytes mem p (Suc n) = mem p # mem_bytes mem (p + 1) n"

definition le_u32 :: "u8 list \<Rightarrow> u32" where
  "le_u32 bs = ucast (bs ! 0) OR push_bit 8 (ucast (bs ! 1)) OR push_bit 16 (ucast (bs ! 2))
                 OR push_bit 24 (ucast (bs ! 3))"

definition UINT64_MAX :: u64 where
  "UINT64_MAX = - 1"

text \<open>
  Modelled from the spec: \<open>umd_is_valid_ptr\<close> (\<open>utils/helper.h\<close>) is not part of the
  sources. A pointer is in range when the \<open>sz\<close> bytes from it lie between the lower
  and the upper bound.
\<close>

definition umd_is_valid_ptr :: "u64 \<Rightarrow> u64 \<Rightarrow> u64 \<Rightarrow> nat \<Rightarrow> bool" where
  "umd_is_valid_ptr lower_bound upper_bound ptr sz \<longleftrightarrow>
     unat lower_bound \<le> unat ptr \<and> unat ptr + sz \<le> unat upper_bound"

text \<open>
  The state of the walk: the locals of \<open>parse_bss_section\<close> that live across the
  loops, the vector \<open>m_bss_vec\<close> of the graph object, and the two counters of the
  parser. Two more fields are kept for the proofs and have no counterpart in the
  source: \<open>reads\<close> lists every read from the binary in the order it is made (what is
  read, from which address, how many bytes), and \<open>refused\<close> is the read at which the
  walk left through \<open>goto overflow\<close>.
\<close>

datatype bss_read = Header | Static_desc | Reuse_desc | Sub_desc | Reloc_offset

record bss_walk =
  desc_load_addr :: u64
  static_desc_load :: BSSStaticSectionDesc
  reuse_desc_load :: BSSReuseSectionDesc
  sub_desc_load :: SubSectionDesc
  section_ir :: GraphSectionDesc
  cst_start_addr :: u32
  zerocpy_cst_start_addr :: u32
  m_bss_vec :: "BSS list"
  m_static_buf_idx :: u32
  m_reuse_buf_idx :: u32
  reads :: "(bss_read \<times> u64 \<times> nat) list"
  refused :: "(bss_read \<times> u64 \<times> nat) option"

text \<open>How a loop of the walk ends: at \<open>goto overflow\<close>, or at its bound.\<close>

datatype walk = Overflow bss_walk | Continue bss_walk

text \<open>
  The loop over the relocation offsets of a sub-section of a static section. \<open>n\<close> is
  the number of iterations left (\<open>offset_in_ro_cnt\<close> less \<open>ro_entry_iter\<close>).
\<close>

fun static_ro_entries ::
  "bss_format \<Rightarrow> host_memory \<Rightarrow> u64 \<Rightarrow> u64 \<Rightarrow> u32 \<Rightarrow> nat \<Rightarrow> bss_walk \<Rightarrow> walk" where
  "static_ro_entries F mem load_lb load_ub sub_sec_iter 0 w = Continue w"
| "static_ro_entries F mem load_lb load_ub sub_sec_iter (Suc n) w =
     (if umd_is_valid_ptr load_lb load_ub (desc_load_addr w) 4 then
        let offset_in_ro = le_u32 (mem_bytes mem (desc_load_addr w) 4);
            param = \<lparr>param_offset_in_map = offset_in_ro,
                     param_load_type = PARAM_MAP_LOAD_TYPE_STATIC F,
                     param_buf_type = 0,
                     param_ref_section_iter = m_static_buf_idx w,
                     param_ref_sub_section_iter = sub_sec_iter,
                     param_sub_section_offset = sub_offset_in_section_exec (sub_desc_load w),
                     param_addr_mask = sub_addr_mask (sub_desc_load w)\<rparr>
        in static_ro_entries F mem load_lb load_ub sub_sec_iter n
             (w\<lparr>reads := reads w @ [(Reloc_offset, desc_load_addr w, 4)],
                m_bss_vec := add_param 0 param (m_bss_vec w),
                desc_load_addr := desc_load_addr w + 4\<rparr>)
      else Overflow (w\<lparr>refused := Some (Reloc_offset, desc_load_addr w, 4)\<rparr>))"

text \<open>
  The loop over the sub-sections of a static section, from \<open>sub_sec_iter\<close> on, with
  \<open>n\<close> iterations left.
\<close>

fun static_sub_sections ::
  "bss_format \<Rightarrow> host_memory \<Rightarrow> u64 \<Rightarrow> u64 \<Rightarrow> u32 \<Rightarrow> nat \<Rightarrow> bss_walk \<Rightarrow> walk" where
  "static_sub_sections F mem load_lb load_ub sub_sec_iter 0 w = Continue w"
| "static_sub_sections F mem load_lb load_ub sub_sec_iter (Suc n) w =
     (if umd_is_valid_ptr load_lb load_ub (desc_load_addr w) (sizeof_SubSectionDesc F) then
        let sub = load_SubSectionDesc F (mem_bytes mem (desc_load_addr w) (sizeof_SubSectionDesc F));
            w1 = w\<lparr>reads := reads w @ [(Sub_desc, desc_load_addr w, sizeof_SubSectionDesc F)],
                   sub_desc_load := sub,
                   section_ir := (section_ir w)\<lparr>sub_sections := sub_sections (section_ir w) @
                       [\<lparr>sub_offset_in_section = sub_offset_in_section_exec sub\<rparr>]\<rparr>,
                   desc_load_addr := desc_load_addr w + of_nat (sizeof_SubSectionDesc F)\<rparr>
        in case static_ro_entries F mem load_lb load_ub sub_sec_iter
                  (unat (sub_offset_in_ro_cnt sub)) w1 of
             Overflow w2 \<Rightarrow> Overflow w2
           | Continue w2 \<Rightarrow> static_sub_sections F mem load_lb load_ub (sub_sec_iter + 1) n w2
      else Overflow (w\<lparr>refused := Some (Sub_desc, desc_load_addr w, sizeof_SubSectionDesc F)\<rparr>))"

text \<open>
  What the body of the loop over the static sections does after the sub-sections:
  the section descriptor is completed (its type is that of the sub-section read last,
  also when that was in an earlier section) and entered into the graph object.
\<close>

definition add_static :: "bss_format \<Rightarrow> u32 \<Rightarrow> u32 \<Rightarrow> bss_walk \<Rightarrow> bss_walk" where
  "add_static F bss_idx static_sec_iter w =
     (let d = static_desc_load w;
          sec = (section_ir w)\<lparr>section_size := static_size d,
                  align_in_page := ALIGN_ADDR F (static_align_bytes d),
                  section_offset_in_file := static_offset_in_file d,
                  section_type := sub_type (sub_desc_load w),
                  slot_index := static_sec_iter,
                  load_src := get_bweight_base F bss_idx + ucast (static_offset_in_file d)\<rparr>;
          w1 = (if section_type sec = SECTION_TYPE_ZEROCPY_CONSTANT F then
                  let sec1 = sec\<lparr>relative_addr :=
                               aligned F (zerocpy_cst_start_addr w) (static_align_bytes d)\<rparr>
                  in w\<lparr>section_ir := sec1,
                       m_bss_vec := add_zerocpy_const_section bss_idx sec1 (m_bss_vec w),
                       zerocpy_cst_start_addr := relative_addr sec1 + section_size sec1\<rparr>
                else
                  let sec1 = sec\<lparr>relative_addr :=
                               aligned F (cst_start_addr w) (static_align_bytes d)\<rparr>
                  in w\<lparr>section_ir := sec1,
                       m_bss_vec := add_const_section bss_idx sec1 (m_bss_vec w),
                       cst_start_addr := relative_addr sec1 + section_size sec1\<rparr>)
      in w1\<lparr>m_bss_vec := add_static_section bss_idx (section_ir w1) (m_bss_vec w1),
            m_static_buf_idx := m_static_buf_idx w1 + 1\<rparr>)"

text \<open>The loop over the static sections, from \<open>static_sec_iter\<close> on.\<close>

fun static_sections_loop ::
  "bss_format \<Rightarrow> host_memory \<Rightarrow> u64 \<Rightarrow> u64 \<Rightarrow> u32 \<Rightarrow> u32 \<Rightarrow> nat \<Rightarrow> bss_walk \<Rightarrow> walk" where
  "static_sections_loop F mem load_lb load_ub bss_idx static_sec_iter 0 w = Continue w"
| "static_sections_loop F mem load_lb load_ub bss_idx static_sec_iter (Suc n) w =
     (let w0 = w\<lparr>section_ir := section_init F (section_ir w)\<rparr> in
      if umd_is_valid_ptr load_lb load_ub (desc_load_addr w0) (sizeof_BSSStaticSectionDesc F) then
        let d = load_BSSStaticSectionDesc F
                  (mem_bytes mem (desc_load_addr w0) (sizeof_BSSStaticSectionDesc F));
            w1 = w0\<lparr>reads := reads w0 @
                       [(Static_desc, desc_load_addr w0, sizeof_BSSStaticSectionDesc F)],
                    static_desc_load := d,
                    desc_load_addr := desc_load_addr w0 + of_nat (sizeof_BSSStaticSectionDesc F)\<rparr>
        in case static_sub_sections F mem load_lb load_ub 0 (unat (static_sub_section_cnt d)) w1 of
             Overflow w2 \<Rightarrow> Overflow w2
           | Continue w2 \<Rightarrow>
               static_sections_loop F mem load_lb load_ub bss_idx (static_sec_iter + 1) n
                 (add_static F bss_idx static_sec_iter w2)
      else Overflow (w0\<lparr>refused :=
                          Some (Static_desc, desc_load_addr w0, sizeof_BSSStaticSectionDesc F)\<rparr>))"

text \<open>The loop over the relocation offsets of a sub-section of a reuse section.\<close>

fun reuse_ro_entries ::
  "bss_format \<Rightarrow> host_memory \<Rightarrow> u64 \<Rightarrow> u64 \<Rightarrow> u32 \<Rightarrow> nat \<Rightarrow> bss_walk \<Rightarrow> walk" where
  "reuse_ro_entries F mem load_lb load_ub sub_sec_iter 0 w = Continue w"
| "reuse_ro_entries F mem load_lb load_ub sub_sec_iter (Suc n) w =
     (if umd_is_valid_ptr load_lb load_ub (desc_load_addr w) 4 then
        let offset_in_ro = le_u32 (mem_bytes mem (desc_load_addr w) 4);
            param = \<lparr>param_offset_in_map = offset_in_ro,
                     param_load_type = PARAM_MAP_LOAD_TYPE_REUSE F,
                     param_buf_type = sub_type (sub_desc_load w),
                     param_ref_section_iter = m_reuse_buf_idx w,
                     param_ref_sub_section_iter = sub_sec_iter,
                     param_sub_section_offset = sub_offset_in_section_exec (sub_desc_load w),
                     param_addr_mask = sub_addr_mask (sub_desc_load w)\<rparr>
        in reuse_ro_entries F mem load_lb load_ub sub_sec_iter n
             (w\<lparr>reads := reads w @ [(Reloc_offset, desc_load_addr w, 4)],
                m_bss_vec := add_param 0 param (m_bss_vec w),
                desc_load_addr := desc_load_addr w + 4\<rparr>)
      else Overflow (w\<lparr>refused := Some (Reloc_offset, desc_load_addr w, 4)\<rparr>))"

text \<open>
  The loop over the sub-sections of a reuse section. A sub-section of one of the nine
  I/O types is entered into the tensor lists of \<open>m_bss_vec[0]\<close> (\<open>io\<close> is the reference
  \<open>gobj.get_bss_io_ref(0)\<close>); the status of \<open>fill_io_tensor_desc_inner\<close> is not used.
\<close>

definition is_io_type :: "bss_format \<Rightarrow> u32 \<Rightarrow> bool" where
  "is_io_type F ty \<longleftrightarrow>
     ty = SECTION_TYPE_INPUT F \<or> ty = SECTION_TYPE_OUTPUT F \<or> ty = SECTION_TYPE_INTER_DUMP F \<or>
     ty = SECTION_TYPE_PROF_DATA F \<or> ty = SECTION_TYPE_PLOG_DATA F \<or>
     ty = SECTION_TYPE_LAYER_COUNTER F \<or> ty = SECTION_TYPE_ERROR_CODE F \<or>
     ty = SECTION_TYPE_SEGMMU F \<or> ty = SECTION_TYPE_OUT_TENSOR_SHAPE F"

fun reuse_sub_sections ::
  "bss_format \<Rightarrow> host_memory \<Rightarrow> u64 \<Rightarrow> u64 \<Rightarrow> u32 \<Rightarrow> nat \<Rightarrow> bss_walk \<Rightarrow> walk" where
  "reuse_sub_sections F mem load_lb load_ub sub_sec_iter 0 w = Continue w"
| "reuse_sub_sections F mem load_lb load_ub sub_sec_iter (Suc n) w =
     (if umd_is_valid_ptr load_lb load_ub (desc_load_addr w) (sizeof_SubSectionDesc F) then
        let sub = load_SubSectionDesc F (mem_bytes mem (desc_load_addr w) (sizeof_SubSectionDesc F));
            v = m_bss_vec w;
            v1 = (if is_io_type F (sub_type sub)
                  then v[0 := (v ! 0)\<lparr>bss_io := snd (fill_io_tensor_desc_inner F (m_reuse_buf_idx w)
                                                    sub_sec_iter sub (bss_io (v ! 0)))\<rparr>]
                  else v);
            w1 = w\<lparr>reads := reads w @ [(Sub_desc, desc_load_addr w, sizeof_SubSectionDesc F)],
                   sub_desc_load := sub,
                   m_bss_vec := v1,
                   section_ir := (section_ir w)\<lparr>sub_sections := sub_sections (section_ir w) @
                       [\<lparr>sub_offset_in_section = sub_offset_in_section_exec sub\<rparr>]\<rparr>,
                   desc_load_addr := desc_load_addr w + of_nat (sizeof_SubSectionDesc F)\<rparr>
        in case reuse_ro_entries F mem load_lb load_ub sub_sec_iter
                  (unat (sub_offset_in_ro_cnt sub)) w1 of
             Overflow w2 \<Rightarrow> Overflow w2
           | Continue w2 \<Rightarrow> reuse_sub_sections F mem load_lb load_ub (sub_sec_iter + 1) n w2
      else Overflow (w\<lparr>refused := Some (Sub_desc, desc_load_addr w, sizeof_SubSectionDesc F)\<rparr>))"

text \<open>
  What the body of the loop over the reuse sections does after the sub-sections
  (\<open>load_src = nullptr\<close> is the address 0).
\<close>

definition add_reuse :: "bss_format \<Rightarrow> u32 \<Rightarrow> bss_walk \<Rightarrow> bss_walk" where
  "add_reuse F bss_idx w =
     (let d = reuse_desc_load w;
          sec = (section_ir w)\<lparr>load_src := 0,
                  align_in_page := ALIGN_ADDR F (reuse_align_bytes d),
                  section_size := reuse_size d\<rparr>
      in w\<lparr>section_ir := sec,
           m_bss_vec := add_reuse_section bss_idx sec (m_bss_vec w),
           m_reuse_buf_idx := m_reuse_buf_idx w + 1\<rparr>)"

text \<open>The loop over the reuse sections, with \<open>n\<close> iterations left.\<close>

fun reuse_sections_loop ::
  "bss_format \<Rightarrow> host_memory \<Rightarrow> u64 \<Rightarrow> u64 \<Rightarrow> u32 \<Rightarrow> nat \<Rightarrow> bss_walk \<Rightarrow> walk" where
  "reuse_sections_loop F mem load_lb load_ub bss_idx 0 w = Continue w"
| "reuse_sections_loop F mem load_lb load_ub bss_idx (Suc n) w =
     (let w0 = w\<lparr>section_ir := section_init F (section_ir w)\<rparr> in
      if umd_is_valid_ptr load_lb load_ub (desc_load_addr w0) (sizeof_BSSReuseSectionDesc F) then
        let d = load_BSSReuseSectionDesc F
                  (mem_bytes mem (desc_load_addr w0) (sizeof_BSSReuseSectionDesc F));
            w1 = w0\<lparr>reads := reads w0 @
                       [(Reuse_desc, desc_load_addr w0, sizeof_BSSReuseSectionDesc F)],
                    reuse_desc_load := d,
                    desc_load_addr := desc_load_addr w0 + of_nat (sizeof_BSSReuseSectionDesc F)\<rparr>
        in case reuse_sub_sections F mem load_lb load_ub 0 (unat (reuse_sub_section_cnt d)) w1 of
             Overflow w2 \<Rightarrow> Overflow w2
           | Continue w2 \<Rightarrow>
               reuse_sections_loop F mem load_lb load_ub bss_idx n (add_reuse F bss_idx w2)
      else Overflow (w0\<lparr>refused :=
                          Some (Reuse_desc, desc_load_addr w0, sizeof_BSSReuseSectionDesc F)\<rparr>))"

text \<open>
  The locals of \<open>parse_bss_section\<close> at its start (\<open>= {0}\<close>), with the vector of the
  graph object and the counters of the parser as the call finds them.
\<close>

definition section_zero :: GraphSectionDesc where
  "section_zero = \<lparr>section_size = 0, align_in_page = 0, section_offset_in_file = 0,
     section_type = 0, slot_index = 0, load_src = 0, relative_addr = 0, sub_sections = []\<rparr>"

definition walk_start :: "BSS list \<Rightarrow> u32 \<Rightarrow> u32 \<Rightarrow> bss_walk" where
  "walk_start v static_idx reuse_idx =
     \<lparr>desc_load_addr = 0,
      static_desc_load = \<lparr>static_size = 0, static_align_bytes = 0, static_offset_in_file = 0,
                           static_sub_section_cnt = 0\<rparr>,
      reuse_desc_load = \<lparr>reuse_size = 0, reuse_align_bytes = 0, reuse_sub_section_cnt = 0\<rparr>,
      sub_desc_load = \<lparr>sub_type = 0, sub_size = 0, sub_id = 0, sub_offset_in_section_exec = 0,
                        sub_addr_mask = 0, sub_offset_in_ro_cnt = 0, sub_scale = 0,
                        sub_zero_point = 0, sub_data_type = 0\<rparr>,
      section_ir = section_zero,
      cst_start_addr = 0,
      zerocpy_cst_start_addr = 0,
      m_bss_vec = v,
      m_static_buf_idx = static_idx,
      m_reuse_buf_idx = reuse_idx,
      reads = [],
      refused = None\<rparr>"

text \<open>
  The upper bound that the walk checks against: the end of the header and of the
  \<open>size\<close> bytes after it, computed in \<open>unsigned long\<close>; with \<open>size = 0\<close> it is
  \<open>UINT64_MAX\<close>.
\<close>

definition bss_load_ub :: "bss_format \<Rightarrow> u64 \<Rightarrow> u32 \<Rightarrow> u64" where
  "bss_load_ub F bss sz =
     (if sz = 0 then UINT64_MAX else bss + of_nat (sizeof_BSSHeader F) + ucast sz)"

text \<open>
  \<open>parse_bss_section\<close>. The result is the status, \<open>*next\<close> when the function has set
  it, and the state of the walk at the return, of which \<open>m_bss_vec\<close> and the two
  counters are what the caller sees. The reference to \<open>m_bss_vec[0].io\<close> that the
  function takes first is outside the vector when the graph object has no BSS. The
  header is copied without a check.
\<close>

definition parse_bss_section ::
  "bss_format \<Rightarrow> host_memory \<Rightarrow> u64 \<Rightarrow> u32 \<Rightarrow> u32 \<Rightarrow> BSS list \<Rightarrow> u32 \<Rightarrow> u32
     \<Rightarrow> fault + (aipu_status \<times> u64 option \<times> bss_walk)" where
  "parse_bss_section F mem bss sz bss_idx gobj static_idx reuse_idx =
     (if gobj = [] then Inl Out_Of_Bounds
      else
        let load_lb = bss;
            load_ub = bss_load_ub F bss sz;
            bss_header = load_BSSHeader F (mem_bytes mem bss (sizeof_BSSHeader F));
            w = (walk_start gobj static_idx reuse_idx)\<lparr>reads := [(Header, bss, sizeof_BSSHeader F)]\<rparr>
        in if stack_size bss_header = 0 \<or> stack_align_bytes bss_header = 0 \<or>
              reuse_section_desc_cnt bss_header = 0
             then Inr (AIPU_STATUS_ERROR_INVALID_GBIN, None, w)
           else
             let w1 = w\<lparr>m_bss_vec := set_stack bss_idx (stack_size bss_header)
                                        (ALIGN_ADDR F (stack_align_bytes bss_header)) (m_bss_vec w),
                        desc_load_addr := bss + of_nat (sizeof_BSSHeader F)\<rparr>
             in case static_sections_loop F mem load_lb load_ub bss_idx 0
                       (unat (static_section_desc_cnt bss_header)) w1 of
                  Overflow w2 \<Rightarrow> Inr (AIPU_STATUS_ERROR_INVALID_GBIN, None, w2)
                | Continue w2 \<Rightarrow>
                    let w3 = w2\<lparr>m_bss_vec := set_const_size bss_idx (cst_start_addr w2)
                                                (zerocpy_cst_start_addr w2) (m_bss_vec w2)\<rparr>
                    in case reuse_sections_loop F mem load_lb load_ub bss_idx
                              (unat (reuse_section_desc_cnt bss_header)) w3 of
                         Overflow w4 \<Rightarrow> Inr (AIPU_STATUS_ERROR_INVALID_GBIN, None, w4)
                       | Continue w4 \<Rightarrow> Inr (AIPU_STATUS_SUCCESS, Some (desc_load_addr w4), w4))"

text \<open>
  The reads of a list follow one another from the address \<open>p\<close> without a gap, and
  the address after the last of them.
\<close>

fun reads_contiguous :: "u64 \<Rightarrow> (bss_read \<times> u64 \<times> nat) list \<Rightarrow> bool" where
  "reads_contiguous p [] = True"
| "reads_contiguous p ((k, a, n) # rs) = (a = p \<and> reads_contiguous (p + of_nat n) rs)"

fun reads_end :: "u64 \<Rightarrow> (bss_read \<times> u64 \<times> nat) list \<Rightarrow> u64" where
  "reads_end p [] = p"
| "reads_end p ((k, a, n) # rs) = reads_end (p + of_nat n) rs"

text \<open>
  A format for the examples: every member is a 32-bit word, the lowest byte first, in
  the order in which the records above list the members; a header of 16 bytes, a static
  section descriptor of 16 bytes, a reuse section descriptor of 12 bytes, a sub-section
  descriptor of 36 bytes.
\<close>

definition le_word_at :: "u8 list \<Rightarrow> nat \<Rightarrow> u32" where
  "le_word_at bs i = le_u32 (drop (4 * i) bs)"

definition example_bss_format :: bss_format where
  "example_bss_format =
     \<lparr>sizeof_BSSHeader = 16,
      sizeof_BSSStaticSectionDesc = 16,
      sizeof_BSSReuseSectionDesc = 12,
      sizeof_SubSectionDesc = 36,
      load_BSSHeader = (\<lambda>bs. \<lparr>stack_size = le_word_at bs 0, stack_align_bytes = le_word_at bs 1,
                               static_section_desc_cnt = le_word_at bs 2,
                               reuse_section_desc_cnt = le_word_at bs 3\<rparr>),
      load_BSSStaticSectionDesc =
        (\<lambda>bs. \<lparr>static_size = le_word_at bs 0, static_align_bytes = le_word_at bs 1,
                static_offset_in_file = le_word_at bs 2, static_sub_section_cnt = le_word_at bs 3\<rparr>),
      load_BSSReuseSectionDesc =
        (\<lambda>bs. \<lparr>reuse_size = le_word_at bs 0, reuse_align_bytes = le_word_at bs 1,
                reuse_sub_section_cnt = le_word_at bs 2\<rparr>),
      load_SubSectionDesc =
        (\<lambda>bs. \<lparr>sub_type = le_word_at bs 0, sub_size = le_word_at bs 1, sub_id = le_word_at bs 2,
                sub_offset_in_section_exec = le_word_at bs 3, sub_addr_mask = le_word_at bs 4,
                sub_offset_in_ro_cnt = le_word_at bs 5, sub_scale = le_word_at bs 6,
                sub_zero_point = le_word_at bs 7, sub_data_type = le_word_at bs 8\<rparr>),
      ALIGN_ADDR = (\<lambda>a. drop_bit 12 (a + 4095)),
      aligned = (\<lambda>a al. if al = 0 then a else ((a + al - 1) div al) * al),
      SECTION_TYPE_INPUT = 1,
      SECTION_TYPE_OUTPUT = 2,
      SECTION_TYPE_INTER_DUMP = 3,
      SECTION_TYPE_PROF_DATA = 4,
      SECTION_TYPE_PLOG_DATA = 5,
      SECTION_TYPE_LAYER_COUNTER = 6,
      SECTION_TYPE_ERROR_CODE = 7,
      SECTION_TYPE_SEGMMU = 8,
      SECTION_TYPE_OUT_TENSOR_SHAPE = 9,
      SECTION_TYPE_ZEROCPY_CONSTANT = 10,
      PARAM_MAP_LOAD_TYPE_STATIC = 0,
      PARAM_MAP_LOAD_TYPE_REUSE = 1,
      section_init = (\<lambda>s. section_zero),
      get_bweight_base = (\<lambda>i. 0)\<rparr>"

text \<open>
  A binary for the examples, at the address \<open>0x1000\<close>: a header (stack size 4096,
  alignment 4096, no static section, one reuse section) and one reuse section
  descriptor (size 64, alignment 16) with one sub-section, an input of 64 bytes with
  one relocation offset (\<open>0x20\<close>). These are 16 + 12 + 36 + 4 = 68 bytes; every byte
  outside them is \<open>0xFF\<close>.
\<close>

definition example_bss_bytes :: "u8 list" where
  "example_bss_bytes =
     [0, 0x10, 0, 0,  0, 0x10, 0, 0,  0, 0, 0, 0,  1, 0, 0, 0,
      0x40, 0, 0, 0,  0x10, 0, 0, 0,  1, 0, 0, 0,
      1, 0, 0, 0,  0x40, 0, 0, 0,  0, 0, 0, 0,  0, 0, 0, 0,  0, 0, 0, 0,  1, 0, 0, 0,
      0, 0, 0, 0,  0, 0, 0, 0,  0, 0, 0, 0,
      0x20, 0, 0, 0]"

definition example_bss_memory :: host_memory where
  "example_bss_memory a =
     (if a - 0x1000 < 68 then example_bss_bytes ! unat (a - 0x1000) else 0xFF)"

definition example_bss_vec :: "BSS list" where
  "example_bss_vec =
     [\<lparr>bss_id = 0, bss_stack_size = 0, stack_align_in_page = 0, param_map = [],
       const_sections = [], zerocpy_const_sections = [], const_info = [],
       static_sections = [], reuse_sections = [],
       bss_io = \<lparr>inputs = [], outputs = [], inter_dumps = [], profiler = [], printf = [],
              layer_counter = [], err_code = [], segmmus = [], outputs_shape = []\<rparr>\<rparr>]"

text \<open>
  The test that \<open>parse_bss_section\<close> makes on the header.
\<close>

definition bss_header_invalid :: "bss_format \<Rightarrow> host_memory \<Rightarrow> u64 \<Rightarrow> bool" where
  "bss_header_invalid F mem bss \<longleftrightarrow>
     (let bss_header = load_BSSHeader F (mem_bytes mem bss (sizeof_BSSHeader F))
      in stack_size bss_header = 0 \<or> stack_align_bytes bss_header = 0 \<or>
         reuse_section_desc_cnt bss_header = 0)"

text \<open>
  What holds of the state of the walk between two reads: the first read is that of the
  header, of \<open>hdr\<close> bytes; the reads made so far follow one another from the start of
  the binary, \<open>desc_load_addr\<close> is the address after the last of them, every read
  after the header has passed the check against the two bounds, and the walk has not
  been left. And what holds of it when the walk has been left through
  \<open>goto overflow\<close>: the read that was refused is the one at the address after the last
  read made, and it does not pass the check.
\<close>

definition walk_inv :: "u64 \<Rightarrow> nat \<Rightarrow> u64 \<Rightarrow> u64 \<Rightarrow> bss_walk \<Rightarrow> bool" where
  "walk_inv bss hdr load_lb load_ub w \<longleftrightarrow>
     (\<exists>rs. reads w = (Header, bss, hdr) # rs \<and>
           (\<forall>k a n. (k, a, n) \<in> set rs \<longrightarrow> k \<noteq> Header \<and> umd_is_valid_ptr load_lb load_ub a n)) \<and>
     reads_contiguous bss (reads w) \<and>
     desc_load_addr w = reads_end bss (reads w) \<and>
     refused w = None"

definition walk_stop :: "u64 \<Rightarrow> nat \<Rightarrow> u64 \<Rightarrow> u64 \<Rightarrow> bss_walk \<Rightarrow> bool" where
  "walk_stop bss hdr load_lb load_ub w \<longleftrightarrow>
     (\<exists>rs. reads w = (Header, bss, hdr) # rs \<and>
           (\<forall>k a n. (k, a, n) \<in> set rs \<longrightarrow> k \<noteq> Header \<and> umd_is_valid_ptr load_lb load_ub a n)) \<and>
     reads_contiguous bss (reads w) \<and>
     (\<exists>k n. k \<noteq> Header \<and> refused w = Some (k, reads_end bss (reads w), n) \<and>
            \<not> umd_is_valid_ptr load_lb load_ub (reads_end bss (reads w)) n)"

definition walk_post :: "u64 \<Rightarrow> nat \<Rightarrow> u64 \<Rightarrow> u64 \<Rightarrow> walk \<Rightarrow> bool" where
  "walk_post bss hdr load_lb load_ub r =
     (case r of Continue w \<Rightarrow> walk_inv bss hdr load_lb load_ub w
              | Overflow w \<Rightarrow> walk_stop bss hdr load_lb load_ub w)"


section \<open>SegMMU setup (job_v3_1.cpp, graph_v3x.h)\<close>

definition SEGMMU_MEM_CTRL_EN :: u32 where
  "SEGMMU_MEM_CTRL_EN = push_bit 0 1"

definition SEGMMU_REMAP_SHARE_EN :: u32 where
  "SEGMMU_REMAP_SHARE_EN = push_bit 5 1"

text \<open>
  \<open>SegMMUConfig\<close>: \<open>seg[s].control[c]\<close> is \<open>seg ! s ! c\<close> (four segments of two
  control words); the four reserved words are kept as a list.
\<close>

record SegMMUConfig =
  seg :: "u32 list list"
  SegMMU_ctl :: u32
  SegMMU_remap :: u32
  reserve :: "u32 list"

text \<open>The two assignments through the pointer \<open>segmmu\<close> in the first loop.\<close>

definition segmmu_enable :: "SegMMUConfig \<Rightarrow> SegMMUConfig" where
  "segmmu_enable c =
     c\<lparr>SegMMU_ctl := SEGMMU_REMAP_SHARE_EN OR SEGMMU_MEM_CTRL_EN, SegMMU_remap := 0\<rparr>"

text \<open>
  The first loop of \<open>setup_segmmu\<close>. \<open>cfgs\<close> are the configurations of the graph's
  SegMMU section (\<open>m_bsegmmu.va\<close> points to the first), \<open>p\<close> is the position of the
  pointer \<open>segmmu\<close>, the third argument the number of cores that remain. The pointer is
  advanced at the top of the loop body when \<open>m_segmmu_num\<close> is not 1, the configuration
  it points to is written in place and copied to the end of \<open>m_segmmu_sec\<close>. A pointer
  past the section is \<open>Out_Of_Bounds\<close>.
\<close>

fun setup_segmmu_cores ::
  "u32 \<Rightarrow> nat \<Rightarrow> nat \<Rightarrow> SegMMUConfig list \<Rightarrow> SegMMUConfig list
     \<Rightarrow> fault + SegMMUConfig list \<times> SegMMUConfig list" where
  "setup_segmmu_cores num p 0 cfgs sec = Inr (cfgs, sec)"
| "setup_segmmu_cores num p (Suc n) cfgs sec =
     (let p = (if num \<noteq> 1 then p + 1 else p) in
      if length cfgs \<le> p then Inl Out_Of_Bounds
      else
        let c = segmmu_enable (cfgs ! p)
        in setup_segmmu_cores num p n (cfgs[p := c]) (sec @ [c]))"

text \<open>The bit fields of \<open>union segmmu_id\<close>.\<close>

definition segmmu_ctrl_idx :: "u32 \<Rightarrow> nat" where
  "segmmu_ctrl_idx i = unat (i AND 0xFF)"

definition segmmu_idx :: "u32 \<Rightarrow> nat" where
  "segmmu_idx i = unat (drop_bit 8 i AND 0xFF)"

definition core_id_mask :: "u32 \<Rightarrow> u32" where
  "core_id_mask i = drop_bit 16 i AND 0xFFFF"

text \<open>
  The write of one control word: \<open>ctrl\<close> is read from
  \<open>seg[segmmu_idx].control[segmmu_ctrl_idx]\<close>, keeps its low 14 bits, takes the other
  bits from the physical address of the buffer (cut to 32 bits by the assignment) and
  is stored back.
\<close>

definition segmmu_write :: "JobIOBuffer \<Rightarrow> SegMMUConfig \<Rightarrow> SegMMUConfig" where
  "segmmu_write iobuf cfg =
     (let s = segmmu_idx (io_id iobuf); c = segmmu_ctrl_idx (io_id iobuf);
          ctrl = seg cfg ! s ! c;
          ctrl = ctrl AND 0x3fff;
          ctrl = ctrl OR ucast (io_pa iobuf AND NOT 0x3fff)
      in cfg\<lparr>seg := (seg cfg)[s := (seg cfg ! s)[c := ctrl]]\<rparr>)"

text \<open>
  The loop over the cores for one I/O buffer: \<open>core_idx\<close> is the loop variable, the
  third argument the number of cores that remain. The result is \<open>m_segmmu_sec\<close>
  afterwards and whether the function has left through \<open>goto out\<close>.
\<close>

fun setup_segmmu_iobuf ::
  "JobIOBuffer \<Rightarrow> nat \<Rightarrow> nat \<Rightarrow> SegMMUConfig list \<Rightarrow> fault + SegMMUConfig list \<times> bool" where
  "setup_segmmu_iobuf iobuf core_idx 0 sec = Inr (sec, False)"
| "setup_segmmu_iobuf iobuf core_idx (Suc n) sec =
     (if core_id_mask (io_id iobuf) AND push_bit core_idx 1 = 0
        then setup_segmmu_iobuf iobuf (Suc core_idx) n sec
      else if segmmu_idx (io_id iobuf) < 4 then
        (if segmmu_ctrl_idx (io_id iobuf) \<le> 1 then
           (if length sec \<le> core_idx then Inl Out_Of_Bounds
            else setup_segmmu_iobuf iobuf (Suc core_idx) n
                   (sec[core_idx := segmmu_write iobuf (sec ! core_idx)]))
         else Inr (sec, True))
      else Inr (sec, True))"

text \<open>The loop over \<open>m_segmmus\<close>; an invalid core mask leaves through \<open>goto out\<close>.\<close>

fun setup_segmmu_iobufs ::
  "nat \<Rightarrow> JobIOBuffer list \<Rightarrow> SegMMUConfig list \<Rightarrow> fault + SegMMUConfig list" where
  "setup_segmmu_iobufs core_cnt [] sec = Inr sec"
| "setup_segmmu_iobufs core_cnt (iobuf # rest) sec =
     (if core_id_mask (io_id iobuf) AND (push_bit core_cnt 1 - 1) = 0 then Inr sec
      else
        case setup_segmmu_iobuf iobuf 0 core_cnt sec of
          Inl e \<Rightarrow> Inl e
        | Inr (sec', out) \<Rightarrow> if out then Inr sec' else setup_segmmu_iobufs core_cnt rest sec')"

text \<open>
  \<open>setup_segmmu\<close>: from \<open>m_segmmu_num\<close>, \<open>m_core_cnt\<close>, the configurations of the
  graph, \<open>m_segmmu_sec\<close> and \<open>m_segmmus\<close> to the status (always success), the
  configurations of the graph and \<open>m_segmmu_sec\<close> afterwards.
\<close>

definition setup_segmmu ::
  "u32 \<Rightarrow> nat \<Rightarrow> SegMMUConfig list \<Rightarrow> SegMMUConfig list \<Rightarrow> JobIOBuffer list
     \<Rightarrow> fault + aipu_status \<times> SegMMUConfig list \<times> SegMMUConfig list" where
  "setup_segmmu m_segmmu_num core_cnt cfgs m_segmmu_sec m_segmmus =
     (if m_segmmu_num = 0 then Inr (AIPU_STATUS_SUCCESS, cfgs, m_segmmu_sec)
      else
        case setup_segmmu_cores m_segmmu_num 0 core_cnt cfgs m_segmmu_sec of
          Inl e \<Rightarrow> Inl e
        | Inr (cfgs', sec) \<Rightarrow>
            (case setup_segmmu_iobufs core_cnt m_segmmus sec of
               Inl e \<Rightarrow> Inl e
             | Inr sec' \<Rightarrow> Inr (AIPU_STATUS_SUCCESS, cfgs', sec')))"

text \<open>
  A configuration for the examples: every control word of it is \<open>w\<close>, the control and
  remap words are \<open>c\<close> and \<open>r\<close>.
\<close>

definition example_segmmu :: "u32 \<Rightarrow> u32 \<Rightarrow> u32 \<Rightarrow> SegMMUConfig" where
  "example_segmmu w c r =
     \<lparr>seg = [[w, w], [w, w], [w, w], [w, w]], SegMMU_ctl = c, SegMMU_remap = r,
      reserve = [0, 0, 0, 0]\<rparr>"

text \<open>An I/O buffer with a SegMMU tag, for the examples.\<close>

definition example_iobuf :: "u32 \<Rightarrow> u64 \<Rightarrow> JobIOBuffer" where
  "example_iobuf i pa = \<lparr>io_id = i, io_size = 0, io_type = AIPU_DATA_TYPE_NONE, io_pa = pa\<rparr>"


section \<open>Binary reader: graph version and top header (parser_base.cpp)\<close>




text \<open>
  \<open>gbin.read(buf, n)\<close> on a stream that holds the bytes \<open>gbin\<close> from the read position
  on, into a zero-initialised buffer of \<open>n\<close> bytes: the buffer afterwards and
  \<open>gbin.gcount()\<close>.
\<close>

definition istream_read :: "u8 list \<Rightarrow> nat \<Rightarrow> u8 list \<times> nat" where
  "istream_read gbin n = (take n gbin @ replicate (n - length gbin) 0, min n (length gbin))"









section \<open>Proofs: dependency encoding of the TCBs\<close>


lemma mod_chain: "(a mod 4294967296) mod 65536 mod 32768 = a mod (32768::nat)"
proof -
  have 1: "(32768::nat) dvd 65536" by simp
  have 2: "(65536::nat) dvd 4294967296" by simp
  show ?thesis by (simp add: mod_mod_cancel[OF 1] mod_mod_cancel[OF 2])
qed

lemma dep_entry_unat:
  fixes p :: u32 and s :: u16
  shows "unat (EN_GROUP_DEPEND OR ((ucast (p + ucast s) :: u16) AND 0x7FFF)) =
         2 ^ 15 + (unat p + unat s) mod 2 ^ 15"
proof -
  let ?d = "(ucast (p + ucast s) :: u16) AND 0x7FFF"
  have m: "(0x7FFF :: u16) = mask 15" by (simp add: mask_eq_exp_minus_1)
  have s: "unat s mod 4294967296 = unat s"
    using unsigned_less[of s, where 'a=nat] by simp
  have d: "unat ?d = (unat p + unat s) mod 2 ^ 15"
    apply (simp only: m flip: take_bit_eq_mask)
    apply (simp add: unsigned_take_bit_eq unsigned_ucast_eq take_bit_eq_mod unat_word_ariths s mod_chain)
    done
  have e: "EN_GROUP_DEPEND = (2 ^ 15 :: u16)" by (simp add: EN_GROUP_DEPEND_def)
  have nb: "\<not> bit ?d 15" unfolding m by (simp add: bit_and_iff bit_mask_iff)
  have "?d AND 2 ^ 15 = 0"
    using nb and_exp_eq_0_iff_not_bit[of ?d 15] by (simp add: possible_bit_word)
  then have z: "EN_GROUP_DEPEND AND ?d = 0"
    unfolding EN_GROUP_DEPEND_def by (simp add: and.commute)
  have "EN_GROUP_DEPEND OR ?d = EN_GROUP_DEPEND + ?d"
    by (rule disjunctive_add_eq_or[OF z, symmetric])
  moreover have "unat (EN_GROUP_DEPEND + ?d) = unat EN_GROUP_DEPEND + unat ?d"
    by (rule unat_add_lem[THEN iffD1]) (simp add: d e)
  ultimately show ?thesis by (simp add: d e)
qed

lemma config_tcb_deps_loop_ok:
  assumes "i + n \<le> length pre" "\<forall>k. i \<le> k \<and> k < i + n \<longrightarrow> pre ! k \<le> 0x7fff"
  shows "\<exists>gd. config_tcb_deps_loop start pre i n tcb = Inr (tcb\<lparr>group_deps := gd\<rparr>) \<and>
           length gd = length (group_deps tcb) \<and>
           (\<forall>k<length gd. gd ! k =
              (if i \<le> k \<and> k < i + n
               then EN_GROUP_DEPEND OR ((ucast (pre ! k + ucast start) :: u16) AND 0x7FFF)
               else group_deps tcb ! k))"
  using assms
proof (induction n arbitrary: i tcb)
  case 0
  have "tcb = tcb\<lparr>group_deps := group_deps tcb\<rparr>" by simp
  then show ?case by (intro exI[of _ "group_deps tcb"]) auto
next
  case (Suc n)
  let ?e = "EN_GROUP_DEPEND OR ((ucast (pre ! i + ucast start) :: u16) AND 0x7FFF)"
  let ?tcb = "tcb\<lparr>group_deps := (group_deps tcb)[i := ?e]\<rparr>"
  have i: "i < length pre" and ok: "pre ! i \<le> 0x7fff" using Suc.prems by auto
  have step: "config_tcb_deps_loop start pre i (Suc n) tcb = config_tcb_deps_loop start pre (Suc i) n ?tcb"
    using i ok by (simp add: Let_def not_less[symmetric] del: not_less)
  from Suc.IH[of "Suc i" ?tcb] Suc.prems
  obtain gd where gd: "config_tcb_deps_loop start pre (Suc i) n ?tcb = Inr (?tcb\<lparr>group_deps := gd\<rparr>)"
    "length gd = length (group_deps ?tcb)"
    "\<forall>k<length gd. gd ! k =
              (if Suc i \<le> k \<and> k < Suc i + n
               then EN_GROUP_DEPEND OR ((ucast (pre ! k + ucast start) :: u16) AND 0x7FFF)
               else group_deps ?tcb ! k)"
    by auto
  show ?case
  proof (intro exI[of _ gd] conjI allI impI)
    show "config_tcb_deps_loop start pre i (Suc n) tcb = Inr (tcb\<lparr>group_deps := gd\<rparr>)"
      using step gd(1) by simp
    show "length gd = length (group_deps tcb)" using gd(2) by simp
    fix k assume k: "k < length gd"
    show "gd ! k = (if i \<le> k \<and> k < i + Suc n
               then EN_GROUP_DEPEND OR ((ucast (pre ! k + ucast start) :: u16) AND 0x7FFF)
               else group_deps tcb ! k)"
    proof (cases "k = i")
      case True
      then show ?thesis using gd(3) k gd(2) by simp
    next
      case False
      then show ?thesis using gd(3) k by auto
    qed
  qed
qed

lemma config_tcb_deps_loop_bad:
  assumes "i + n \<le> length pre" "\<exists>k. i \<le> k \<and> k < i + n \<and> pre ! k > 0x7fff"
  shows "config_tcb_deps_loop start pre i n tcb = Inl (Status AIPU_STATUS_ERROR_INVALID_GBIN)"
  using assms
proof (induction n arbitrary: i tcb)
  case 0
  then show ?case by auto
next
  case (Suc n)
  have i: "i < length pre" using Suc.prems by auto
  show ?case
  proof (cases "pre ! i > 0x7fff")
    case True
    then show ?thesis using i by simp
  next
    case False
    with Suc.prems(2) have "\<exists>k. Suc i \<le> k \<and> k < Suc i + n \<and> pre ! k > 0x7fff"
      by (metis Suc_leI add_Suc_shift le_neq_implies_less add_Suc)
    from Suc.IH[OF _ this] Suc.prems(1) False i show ?thesis by (simp add: Let_def)
  qed
qed

lemma dep_type_or:
  "f AND 0x30 = 0 \<Longrightarrow> TCB_FLAG_DEP_TYPE (f OR TCB_FLAG_DEP_TYPE_NONE) = TCB_FLAG_DEP_TYPE_NONE"
  "f AND 0x30 = 0 \<Longrightarrow> TCB_FLAG_DEP_TYPE (f OR TCB_FLAG_DEP_TYPE_GROUP) = TCB_FLAG_DEP_TYPE_GROUP"
  "f AND 0x30 = 0 \<Longrightarrow> TCB_FLAG_DEP_TYPE (f OR TCB_FLAG_DEP_TYPE_PRE_ALL) = TCB_FLAG_DEP_TYPE_PRE_ALL"
  by (simp_all add: TCB_FLAG_DEP_TYPE_def TCB_FLAG_DEP_TYPE_NONE_def TCB_FLAG_DEP_TYPE_GROUP_def
      TCB_FLAG_DEP_TYPE_PRE_ALL_def bit.conj_disj_distrib2)


lemma ucast_add_down:
  fixes p :: u32 and s :: u16
  shows "(ucast (p + ucast s) :: u16) = ucast p + s"
proof -
  have 2: "(65536::nat) dvd 4294967296" by simp
  have s: "unat s mod 4294967296 = unat s"
    using unsigned_less[of s, where 'a=nat] by simp
  have "unat (ucast (p + ucast s) :: u16) = (unat p + unat s) mod 65536"
    by (simp add: unsigned_ucast_eq take_bit_eq_mod unat_word_ariths s mod_mod_cancel[OF 2])
  moreover have "unat (ucast p + s :: u16) = (unat p + unat s) mod 65536"
    by (simp add: unsigned_ucast_eq take_bit_eq_mod unat_word_ariths mod_add_left_eq)
  ultimately show ?thesis by (simp add: word_unat_eq_iff)
qed

lemma config_tcb_deps_none:
  assumes "get_subgraph graph sg = Inr s" "precursor_cnt s = SUBG_DEPEND_NONE"
  shows "config_tcb_deps job graph tcb sg = Inr (tcb\<lparr>flag := flag tcb OR TCB_FLAG_DEP_TYPE_NONE\<rparr>)"
  using assms by (simp add: config_tcb_deps_def)

lemma config_tcb_deps_preall:
  assumes "get_subgraph graph sg = Inr s" "precursor_cnt s = SUBG_DEPEND_PREALL"
  shows "config_tcb_deps job graph tcb sg = Inr (tcb\<lparr>flag := flag tcb OR TCB_FLAG_DEP_TYPE_PRE_ALL\<rparr>)"
  using assms by (simp add: config_tcb_deps_def SUBG_DEPEND_PREALL_def SUBG_DEPEND_NONE_def)

lemma config_tcb_deps_other:
  assumes "get_subgraph graph sg = Inr s" "precursor_cnt s \<noteq> SUBG_DEPEND_NONE"
    "precursor_cnt s \<noteq> SUBG_DEPEND_PREALL" "\<not> (1 \<le> precursor_cnt s \<and> precursor_cnt s \<le> 4)"
  shows "config_tcb_deps job graph tcb sg = Inl (Status AIPU_STATUS_ERROR_INVALID_GBIN)"
  using assms by (auto simp add: config_tcb_deps_def)

lemma config_tcb_deps_group_ok:
  assumes "get_subgraph graph sg = Inr s" "1 \<le> precursor_cnt s" "precursor_cnt s \<le> 4"
    "nat (precursor_cnt s) \<le> length (precursors s)"
    "\<forall>k<nat (precursor_cnt s). precursors s ! k \<le> 0x7FFF"
  shows "\<exists>gd. config_tcb_deps job graph tcb sg =
            Inr (tcb\<lparr>flag := flag tcb OR TCB_FLAG_DEP_TYPE_GROUP, group_deps := gd\<rparr>) \<and>
          length gd = length (group_deps tcb) \<and>
          (\<forall>k<length gd. gd ! k =
             (if k < nat (precursor_cnt s)
              then EN_GROUP_DEPEND OR ((ucast (precursors s ! k) + m_start_group_id job) AND 0x7FFF)
              else group_deps tcb ! k))"
proof -
  let ?tcb = "tcb\<lparr>flag := flag tcb OR TCB_FLAG_DEP_TYPE_GROUP\<rparr>"
  have c: "config_tcb_deps job graph tcb sg =
      config_tcb_deps_loop (m_start_group_id job) (precursors s) 0 (nat (precursor_cnt s)) ?tcb"
    using assms(1-3) by (simp add: config_tcb_deps_def SUBG_DEPEND_NONE_def)
  from config_tcb_deps_loop_ok[of 0 "nat (precursor_cnt s)" "precursors s" "m_start_group_id job" ?tcb]
    assms(4,5)
  obtain gd where gd:
    "config_tcb_deps_loop (m_start_group_id job) (precursors s) 0 (nat (precursor_cnt s)) ?tcb =
       Inr (?tcb\<lparr>group_deps := gd\<rparr>)"
    "length gd = length (group_deps ?tcb)"
    "\<forall>k<length gd. gd ! k =
       (if 0 \<le> k \<and> k < 0 + nat (precursor_cnt s)
        then EN_GROUP_DEPEND OR ((ucast (precursors s ! k + ucast (m_start_group_id job)) :: u16) AND 0x7FFF)
        else group_deps ?tcb ! k)"
    by auto
  show ?thesis
    using c gd by (intro exI[of _ gd]) (simp add: ucast_add_down)
qed

lemma config_tcb_deps_group_bad:
  assumes "get_subgraph graph sg = Inr s" "1 \<le> precursor_cnt s" "precursor_cnt s \<le> 4"
    "nat (precursor_cnt s) \<le> length (precursors s)"
    "\<exists>k<nat (precursor_cnt s). precursors s ! k > 0x7FFF"
  shows "config_tcb_deps job graph tcb sg = Inl (Status AIPU_STATUS_ERROR_INVALID_GBIN)"
proof -
  let ?tcb = "tcb\<lparr>flag := flag tcb OR TCB_FLAG_DEP_TYPE_GROUP\<rparr>"
  have c: "config_tcb_deps job graph tcb sg =
      config_tcb_deps_loop (m_start_group_id job) (precursors s) 0 (nat (precursor_cnt s)) ?tcb"
    using assms(1-3) by (simp add: config_tcb_deps_def SUBG_DEPEND_NONE_def)
  show ?thesis
    unfolding c
    by (rule config_tcb_deps_loop_bad) (use assms(4,5) in auto)
qed


lemma group_init_tcb_shape:
  assumes "i < length (m_subgraphs graph)" "unat (sg_id (m_subgraphs graph ! i)) = i"
  shows "\<exists>tcb0. flag tcb0 AND 0x30 = 0 \<and> group_deps tcb0 = [0, 0, 0, 0] \<and>
           group_init_tcb job graph i = config_tcb_deps job graph tcb0 i"
proof -
  let ?t = "tcb_zero\<lparr>flag := TCB_FLAG_TASK_TYPE_GROUP_INIT OR TCB_FLAG_GRID_INIT,
               gridid := m_grid_id job, groupid := m_group_id_idx job\<rparr>"
  have "flag ?t AND 0x30 = 0"
    by (simp add: TCB_FLAG_TASK_TYPE_GROUP_INIT_def TCB_FLAG_GRID_INIT_def)
  moreover have "group_deps ?t = [0, 0, 0, 0]" by (simp add: tcb_zero_def)
  moreover have "group_init_tcb job graph i = config_tcb_deps job graph ?t i"
    using assms by (simp add: group_init_tcb_def get_subgraph_def)
  ultimately show ?thesis by (intro exI[of _ ?t] conjI)
qed

lemma task_tcb0_shape:
  assumes "i < length (m_subgraphs graph)" "i < m_sg_cnt job" "0 < m_task_per_sg job"
  shows "\<exists>tcb0 g. flag tcb0 AND 0x30 = 0 \<and> group_deps tcb0 = [0, 0, 0, 0] \<and>
           (\<forall>t. flag (g t) = flag t \<and> group_deps (g t) = group_deps t) \<and>
           task_tcb job graph i 0 =
             (case config_tcb_deps job graph tcb0 i of Inl e \<Rightarrow> Inl e | Inr t \<Rightarrow> Inr (g t))"
proof -
  let ?s = "m_subgraphs graph ! i"
  let ?a = "tcb_zero\<lparr>interrupt_en := EN_INTERRUPT_TEC_ALL, flag := TCB_FLAG_TASK_TYPE_TASK\<rparr>"
  let ?b = "if 0 = u32_pred (m_task_per_sg job)
            then ?a\<lparr>flag := flag ?a OR TCB_FLAG_END_TYPE_GROUP_END\<rparr> else ?a"
  let ?c = "if i = u32_pred (m_sg_cnt job) \<and> 0 = u32_pred (m_task_per_sg job)
            then ?b\<lparr>flag := flag ?b OR TCB_FLAG_END_TYPE_GRID_END\<rparr> else ?b"
  let ?g = "\<lambda>tcb. let tcb = tcb\<lparr>groupid := m_group_id_idx job, gridid := m_grid_id job,
                                 taskid := of_nat 0, ica_warmup_len := ucast (warmup_len ?s),
                                 group_dim_x := of_nat (m_task_per_sg job)\<rparr>
                    in (if printfifo_size ?s > 0
                            then tcb\<lparr>interrupt_en := interrupt_en tcb OR EN_INTERRUPT_TEC_SIGNAL\<rparr>
                            else tcb)"
  have f: "flag ?c AND 0x30 = 0"
    by (simp add: TCB_FLAG_TASK_TYPE_TASK_def TCB_FLAG_END_TYPE_GROUP_END_def
        TCB_FLAG_END_TYPE_GRID_END_def)
  have d: "group_deps ?c = [0, 0, 0, 0]" by (simp add: tcb_zero_def)
  have g: "\<forall>t. flag (?g t) = flag t \<and> group_deps (?g t) = group_deps t"
    by (simp add: Let_def)
  have r: "task_tcb job graph i 0 =
      (case config_tcb_deps job graph ?c i of Inl e \<Rightarrow> Inl e | Inr t \<Rightarrow> Inr (?g t))"
    using assms by (simp add: task_tcb_def get_subgraph_def Let_def split: sum.splits)
  show ?thesis
    by (rule exI[of _ ?c], rule exI[of _ ?g]) (intro conjI f d g r)
qed

lemma task_tcb_no_deps:
  assumes "i < length (m_subgraphs graph)" "i < m_sg_cnt job" "0 < task" "task < m_task_per_sg job"
  shows "\<exists>t. task_tcb job graph i task = Inr t \<and>
           TCB_FLAG_DEP_TYPE (flag t) = TCB_FLAG_DEP_TYPE_NONE \<and> group_deps t = [0, 0, 0, 0]"
  using assms
  by (simp add: task_tcb_def get_subgraph_def Let_def tcb_zero_def TCB_FLAG_DEP_TYPE_def
      TCB_FLAG_DEP_TYPE_NONE_def TCB_FLAG_TASK_TYPE_TASK_def TCB_FLAG_END_TYPE_GROUP_END_def
      TCB_FLAG_END_TYPE_GRID_END_def)


lemma deps_via_config:
  assumes s: "get_subgraph graph i = Inr s"
    and t0: "flag tcb0 AND 0x30 = 0"
    and g: "\<forall>t. flag (g t) = flag t \<and> group_deps (g t) = group_deps t"
    and r: "r = (case config_tcb_deps job graph tcb0 i of Inl e \<Rightarrow> Inl e | Inr t \<Rightarrow> Inr (g t))"
  shows "precursor_cnt s = SUBG_DEPEND_NONE \<Longrightarrow>
           \<exists>t. r = Inr t \<and> TCB_FLAG_DEP_TYPE (flag t) = TCB_FLAG_DEP_TYPE_NONE"
    and "precursor_cnt s = SUBG_DEPEND_PREALL \<Longrightarrow>
           \<exists>t. r = Inr t \<and> TCB_FLAG_DEP_TYPE (flag t) = TCB_FLAG_DEP_TYPE_PRE_ALL"
    and "precursor_cnt s \<noteq> SUBG_DEPEND_NONE \<Longrightarrow> precursor_cnt s \<noteq> SUBG_DEPEND_PREALL \<Longrightarrow>
           \<not> (1 \<le> precursor_cnt s \<and> precursor_cnt s \<le> 4) \<Longrightarrow>
           r = Inl (Status AIPU_STATUS_ERROR_INVALID_GBIN)"
    and "1 \<le> precursor_cnt s \<Longrightarrow> precursor_cnt s \<le> 4 \<Longrightarrow>
           nat (precursor_cnt s) \<le> length (precursors s) \<Longrightarrow>
           \<exists>k<nat (precursor_cnt s). precursors s ! k > 0x7FFF \<Longrightarrow>
           r = Inl (Status AIPU_STATUS_ERROR_INVALID_GBIN)"
    and "1 \<le> precursor_cnt s \<Longrightarrow> precursor_cnt s \<le> 4 \<Longrightarrow>
           nat (precursor_cnt s) \<le> length (precursors s) \<Longrightarrow>
           \<forall>k<nat (precursor_cnt s). precursors s ! k \<le> 0x7FFF \<Longrightarrow>
           length (group_deps tcb0) = 4 \<Longrightarrow>
           \<exists>t. r = Inr t \<and> TCB_FLAG_DEP_TYPE (flag t) = TCB_FLAG_DEP_TYPE_GROUP \<and>
             (\<forall>k<nat (precursor_cnt s).
                group_deps t ! k =
                  EN_GROUP_DEPEND OR ((ucast (precursors s ! k) + m_start_group_id job) AND 0x7FFF))"
proof -
  show "\<exists>t. r = Inr t \<and> TCB_FLAG_DEP_TYPE (flag t) = TCB_FLAG_DEP_TYPE_NONE"
    if "precursor_cnt s = SUBG_DEPEND_NONE"
    using config_tcb_deps_none[OF s that, of job tcb0] r g dep_type_or(1)[OF t0] by simp
  show "\<exists>t. r = Inr t \<and> TCB_FLAG_DEP_TYPE (flag t) = TCB_FLAG_DEP_TYPE_PRE_ALL"
    if "precursor_cnt s = SUBG_DEPEND_PREALL"
    using config_tcb_deps_preall[OF s that, of job tcb0] r g dep_type_or(3)[OF t0] by simp
  show "r = Inl (Status AIPU_STATUS_ERROR_INVALID_GBIN)"
    if "precursor_cnt s \<noteq> SUBG_DEPEND_NONE" "precursor_cnt s \<noteq> SUBG_DEPEND_PREALL"
       "\<not> (1 \<le> precursor_cnt s \<and> precursor_cnt s \<le> 4)"
    using config_tcb_deps_other[OF s that, of job tcb0] r by simp
  show "r = Inl (Status AIPU_STATUS_ERROR_INVALID_GBIN)"
    if "1 \<le> precursor_cnt s" "precursor_cnt s \<le> 4"
       "nat (precursor_cnt s) \<le> length (precursors s)"
       "\<exists>k<nat (precursor_cnt s). precursors s ! k > 0x7FFF"
    using config_tcb_deps_group_bad[OF s that, of job tcb0] r by simp
  show "\<exists>t. r = Inr t \<and> TCB_FLAG_DEP_TYPE (flag t) = TCB_FLAG_DEP_TYPE_GROUP \<and>
             (\<forall>k<nat (precursor_cnt s).
                group_deps t ! k =
                  EN_GROUP_DEPEND OR ((ucast (precursors s ! k) + m_start_group_id job) AND 0x7FFF))"
    if c: "1 \<le> precursor_cnt s" "precursor_cnt s \<le> 4"
       "nat (precursor_cnt s) \<le> length (precursors s)"
       "\<forall>k<nat (precursor_cnt s). precursors s ! k \<le> 0x7FFF"
       and l: "length (group_deps tcb0) = 4"
  proof -
    from config_tcb_deps_group_ok[OF s c, of job tcb0] obtain gd where gd:
      "config_tcb_deps job graph tcb0 i =
         Inr (tcb0\<lparr>flag := flag tcb0 OR TCB_FLAG_DEP_TYPE_GROUP, group_deps := gd\<rparr>)"
      "length gd = length (group_deps tcb0)"
      "\<forall>k<length gd. gd ! k =
         (if k < nat (precursor_cnt s)
          then EN_GROUP_DEPEND OR ((ucast (precursors s ! k) + m_start_group_id job) AND 0x7FFF)
          else group_deps tcb0 ! k)"
      by blast
    let ?t = "g (tcb0\<lparr>flag := flag tcb0 OR TCB_FLAG_DEP_TYPE_GROUP, group_deps := gd\<rparr>)"
    have 1: "r = Inr ?t" using r gd(1) by simp
    have 2: "TCB_FLAG_DEP_TYPE (flag ?t) = TCB_FLAG_DEP_TYPE_GROUP"
      using g dep_type_or(2)[OF t0] by simp
    have n: "nat (precursor_cnt s) \<le> 4" using c(2) by simp
    have 3: "\<forall>k<nat (precursor_cnt s). group_deps ?t ! k =
                  EN_GROUP_DEPEND OR ((ucast (precursors s ! k) + m_start_group_id job) AND 0x7FFF)"
      using g gd(2,3) l n by simp
    from 1 2 3 show ?thesis by (intro exI[of _ ?t] conjI)
  qed
qed


text \<open>
  The TCBs that the builder composes. Let subgraph \<open>i\<close> of the graph carry the id
  \<open>i\<close>, and let \<open>r\<close> be what the builder composes as the GROUP_INIT TCB of subgraph
  \<open>i\<close> or as the TCB of its task 0. Then NONE gives the dependency type NONE; a count
  of 1 to 4 whose listed precursors are all at most \<open>0x7FFF\<close> gives the dependency type
  GROUP and the entries \<open>EN_GROUP_DEPEND | ((precursors[k] + start_group_id) &
  0x7FFF)\<close>, that is the numbers \<open>2^15 + (precursors[k] + start_group_id) mod 2^15\<close>;
  a listed precursor above \<open>0x7FFF\<close> fails with INVALID_GBIN; PRE_ALL gives the
  dependency type PRE_ALL; every other count fails with INVALID_GBIN. The TCBs of the
  tasks other than task 0 carry no dependency type and no dependency.
\<close>

lemma tcb_dependency_composed:
  assumes "i < length (m_subgraphs graph)" and "unat (sg_id (m_subgraphs graph ! i)) = i"
    and "i < m_sg_cnt job" and "0 < m_task_per_sg job"
    and "s = m_subgraphs graph ! i"
    and "r = group_init_tcb job graph i \<or> r = task_tcb job graph i 0"
  shows "(precursor_cnt s = SUBG_DEPEND_NONE \<longrightarrow>
            (\<exists>t. r = Inr t \<and> TCB_FLAG_DEP_TYPE (flag t) = TCB_FLAG_DEP_TYPE_NONE)) \<and>
         (1 \<le> precursor_cnt s \<and> precursor_cnt s \<le> 4 \<and>
          nat (precursor_cnt s) \<le> length (precursors s) \<and>
          (\<forall>k<nat (precursor_cnt s). precursors s ! k \<le> 0x7FFF) \<longrightarrow>
            (\<exists>t. r = Inr t \<and> TCB_FLAG_DEP_TYPE (flag t) = TCB_FLAG_DEP_TYPE_GROUP \<and>
               (\<forall>k<nat (precursor_cnt s).
                  group_deps t ! k =
                    EN_GROUP_DEPEND OR ((ucast (precursors s ! k) + m_start_group_id job) AND 0x7FFF) \<and>
                  unat (group_deps t ! k) =
                    2 ^ 15 + (unat (precursors s ! k) + unat (m_start_group_id job)) mod 2 ^ 15))) \<and>
         (1 \<le> precursor_cnt s \<and> precursor_cnt s \<le> 4 \<and>
          nat (precursor_cnt s) \<le> length (precursors s) \<and>
          (\<exists>k<nat (precursor_cnt s). precursors s ! k > 0x7FFF) \<longrightarrow>
            r = Inl (Status AIPU_STATUS_ERROR_INVALID_GBIN)) \<and>
         (precursor_cnt s = SUBG_DEPEND_PREALL \<longrightarrow>
            (\<exists>t. r = Inr t \<and> TCB_FLAG_DEP_TYPE (flag t) = TCB_FLAG_DEP_TYPE_PRE_ALL)) \<and>
         (precursor_cnt s \<noteq> SUBG_DEPEND_NONE \<and> precursor_cnt s \<noteq> SUBG_DEPEND_PREALL \<and>
          \<not> (1 \<le> precursor_cnt s \<and> precursor_cnt s \<le> 4) \<longrightarrow>
            r = Inl (Status AIPU_STATUS_ERROR_INVALID_GBIN)) \<and>
         (\<forall>task. 0 < task \<and> task < m_task_per_sg job \<longrightarrow>
            (\<exists>t. task_tcb job graph i task = Inr t \<and>
                 TCB_FLAG_DEP_TYPE (flag t) = TCB_FLAG_DEP_TYPE_NONE \<and>
                 group_deps t = [0, 0, 0, 0]))"
proof -
  have s: "get_subgraph graph i = Inr s"
    using assms(1,5) by (simp add: get_subgraph_def)
  obtain tcb0 g where sh: "flag tcb0 AND 0x30 = 0" "group_deps tcb0 = [0, 0, 0, 0]"
    "\<forall>t. flag (g t) = flag t \<and> group_deps (g t) = group_deps t"
    "r = (case config_tcb_deps job graph tcb0 i of Inl e \<Rightarrow> Inl e | Inr t \<Rightarrow> Inr (g t))"
  proof (rule disjE[OF assms(6)])
    assume r: "r = group_init_tcb job graph i"
    from group_init_tcb_shape[OF assms(1,2), of job] obtain tcb0 where
      "flag tcb0 AND 0x30 = 0" "group_deps tcb0 = [0, 0, 0, 0]"
      "group_init_tcb job graph i = config_tcb_deps job graph tcb0 i" by blast
    then show thesis
      using r by (intro that[of tcb0 "\<lambda>t. t"]) (simp_all split: sum.splits)
  next
    assume r: "r = task_tcb job graph i 0"
    from task_tcb0_shape[OF assms(1,3,4)] obtain tcb0 g where
      "flag tcb0 AND 0x30 = 0" "group_deps tcb0 = [0, 0, 0, 0]"
      "\<forall>t. flag (g t) = flag t \<and> group_deps (g t) = group_deps t"
      "task_tcb job graph i 0 =
         (case config_tcb_deps job graph tcb0 i of Inl e \<Rightarrow> Inl e | Inr t \<Rightarrow> Inr (g t))"
      by blast
    then show thesis using r by (intro that[of tcb0 g]) simp_all
  qed
  have l: "length (group_deps tcb0) = 4" using sh(2) by simp
  note D = deps_via_config[OF s sh(1,3,4)]
  have grp: "\<exists>t. r = Inr t \<and> TCB_FLAG_DEP_TYPE (flag t) = TCB_FLAG_DEP_TYPE_GROUP \<and>
               (\<forall>k<nat (precursor_cnt s).
                  group_deps t ! k =
                    EN_GROUP_DEPEND OR ((ucast (precursors s ! k) + m_start_group_id job) AND 0x7FFF) \<and>
                  unat (group_deps t ! k) =
                    2 ^ 15 + (unat (precursors s ! k) + unat (m_start_group_id job)) mod 2 ^ 15)"
    if c: "1 \<le> precursor_cnt s" "precursor_cnt s \<le> 4"
       "nat (precursor_cnt s) \<le> length (precursors s)"
       "\<forall>k<nat (precursor_cnt s). precursors s ! k \<le> 0x7FFF"
  proof -
    from D(5)[OF c l] obtain t where t: "r = Inr t"
      "TCB_FLAG_DEP_TYPE (flag t) = TCB_FLAG_DEP_TYPE_GROUP"
      "\<forall>k<nat (precursor_cnt s). group_deps t ! k =
         EN_GROUP_DEPEND OR ((ucast (precursors s ! k) + m_start_group_id job) AND 0x7FFF)"
      by blast
    have "unat (group_deps t ! k) =
        2 ^ 15 + (unat (precursors s ! k) + unat (m_start_group_id job)) mod 2 ^ 15"
      if "k < nat (precursor_cnt s)" for k
      using t(3) that dep_entry_unat[of "precursors s ! k" "m_start_group_id job"]
      by (simp add: ucast_add_down)
    with t show ?thesis by (intro exI[of _ t]) simp
  qed
  show ?thesis
    using D(1-4) grp task_tcb_no_deps[OF assms(1,3)] by (intro conjI impI allI) blast+
qed


lemma example_graph_simps:
  "m_subgraphs example_graph = [example_subgraph 0 0 [], example_subgraph 1 1 [0]]"
  "m_fake_subgraph example_graph = False"
  by (simp_all add: example_graph_def)

lemma example_subgraph_simps:
  "sg_id (example_subgraph i cnt pre) = i"
  "precursor_cnt (example_subgraph i cnt pre) = cnt"
  "precursors (example_subgraph i cnt pre) = pre"
  "printfifo_size (example_subgraph i cnt pre) = 0"
  "warmup_len (example_subgraph i cnt pre) = 0"
  by (simp_all add: example_subgraph_def)

text \<open>
  At the example graph the GROUP_INIT TCB that the builder composes for subgraph 1,
  which lists subgraph 0 as its precursor, has the dependency type GROUP and the entry
  \<open>2^15 + 5\<close> for start group id 5.
\<close>

lemma tcb_dependency_composed_example:
  "\<exists>t. group_init_tcb example_job example_graph 1 = Inr t \<and>
       TCB_FLAG_DEP_TYPE (flag t) = TCB_FLAG_DEP_TYPE_GROUP \<and>
       unat (group_deps t ! 0) = 32773"
proof -
  let ?s = "example_subgraph 1 1 [0]"
  have h1: "1 < length (m_subgraphs example_graph)"
    by (simp add: example_graph_simps)
  have h2: "unat (sg_id (m_subgraphs example_graph ! 1)) = 1"
    by (simp add: example_graph_simps example_subgraph_simps)
  have h3: "1 < m_sg_cnt example_job" and h4: "0 < m_task_per_sg example_job"
    by (simp_all add: example_job_def)
  have h5: "?s = m_subgraphs example_graph ! 1"
    by (simp add: example_graph_simps)
  have p: "1 \<le> precursor_cnt ?s \<and> precursor_cnt ?s \<le> 4 \<and>
          nat (precursor_cnt ?s) \<le> length (precursors ?s) \<and>
          (\<forall>k<nat (precursor_cnt ?s). precursors ?s ! k \<le> 0x7FFF)"
    by (simp add: example_subgraph_simps)
  note T = tcb_dependency_composed[OF h1 h2 h3 h4 h5 disjI1[OF refl]]
  from T[THEN conjunct2, THEN conjunct1, THEN mp, OF p]
  obtain t where t: "group_init_tcb example_job example_graph 1 = Inr t"
    "TCB_FLAG_DEP_TYPE (flag t) = TCB_FLAG_DEP_TYPE_GROUP"
    "\<forall>k<nat (precursor_cnt ?s). unat (group_deps t ! k) =
        2 ^ 15 + (unat (precursors ?s ! k) + unat (m_start_group_id example_job)) mod 2 ^ 15"
    by auto
  from t(3) have "unat (group_deps t ! 0) = 32773"
    by (simp add: example_subgraph_simps example_job_def)
  with t(1,2) show ?thesis by blast
qed


section \<open>Proofs: layout of the TCB chain\<close>


lemma config_tcb_deps_loop_flag:
  "config_tcb_deps_loop start pre i n tcb = Inr t \<Longrightarrow> flag t = flag tcb"
  by (induction n arbitrary: i tcb) (auto simp add: Let_def split: if_splits)

lemma config_tcb_deps_flag:
  assumes "config_tcb_deps job graph tcb sg = Inr t"
  shows "\<exists>d. (d = 0 \<or> d = 0x10 \<or> d = 0x20) \<and> flag t = flag tcb OR d"
proof (cases "get_subgraph graph sg")
  case (Inl e)
  with assms show ?thesis by (simp add: config_tcb_deps_def)
next
  case (Inr s)
  consider (none) "precursor_cnt s = SUBG_DEPEND_NONE"
    | (grp) "precursor_cnt s \<noteq> SUBG_DEPEND_NONE" "1 \<le> precursor_cnt s \<and> precursor_cnt s \<le> 4"
    | (pre) "precursor_cnt s \<noteq> SUBG_DEPEND_NONE" "\<not> (1 \<le> precursor_cnt s \<and> precursor_cnt s \<le> 4)"
        "precursor_cnt s = SUBG_DEPEND_PREALL"
    | (oth) "precursor_cnt s \<noteq> SUBG_DEPEND_NONE" "\<not> (1 \<le> precursor_cnt s \<and> precursor_cnt s \<le> 4)"
        "precursor_cnt s \<noteq> SUBG_DEPEND_PREALL"
    by blast
  then show ?thesis
  proof cases
    case none
    with assms Inr have "t = tcb\<lparr>flag := flag tcb OR TCB_FLAG_DEP_TYPE_NONE\<rparr>"
      by (simp add: config_tcb_deps_def)
    then show ?thesis by (intro exI[of _ 0]) (simp add: TCB_FLAG_DEP_TYPE_NONE_def)
  next
    case grp
    with assms Inr have "config_tcb_deps_loop (m_start_group_id job) (precursors s) 0
        (nat (precursor_cnt s)) (tcb\<lparr>flag := flag tcb OR TCB_FLAG_DEP_TYPE_GROUP\<rparr>) = Inr t"
      by (simp add: config_tcb_deps_def)
    from config_tcb_deps_loop_flag[OF this]
    show ?thesis by (intro exI[of _ "0x10"]) (simp add: TCB_FLAG_DEP_TYPE_GROUP_def)
  next
    case pre
    with assms Inr have "t = tcb\<lparr>flag := flag tcb OR TCB_FLAG_DEP_TYPE_PRE_ALL\<rparr>"
      by (simp add: config_tcb_deps_def SUBG_DEPEND_PREALL_def SUBG_DEPEND_NONE_def)
    then show ?thesis by (intro exI[of _ "0x20"]) (simp add: TCB_FLAG_DEP_TYPE_PRE_ALL_def)
  next
    case oth
    with assms Inr show ?thesis by (simp add: config_tcb_deps_def)
  qed
qed

lemma u32_pred_simps:
  "u32_pred 4 = 3"
  "1 \<le> n \<Longrightarrow> n < 2 ^ 32 \<Longrightarrow> u32_pred n = n - 1"
proof -
  show "u32_pred 4 = 3" by (simp add: u32_pred_def)
  assume n: "1 \<le> n" "n < 2 ^ 32"
  have "n + 2 ^ 32 - 1 = (n - 1) + 2 ^ 32" using n by simp
  then have "u32_pred n = ((n - 1) + 2 ^ 32) mod 2 ^ 32" by (simp only: u32_pred_def)
  also have "\<dots> = (n - 1) mod 2 ^ 32" by (rule mod_add_self2)
  also have "\<dots> = n - 1" using n by simp
  finally show "u32_pred n = n - 1" .
qed

lemma task_tcb_flag:
  assumes "task_tcb job graph sg t = Inr tcb" "m_task_per_sg job = 4"
    "1 \<le> m_sg_cnt job" "m_sg_cnt job < 2 ^ 32"
  shows "TCB_FLAG_TASK_TYPE (flag tcb) = TCB_FLAG_TASK_TYPE_TASK \<and>
         (flag tcb AND TCB_FLAG_END_TYPE_GROUP_END \<noteq> 0 \<longleftrightarrow> t = 3) \<and>
         (flag tcb AND TCB_FLAG_END_TYPE_GRID_END \<noteq> 0 \<longleftrightarrow> sg = m_sg_cnt job - 1 \<and> t = 3)"
proof -
  let ?a = "tcb_zero\<lparr>interrupt_en := EN_INTERRUPT_TEC_ALL, flag := TCB_FLAG_TASK_TYPE_TASK\<rparr>"
  let ?b = "if t = 3 then ?a\<lparr>flag := flag ?a OR TCB_FLAG_END_TYPE_GROUP_END\<rparr> else ?a"
  let ?c = "if sg = m_sg_cnt job - 1 \<and> t = 3
            then ?b\<lparr>flag := flag ?b OR TCB_FLAG_END_TYPE_GRID_END\<rparr> else ?b"
  have up: "u32_pred (m_task_per_sg job) = 3" "u32_pred (m_sg_cnt job) = m_sg_cnt job - 1"
    using assms(2-4) by (simp_all add: u32_pred_simps)
  from assms(1) obtain t1 where t1:
    "(if t = 0 then config_tcb_deps job graph ?c sg else Inr ?c) = Inr t1" "flag tcb = flag t1"
    by (auto simp add: task_tcb_def up Let_def split: if_splits sum.splits)
  have "\<exists>d. (d = 0 \<or> d = 0x10 \<or> d = 0x20) \<and> flag t1 = flag ?c OR d"
  proof (cases "t = 0")
    case True
    with t1(1) show ?thesis using config_tcb_deps_flag[of job graph ?c sg t1] by simp
  next
    case False
    with t1(1) have "t1 = ?c" by simp
    then show ?thesis by (intro exI[of _ 0]) simp
  qed
  then obtain d where d: "d = 0 \<or> d = 0x10 \<or> d = 0x20" "flag tcb = flag ?c OR d"
    using t1(2) by auto
  show ?thesis
    using d
    by (auto simp add: TCB_FLAG_TASK_TYPE_def TCB_FLAG_TASK_TYPE_TASK_def
        TCB_FLAG_END_TYPE_GROUP_END_def TCB_FLAG_END_TYPE_GRID_END_def)
qed

lemma group_init_tcb_flag:
  assumes "group_init_tcb job graph i = Inr tcb"
  shows "TCB_FLAG_TASK_TYPE (flag tcb) = TCB_FLAG_TASK_TYPE_GROUP_INIT \<and>
         flag tcb AND TCB_FLAG_END_TYPE_GROUP_END = 0 \<and>
         flag tcb AND TCB_FLAG_END_TYPE_GRID_END = 0"
proof -
  let ?t = "tcb_zero\<lparr>flag := TCB_FLAG_TASK_TYPE_GROUP_INIT OR TCB_FLAG_GRID_INIT,
               gridid := m_grid_id job, groupid := m_group_id_idx job\<rparr>"
  from assms obtain sg where "config_tcb_deps job graph ?t sg = Inr tcb"
    by (auto simp add: group_init_tcb_def split: sum.splits)
  from config_tcb_deps_flag[OF this] obtain d where
    d: "d = 0 \<or> d = 0x10 \<or> d = 0x20" "flag tcb = flag ?t OR d" by auto
  show ?thesis
    using d
    by (auto simp add: TCB_FLAG_TASK_TYPE_def TCB_FLAG_TASK_TYPE_GROUP_INIT_def
        TCB_FLAG_GRID_INIT_def TCB_FLAG_END_TYPE_GROUP_END_def TCB_FLAG_END_TYPE_GRID_END_def)
qed

lemma grid_init_tcb_flag:
  "TCB_FLAG_TASK_TYPE (flag (grid_init_tcb job)) = TCB_FLAG_TASK_TYPE_GRID_INIT \<and>
   flag (grid_init_tcb job) AND TCB_FLAG_END_TYPE_GROUP_END = 0 \<and>
   flag (grid_init_tcb job) AND TCB_FLAG_END_TYPE_GRID_END = 0"
  by (simp add: grid_init_tcb_def TCB_FLAG_TASK_TYPE_def TCB_FLAG_TASK_TYPE_GRID_INIT_def
      TCB_FLAG_L2D_FLUSH_def TCB_FLAG_END_TYPE_GROUP_END_def TCB_FLAG_END_TYPE_GRID_END_def)


lemma tcb_mem_write:
  "tcb_mem (mem_write_tcb mem pa tcb) a = (if a = pa then Some tcb else tcb_mem mem a)"
  by (simp add: mem_write_tcb_def)

lemma task_tcb_pa_eq:
  assumes "m_task_per_sg job = 4" "i < S" "j < 4" "1 + S * 5 < 2 ^ 32"
  shows "task_tcb_pa job i j = m_tcbs_pa job + (2 + 5 * i + j) * sizeof_tcb_t"
proof -
  have "2 + i * 5 + j < (2 ^ 32 :: nat)" using assms(2-4) by simp
  then show ?thesis using assms(1) by (simp add: task_tcb_pa_def mult.commute)
qed

lemma group_init_tcb_pa_eq:
  assumes "m_task_per_sg job = 4" "i < S" "1 + S * 5 < 2 ^ 32"
  shows "group_init_tcb_pa job i = m_tcbs_pa job + (1 + 5 * i) * sizeof_tcb_t"
proof -
  have "5 * i < (2 ^ 32 :: nat)" using assms(2-3) by simp
  then show ?thesis using assms(1) by (simp add: group_init_tcb_pa_def)
qed

lemma setup_tcb_group_loop_mem:
  assumes "setup_tcb_group_loop job graph sg t n mem = Inr mem'"
    and "\<forall>t'<t + n. task_tcb_pa job sg t' = b + t' * sizeof_tcb_t"
  shows "(\<forall>a. (\<forall>t'. t \<le> t' \<and> t' < t + n \<longrightarrow> a \<noteq> b + t' * sizeof_tcb_t) \<longrightarrow>
              tcb_mem mem' a = tcb_mem mem a) \<and>
         (\<forall>t'. t \<le> t' \<and> t' < t + n \<longrightarrow>
              (\<exists>tcb. task_tcb job graph sg t' = Inr tcb \<and>
                     tcb_mem mem' (b + t' * sizeof_tcb_t) = Some tcb))"
  using assms
proof (induction n arbitrary: t mem)
  case 0
  then show ?case by auto
next
  case (Suc n)
  from Suc.prems(1) obtain tcb where tcb: "task_tcb job graph sg t = Inr tcb"
    and rest: "setup_tcb_group_loop job graph sg (Suc t) n
                 (mem_write_tcb mem (task_tcb_pa job sg t) tcb) = Inr mem'"
    by (auto simp add: setup_task_tcb_def split: sum.splits)
  let ?m1 = "mem_write_tcb mem (task_tcb_pa job sg t) tcb"
  have pa: "task_tcb_pa job sg t = b + t * sizeof_tcb_t" using Suc.prems(2) by simp
  have "\<forall>t'<Suc t + n. task_tcb_pa job sg t' = b + t' * sizeof_tcb_t"
    using Suc.prems(2) by simp
  from Suc.IH[OF rest this]
  have fr: "\<And>a. (\<forall>t'. Suc t \<le> t' \<and> t' < Suc t + n \<longrightarrow> a \<noteq> b + t' * sizeof_tcb_t) \<Longrightarrow>
              tcb_mem mem' a = tcb_mem ?m1 a"
    and wr: "\<And>t'. Suc t \<le> t' \<and> t' < Suc t + n \<Longrightarrow>
              (\<exists>tcb. task_tcb job graph sg t' = Inr tcb \<and>
                     tcb_mem mem' (b + t' * sizeof_tcb_t) = Some tcb)"
    by blast+
  have sz: "0 < sizeof_tcb_t" by (simp add: sizeof_tcb_t_def)
  show ?case
  proof (intro conjI allI impI)
    fix a assume a: "\<forall>t'. t \<le> t' \<and> t' < t + Suc n \<longrightarrow> a \<noteq> b + t' * sizeof_tcb_t"
    then have "tcb_mem mem' a = tcb_mem ?m1 a" by (intro fr) auto
    moreover have "a \<noteq> b + t * sizeof_tcb_t" using a by auto
    ultimately show "tcb_mem mem' a = tcb_mem mem a" by (simp add: tcb_mem_write pa)
  next
    fix t' assume t': "t \<le> t' \<and> t' < t + Suc n"
    show "\<exists>tcb. task_tcb job graph sg t' = Inr tcb \<and>
                     tcb_mem mem' (b + t' * sizeof_tcb_t) = Some tcb"
    proof (cases "t' = t")
      case True
      have "tcb_mem mem' (b + t * sizeof_tcb_t) = tcb_mem ?m1 (b + t * sizeof_tcb_t)"
        using sz by (intro fr) auto
      then show ?thesis using True tcb by (simp add: tcb_mem_write pa)
    next
      case False
      then show ?thesis using t' by (intro wr) auto
    qed
  qed
qed


lemma setup_tcb_group_mem:
  assumes "setup_tcb_group job graph sg mem = Inr (job', mem')"
    and "m_task_per_sg job = 4" "sg < S" "1 + S * 5 < 2 ^ 32"
  shows "job' = job\<lparr>m_group_id_idx := m_group_id_idx job + 1\<rparr>"
    and "\<And>a. (\<forall>t<4. a \<noteq> m_tcbs_pa job + (2 + 5 * sg + t) * sizeof_tcb_t) \<Longrightarrow>
              tcb_mem mem' a = tcb_mem mem a"
    and "\<And>t. t < 4 \<Longrightarrow> \<exists>tcb. task_tcb job graph sg t = Inr tcb \<and>
              tcb_mem mem' (m_tcbs_pa job + (2 + 5 * sg + t) * sizeof_tcb_t) = Some tcb"
proof -
  from assms(1) have l: "setup_tcb_group_loop job graph sg 0 4 mem = Inr mem'"
    and j: "job' = job\<lparr>m_group_id_idx := m_group_id_idx job + 1\<rparr>"
    by (auto simp add: setup_tcb_group_def assms(2) split: sum.splits)
  show "job' = job\<lparr>m_group_id_idx := m_group_id_idx job + 1\<rparr>" by (rule j)
  let ?b = "m_tcbs_pa job + (2 + 5 * sg) * sizeof_tcb_t"
  have pa: "\<forall>t'<0 + 4. task_tcb_pa job sg t' = ?b + t' * sizeof_tcb_t"
    using task_tcb_pa_eq[OF assms(2,3) _ assms(4)] by (simp add: add_mult_distrib)
  note L = setup_tcb_group_loop_mem[OF l pa]
  have e: "?b + t * sizeof_tcb_t = m_tcbs_pa job + (2 + 5 * sg + t) * sizeof_tcb_t" for t
    by (simp add: add_mult_distrib)
  note L' = L[unfolded e]
  show "tcb_mem mem' a = tcb_mem mem a"
    if "\<forall>t<4. a \<noteq> m_tcbs_pa job + (2 + 5 * sg + t) * sizeof_tcb_t" for a
    using L'[THEN conjunct1, rule_format, of a] that by simp
  show "\<exists>tcb. task_tcb job graph sg t = Inr tcb \<and>
              tcb_mem mem' (m_tcbs_pa job + (2 + 5 * sg + t) * sizeof_tcb_t) = Some tcb"
    if "t < 4" for t
    using L'[THEN conjunct2, rule_format, of t] that by simp
qed

lemma slot_neq:
  "k \<noteq> k' \<Longrightarrow> pa + k * sizeof_tcb_t \<noteq> pa + k' * sizeof_tcb_t"
  by (simp add: sizeof_tcb_t_def)

lemma setup_tcb_chain_loop_mem:
  assumes "setup_tcb_chain_loop graph i n job mem = Inr (job', mem')"
    and "i + n \<le> S" "S = length (m_subgraphs graph)" "m_sg_cnt job = S"
    and "m_task_per_sg job = 4" "1 + S * 5 < 2 ^ 32"
    and "\<forall>j<S. unat (sg_id (m_subgraphs graph ! j)) = j"
  shows "(\<forall>a. (\<forall>k. 1 + 5 * i \<le> k \<and> k < 1 + 5 * (i + n) \<longrightarrow>
                   a \<noteq> m_tcbs_pa job + k * sizeof_tcb_t) \<longrightarrow>
              tcb_mem mem' a = tcb_mem mem a) \<and>
         (\<forall>k. 1 + 5 * i \<le> k \<and> k < 1 + 5 * (i + n) \<longrightarrow>
              (\<exists>tcb. tcb_mem mem' (m_tcbs_pa job + k * sizeof_tcb_t) = Some tcb \<and>
                 TCB_FLAG_TASK_TYPE (flag tcb) =
                   (if k mod 5 = 1 then TCB_FLAG_TASK_TYPE_GROUP_INIT else TCB_FLAG_TASK_TYPE_TASK) \<and>
                 (flag tcb AND TCB_FLAG_END_TYPE_GROUP_END \<noteq> 0 \<longleftrightarrow> k mod 5 = 0) \<and>
                 (flag tcb AND TCB_FLAG_END_TYPE_GRID_END \<noteq> 0 \<longleftrightarrow> k = 5 * S))) \<and>
         m_tcbs_pa job' = m_tcbs_pa job \<and> m_tot_tcb_cnt job' = m_tot_tcb_cnt job \<and>
         m_backup_tcb job' = m_backup_tcb job \<and> m_sg_cnt job' = m_sg_cnt job"
  using assms
proof (induction n arbitrary: i job mem)
  case 0
  then show ?case by auto
next
  case (Suc n)
  have iS: "i < S" using Suc.prems(2) by simp
  have gs: "get_subgraph graph i = Inr (m_subgraphs graph ! i)"
    using iS Suc.prems(3) by (simp add: get_subgraph_def)
  have idi: "unat (sg_id (m_subgraphs graph ! i)) = i" using Suc.prems(7) iS by simp
  from Suc.prems(1) gs idi obtain g job1 mem2 where
    g: "group_init_tcb job graph i = Inr g"
    and grp: "setup_tcb_group job graph i (mem_write_tcb mem (group_init_tcb_pa job i) g) = Inr (job1, mem2)"
    and rest: "setup_tcb_chain_loop graph (Suc i) n job1 mem2 = Inr (job', mem')"
    by (auto split: sum.splits)
  let ?pa = "m_tcbs_pa job"
  let ?m1 = "mem_write_tcb mem (group_init_tcb_pa job i) g"
  have gpa: "group_init_tcb_pa job i = ?pa + (1 + 5 * i) * sizeof_tcb_t"
    by (rule group_init_tcb_pa_eq[OF Suc.prems(5) iS Suc.prems(6)])
  note G = setup_tcb_group_mem[OF grp Suc.prems(5) iS Suc.prems(6)]
  have j1: "m_tcbs_pa job1 = ?pa" "m_sg_cnt job1 = S" "m_task_per_sg job1 = 4"
    "m_tot_tcb_cnt job1 = m_tot_tcb_cnt job" "m_backup_tcb job1 = m_backup_tcb job"
    using G(1) Suc.prems(4,5) by simp_all
  have "Suc i + n \<le> S" using Suc.prems(2) by simp
  note IH = Suc.IH[OF rest this Suc.prems(3) j1(2) j1(3) Suc.prems(6) Suc.prems(7), unfolded j1]
  have fr3: "tcb_mem mem' a = tcb_mem mem2 a"
    if "\<forall>k. 1 + 5 * Suc i \<le> k \<and> k < 1 + 5 * (Suc i + n) \<longrightarrow> a \<noteq> ?pa + k * sizeof_tcb_t" for a
    using IH[THEN conjunct1, rule_format, of a] that by blast
  have S1: "1 \<le> m_sg_cnt job" "m_sg_cnt job < 2 ^ 32"
    using iS Suc.prems(4,6) by simp_all
  show ?case
  proof (intro conjI allI impI)
    fix a
    assume a: "\<forall>k. 1 + 5 * i \<le> k \<and> k < 1 + 5 * (i + Suc n) \<longrightarrow> a \<noteq> ?pa + k * sizeof_tcb_t"
    have "tcb_mem mem' a = tcb_mem mem2 a" using a by (intro fr3) auto
    also have "\<dots> = tcb_mem ?m1 a"
    proof (intro G(2) allI impI)
      fix t :: nat assume "t < 4"
      then have "1 + 5 * i \<le> 2 + 5 * i + t \<and> 2 + 5 * i + t < 1 + 5 * (i + Suc n)" by simp
      with a show "a \<noteq> ?pa + (2 + 5 * i + t) * sizeof_tcb_t" by blast
    qed
    also have "\<dots> = tcb_mem mem a"
      using a[rule_format, of "1 + 5 * i"] by (simp add: tcb_mem_write gpa)
    finally show "tcb_mem mem' a = tcb_mem mem a" .
  next
    fix k
    assume k: "1 + 5 * i \<le> k \<and> k < 1 + 5 * (i + Suc n)"
    show "\<exists>tcb. tcb_mem mem' (?pa + k * sizeof_tcb_t) = Some tcb \<and>
                 TCB_FLAG_TASK_TYPE (flag tcb) =
                   (if k mod 5 = 1 then TCB_FLAG_TASK_TYPE_GROUP_INIT else TCB_FLAG_TASK_TYPE_TASK) \<and>
                 (flag tcb AND TCB_FLAG_END_TYPE_GROUP_END \<noteq> 0 \<longleftrightarrow> k mod 5 = 0) \<and>
                 (flag tcb AND TCB_FLAG_END_TYPE_GRID_END \<noteq> 0 \<longleftrightarrow> k = 5 * S)"
    proof (cases "k < 1 + 5 * Suc i")
      case False
      then show ?thesis using k IH[THEN conjunct2, THEN conjunct1, rule_format, of k] by simp
    next
      case True
      have early: "tcb_mem mem' (?pa + k * sizeof_tcb_t) = tcb_mem mem2 (?pa + k * sizeof_tcb_t)"
        using True by (intro fr3) (auto simp add: sizeof_tcb_t_def)
      show ?thesis
      proof (cases "k = 1 + 5 * i")
        case k1: True
        have "tcb_mem mem2 (?pa + k * sizeof_tcb_t) = tcb_mem ?m1 (?pa + k * sizeof_tcb_t)"
          using k1 by (intro G(2)) (auto simp add: sizeof_tcb_t_def)
        then have m: "tcb_mem mem' (?pa + k * sizeof_tcb_t) = Some g"
          using early k1 by (simp add: tcb_mem_write gpa)
        have km: "k mod 5 = 1" using k1 by simp
        have kS: "k \<noteq> 5 * S" using km by auto
        show ?thesis
          using group_init_tcb_flag[OF g] m km kS by (intro exI[of _ g]) simp
      next
        case k2: False
        then obtain t where t: "t < 4" "k = 2 + 5 * i + t"
          using k True by (intro that[of "k - (2 + 5 * i)"]) auto
        from G(3)[OF t(1)] obtain tcb where tcb: "task_tcb job graph i t = Inr tcb"
          "tcb_mem mem2 (?pa + (2 + 5 * i + t) * sizeof_tcb_t) = Some tcb" by blast
        have m: "tcb_mem mem' (?pa + k * sizeof_tcb_t) = Some tcb"
          using early tcb(2) t(2) by simp
        note F = task_tcb_flag[OF tcb(1) Suc.prems(5) S1]
        have km1: "k mod 5 \<noteq> 1" using t by (simp add: mod_Suc)
        have km0: "k mod 5 = 0 \<longleftrightarrow> t = 3" using t by presburger
        have "k = 5 * S \<longleftrightarrow> i = S - 1 \<and> t = 3"
        proof
          assume e: "k = 5 * S"
          then have "5 * S < 5 * i + 6" using t by linarith
          then have S: "S = i + 1" using iS by linarith
          then have "i = S - 1" by simp
          moreover have "t = 3" using S e t by linarith
          ultimately show "i = S - 1 \<and> t = 3" by simp
        next
          assume "i = S - 1 \<and> t = 3"
          then show "k = 5 * S" using t iS by simp
        qed
        then have kS: "k = 5 * S \<longleftrightarrow> i = m_sg_cnt job - 1 \<and> t = 3"
          using Suc.prems(4) by simp
        show ?thesis
          using F m km1 km0 kS by (intro exI[of _ tcb]) simp
      qed
    qed
  next
    show "m_tcbs_pa job' = m_tcbs_pa job" "m_tot_tcb_cnt job' = m_tot_tcb_cnt job"
      "m_backup_tcb job' = m_backup_tcb job" "m_sg_cnt job' = m_sg_cnt job"
      using IH Suc.prems(4) by simp_all
  qed
qed


lemma mem_write_tcbs_frame:
  "(\<forall>k<length ts. a \<noteq> pa + k * sizeof_tcb_t) \<Longrightarrow>
   tcb_mem (mem_write_tcbs mem pa ts) a = tcb_mem mem a"
proof (induction ts arbitrary: mem pa)
  case Nil
  then show ?case by simp
next
  case (Cons t ts)
  have "\<forall>k<length ts. a \<noteq> (pa + sizeof_tcb_t) + k * sizeof_tcb_t"
  proof (intro allI impI)
    fix k assume "k < length ts"
    then have "Suc k < length (t # ts)" by simp
    with Cons.prems have "a \<noteq> pa + Suc k * sizeof_tcb_t" by blast
    then show "a \<noteq> (pa + sizeof_tcb_t) + k * sizeof_tcb_t" by simp
  qed
  from Cons.IH[OF this] Cons.prems[rule_format, of 0]
  show ?case by simp
qed

lemma group_slot_iff:
  fixes k S :: nat
  assumes "k < 1 + 5 * S"
  shows "k mod 5 = 1 \<longleftrightarrow> (\<exists>i<S. k = 1 + i * (4 + 1))"
proof
  assume m: "k mod 5 = 1"
  have "k = 5 * (k div 5) + k mod 5" by simp
  with m obtain q where e: "k = 1 + q * 5" by (intro that[of "k div 5"]) simp
  moreover have "q < S" using assms e by linarith
  ultimately show "\<exists>i<S. k = 1 + i * (4 + 1)" by auto
next
  assume "\<exists>i<S. k = 1 + i * (4 + 1)"
  then obtain i where "k = 1 + i * 5" by auto
  then show "k mod 5 = 1" by presburger
qed

lemma last_slot_iff:
  fixes k S :: nat
  assumes "k < 1 + 5 * S"
  shows "k \<noteq> 0 \<and> k mod 5 = 0 \<longleftrightarrow> (\<exists>i<S. k = 1 + i * (4 + 1) + 4)"
proof
  assume m: "k \<noteq> 0 \<and> k mod 5 = 0"
  have "k = 5 * (k div 5) + k mod 5" by simp
  with m obtain q where e: "k = 5 * q" by (intro that[of "k div 5"]) simp
  with m have q: "q \<noteq> 0" by auto
  then have e2: "k = 1 + (q - 1) * 5 + 4" using e by simp
  moreover have "q - 1 < S" using assms e q by linarith
  ultimately show "\<exists>i<S. k = 1 + i * (4 + 1) + 4" by auto
next
  assume "\<exists>i<S. k = 1 + i * (4 + 1) + 4"
  then obtain i where "k = 1 + i * 5 + 4" by auto
  then show "k \<noteq> 0 \<and> k mod 5 = 0" by presburger
qed

text \<open>
  Claim C1, amended. Let \<open>init\<close> build a job from a graph with \<open>S \<ge> 1\<close> subgraphs, the
  subgraph at position \<open>i\<close> carrying the id \<open>i\<close>, with \<open>1 + 5 * S\<close> within \<open>uint32_t\<close>.
  Then the TCB buffer holds \<open>1 + S * (4 + 1)\<close> TCBs, one after the other from the start of
  the buffer: the TCB at index 0 has type GRID_INIT, those at the indices
  \<open>1 + i * (4 + 1)\<close> for \<open>i < S\<close> have type GROUP_INIT, every other one has type TASK;
  the GROUP_END flag is set exactly in the last task TCB of every subgraph (index
  \<open>1 + i * (4 + 1) + 4\<close>), and the GRID_END flag exactly in the last task TCB of the last
  subgraph.
\<close>

theorem tcb_chain_layout:
  assumes "S = length (m_subgraphs graph)" and "1 \<le> S" and "\<not> m_fake_subgraph graph"
    and "1 + S * 5 < 2 ^ 32"
    and "\<forall>j<S. unat (sg_id (m_subgraphs graph ! j)) = j"
    and "init job0 graph core_cnt grid_id start_group_id tcbs_pa mem0 = Inr (job, mem)"
  shows "m_tot_tcb_cnt job = 1 + S * (4 + 1) \<and>
    (\<forall>k<m_tot_tcb_cnt job. \<exists>tcb. tcb_at mem tcbs_pa k = Some tcb \<and>
       TCB_FLAG_TASK_TYPE (flag tcb) =
         (if k = 0 then TCB_FLAG_TASK_TYPE_GRID_INIT
          else if \<exists>i<S. k = 1 + i * (4 + 1) then TCB_FLAG_TASK_TYPE_GROUP_INIT
          else TCB_FLAG_TASK_TYPE_TASK) \<and>
       (flag tcb AND TCB_FLAG_END_TYPE_GROUP_END \<noteq> 0 \<longleftrightarrow> (\<exists>i<S. k = 1 + i * (4 + 1) + 4)) \<and>
       (flag tcb AND TCB_FLAG_END_TYPE_GRID_END \<noteq> 0 \<longleftrightarrow> k = 1 + (S - 1) * (4 + 1) + 4))"
proof -
  have cnt: "get_subgraph_cnt graph = S" using assms(1,3) by (simp add: get_subgraph_cnt_def)
  define jobA where "jobA = set_job_params (job0\<lparr>m_core_cnt := core_cnt\<rparr>) S 4 core_cnt"
  define jobB where "jobB = jobA\<lparr>m_grid_id := grid_id, m_start_group_id := start_group_id,
                    m_group_id_idx := start_group_id, m_tcbs_pa := tcbs_pa\<rparr>"
  define mem1 where "mem1 = mem_zeroize_tcbs mem0 tcbs_pa (m_tot_tcb_cnt jobB)"
  have t1: "(1 + S * (4 + 1)) mod 2 ^ 32 = 1 + S * (4 + 1)"
    by (rule mod_less) (use assms(4) in simp)
  have "m_tot_tcb_cnt jobB = (1 + S * (4 + 1)) mod 2 ^ 32"
    by (simp add: jobB_def jobA_def set_job_params_def Let_def)
  then have B3: "m_tot_tcb_cnt jobB = 1 + S * 5" using t1 by simp
  have B': "m_sg_cnt jobB = S" "m_task_per_sg jobB = 4" "m_tcbs_pa jobB = tcbs_pa"
    by (simp_all add: jobB_def jobA_def set_job_params_def Let_def)
  note B = B'(1) B'(2) B3 B'(3)
  have S0: "S \<noteq> 0" using assms(2) by simp
  from assms(6) obtain job' mem' where
    ch: "setup_tcb_chain jobB graph mem1 = Inr (job', mem')" and m: "mem = mem'"
    and j: "job = (case m_backup_tcb job' of None \<Rightarrow> job'
              | Some b \<Rightarrow> job'\<lparr>m_backup_tcb :=
                    Some (mem_read_tcbs mem' (m_tcbs_pa job') (m_tot_tcb_cnt job'))\<rparr>)"
    unfolding init_def cnt Let_def jobA_def[symmetric] jobB_def[symmetric] mem1_def[symmetric]
    using S0 by (auto split: sum.splits)
  let ?m2 = "mem_write_tcb mem1 tcbs_pa (grid_init_tcb jobB)"
  from ch obtain job2 where
    lp: "setup_tcb_chain_loop graph 0 S jobB ?m2 = Inr (job2, mem')"
    and j2: "job' = job2\<lparr>m_status := AIPU_JOB_STATUS_INIT\<rparr>"
    by (auto simp add: setup_tcb_chain_def cnt B(4) split: sum.splits)
  have "0 + S \<le> S" by simp
  note L = setup_tcb_chain_loop_mem[OF lp this assms(1) B(1) B(2) assms(4) assms(5), unfolded B]
  have totj: "m_tot_tcb_cnt job = 1 + S * 5"
    using j j2 L B(3) by (simp split: option.splits)
  have slot0: "tcb_mem mem (tcbs_pa + 0 * sizeof_tcb_t) = Some (grid_init_tcb jobB)"
  proof -
    have "tcb_mem mem' (tcbs_pa + 0 * sizeof_tcb_t) = tcb_mem ?m2 (tcbs_pa + 0 * sizeof_tcb_t)"
      by (intro L[THEN conjunct1, rule_format]) (simp add: sizeof_tcb_t_def)
    then show ?thesis by (simp add: m tcb_mem_write)
  qed
  have main: "\<exists>tcb. tcb_at mem tcbs_pa k = Some tcb \<and>
       TCB_FLAG_TASK_TYPE (flag tcb) =
         (if k = 0 then TCB_FLAG_TASK_TYPE_GRID_INIT
          else if \<exists>i<S. k = 1 + i * (4 + 1) then TCB_FLAG_TASK_TYPE_GROUP_INIT
          else TCB_FLAG_TASK_TYPE_TASK) \<and>
       (flag tcb AND TCB_FLAG_END_TYPE_GROUP_END \<noteq> 0 \<longleftrightarrow> (\<exists>i<S. k = 1 + i * (4 + 1) + 4)) \<and>
       (flag tcb AND TCB_FLAG_END_TYPE_GRID_END \<noteq> 0 \<longleftrightarrow> k = 1 + (S - 1) * (4 + 1) + 4)"
    if k: "k < 1 + 5 * S" for k
  proof (cases "k = 0")
    case True
    have "\<not> (\<exists>i<S. (0::nat) = 1 + i * (4 + 1) + 4)" by simp
    moreover have "(0::nat) \<noteq> 1 + (S - 1) * (4 + 1) + 4" by simp
    ultimately show ?thesis
      using True slot0 grid_init_tcb_flag[of jobB]
      by (intro exI[of _ "grid_init_tcb jobB"]) (simp add: tcb_at_def)
  next
    case False
    then have "1 + 5 * 0 \<le> k \<and> k < 1 + 5 * (0 + S)" using k by simp
    from L[THEN conjunct2, THEN conjunct1, rule_format, OF this]
    obtain tcb where t0: "tcb_mem mem' (tcbs_pa + k * sizeof_tcb_t) = Some tcb \<and>
      TCB_FLAG_TASK_TYPE (flag tcb) =
         (if k mod 5 = 1 then TCB_FLAG_TASK_TYPE_GROUP_INIT else TCB_FLAG_TASK_TYPE_TASK) \<and>
      (flag tcb AND TCB_FLAG_END_TYPE_GROUP_END \<noteq> 0 \<longleftrightarrow> k mod 5 = 0) \<and>
      (flag tcb AND TCB_FLAG_END_TYPE_GRID_END \<noteq> 0 \<longleftrightarrow> k = 5 * S)" ..
    note tcb = t0[THEN conjunct1] t0[THEN conjunct2, THEN conjunct1]
      t0[THEN conjunct2, THEN conjunct2, THEN conjunct1]
      t0[THEN conjunct2, THEN conjunct2, THEN conjunct2]
    have e: "5 * S = 1 + (S - 1) * (4 + 1) + 4" using assms(2) by simp
    have a: "tcb_at mem tcbs_pa k = Some tcb" using tcb(1) by (simp add: tcb_at_def m)
    have b: "TCB_FLAG_TASK_TYPE (flag tcb) =
         (if k = 0 then TCB_FLAG_TASK_TYPE_GRID_INIT
          else if \<exists>i<S. k = 1 + i * (4 + 1) then TCB_FLAG_TASK_TYPE_GROUP_INIT
          else TCB_FLAG_TASK_TYPE_TASK)"
      unfolding group_slot_iff[OF k, symmetric] using tcb(2) False by simp
    have c: "flag tcb AND TCB_FLAG_END_TYPE_GROUP_END \<noteq> 0 \<longleftrightarrow> (\<exists>i<S. k = 1 + i * (4 + 1) + 4)"
      unfolding last_slot_iff[OF k, symmetric] using tcb(3) False by simp
    have d: "flag tcb AND TCB_FLAG_END_TYPE_GRID_END \<noteq> 0 \<longleftrightarrow> k = 1 + (S - 1) * (4 + 1) + 4"
      unfolding e[symmetric] by (rule tcb(4))
    show ?thesis by (intro exI[of _ tcb] conjI a b c d)
  qed
  show ?thesis
    using totj main by (simp add: mult.commute)
qed


lemma config_tcb_deps_succeeds:
  assumes "sg < length (m_subgraphs graph)" and "s = m_subgraphs graph ! sg"
    and "precursor_cnt s = SUBG_DEPEND_NONE \<or> precursor_cnt s = SUBG_DEPEND_PREALL \<or>
         (1 \<le> precursor_cnt s \<and> precursor_cnt s \<le> 4 \<and>
          nat (precursor_cnt s) \<le> length (precursors s) \<and>
          (\<forall>k<nat (precursor_cnt s). precursors s ! k \<le> 0x7FFF))"
  shows "\<exists>t. config_tcb_deps job graph tcb sg = Inr t"
proof -
  have s: "get_subgraph graph sg = Inr s" using assms(1,2) by (simp add: get_subgraph_def)
  from assms(3) show ?thesis
  proof (elim disjE conjE)
    assume "precursor_cnt s = SUBG_DEPEND_NONE"
    from config_tcb_deps_none[OF s this] show ?thesis by simp
  next
    assume "precursor_cnt s = SUBG_DEPEND_PREALL"
    from config_tcb_deps_preall[OF s this] show ?thesis by simp
  next
    assume c: "1 \<le> precursor_cnt s" "precursor_cnt s \<le> 4"
      "nat (precursor_cnt s) \<le> length (precursors s)"
      "\<forall>k<nat (precursor_cnt s). precursors s ! k \<le> 0x7FFF"
    from config_tcb_deps_group_ok[OF s c, of job tcb] show ?thesis by blast
  qed
qed

lemma task_tcb_succeeds:
  assumes "sg < length (m_subgraphs graph)" and "sg < m_sg_cnt job" and "t < m_task_per_sg job"
    and "\<And>tcb. \<exists>r. config_tcb_deps job graph tcb sg = Inr r"
  shows "\<exists>r. task_tcb job graph sg t = Inr r"
proof -
  have s: "get_subgraph graph sg = Inr (m_subgraphs graph ! sg)"
    using assms(1) by (simp add: get_subgraph_def)
  have nofail: "config_tcb_deps job graph tcb sg \<noteq> Inl e" for tcb e
    using assms(4)[of tcb] by auto
  show ?thesis
  proof (cases "t = 0")
    case True
    then show ?thesis
      using assms(2,3) s
      by (simp add: task_tcb_def Let_def nofail split: sum.splits split del: if_split)
  next
    case False
    then show ?thesis
      using assms(2,3) s
      by (simp add: task_tcb_def Let_def split: sum.splits split del: if_split)
  qed
qed

lemma setup_tcb_group_loop_succeeds:
  assumes "\<And>t'. t' < t + n \<Longrightarrow> \<exists>r. task_tcb job graph sg t' = Inr r"
  shows "\<exists>mem'. setup_tcb_group_loop job graph sg t n mem = Inr mem'"
  using assms
proof (induction n arbitrary: t mem)
  case 0
  then show ?case by simp
next
  case (Suc n)
  from Suc.prems[of t] obtain r where r: "task_tcb job graph sg t = Inr r" by auto
  have "\<exists>mem'. setup_tcb_group_loop job graph sg (Suc t) n
          (mem_write_tcb mem (task_tcb_pa job sg t) r) = Inr mem'"
    by (rule Suc.IH) (use Suc.prems in simp)
  then show ?case using r by (simp add: setup_task_tcb_def)
qed

lemma setup_tcb_chain_loop_succeeds:
  assumes "i + n \<le> S" "S = length (m_subgraphs graph)" "m_sg_cnt job = S"
    and "0 < m_task_per_sg job"
    and "\<forall>j<S. unat (sg_id (m_subgraphs graph ! j)) < S"
    and "\<And>j tcb jb. j < S \<Longrightarrow> \<exists>r. config_tcb_deps jb graph tcb j = Inr r"
  shows "\<exists>r. setup_tcb_chain_loop graph i n job mem = Inr r"
  using assms(1,3,4)
proof (induction n arbitrary: i job mem)
  case 0
  then show ?case by simp
next
  case (Suc n)
  have iS: "i < S" using Suc.prems(1) by simp
  have gs: "get_subgraph graph i = Inr (m_subgraphs graph ! i)"
    using iS assms(2) by (simp add: get_subgraph_def)
  let ?id = "unat (sg_id (m_subgraphs graph ! i))"
  have idS: "?id < S" using assms(5) iS by simp
  from assms(6)[OF idS] obtain g where g: "group_init_tcb job graph i = Inr g"
    unfolding group_init_tcb_def gs by auto
  let ?m1 = "mem_write_tcb mem (group_init_tcb_pa job i) g"
  have "\<exists>r. task_tcb job graph ?id t' = Inr r" if "t' < 0 + m_task_per_sg job" for t'
    by (rule task_tcb_succeeds) (use idS assms(2,6) Suc.prems(2) that in auto)
  from setup_tcb_group_loop_succeeds[where t=0 and n="m_task_per_sg job" and mem="?m1", OF this]
  obtain mem2 where "setup_tcb_group_loop job graph ?id 0 (m_task_per_sg job) ?m1 = Inr mem2"
    by blast
  then have grp: "setup_tcb_group job graph ?id ?m1 =
      Inr (job\<lparr>m_group_id_idx := m_group_id_idx job + 1\<rparr>, mem2)"
    by (simp add: setup_tcb_group_def)
  have "\<exists>r. setup_tcb_chain_loop graph (Suc i) n
          (job\<lparr>m_group_id_idx := m_group_id_idx job + 1\<rparr>) mem2 = Inr r"
    by (rule Suc.IH) (use Suc.prems in simp_all)
  then show ?case using g gs grp by simp
qed

lemma init_succeeds:
  assumes "S = length (m_subgraphs graph)" and "\<not> m_fake_subgraph graph"
    and "\<forall>j<S. unat (sg_id (m_subgraphs graph ! j)) < S"
    and "\<forall>j<S. precursor_cnt (m_subgraphs graph ! j) = SUBG_DEPEND_NONE \<or>
           precursor_cnt (m_subgraphs graph ! j) = SUBG_DEPEND_PREALL \<or>
           (1 \<le> precursor_cnt (m_subgraphs graph ! j) \<and> precursor_cnt (m_subgraphs graph ! j) \<le> 4 \<and>
            nat (precursor_cnt (m_subgraphs graph ! j)) \<le> length (precursors (m_subgraphs graph ! j)) \<and>
            (\<forall>k<nat (precursor_cnt (m_subgraphs graph ! j)).
                precursors (m_subgraphs graph ! j) ! k \<le> 0x7FFF))"
  shows "\<exists>job mem. init job0 graph core_cnt grid_id start_group_id tcbs_pa mem0 = Inr (job, mem)"
proof -
  have cnt: "get_subgraph_cnt graph = S" using assms(1,2) by (simp add: get_subgraph_cnt_def)
  define jobA where "jobA = set_job_params (job0\<lparr>m_core_cnt := core_cnt\<rparr>) S 4 core_cnt"
  define jobB where "jobB = jobA\<lparr>m_grid_id := grid_id, m_start_group_id := start_group_id,
                    m_group_id_idx := start_group_id, m_tcbs_pa := tcbs_pa\<rparr>"
  define mem1 where "mem1 = mem_zeroize_tcbs mem0 tcbs_pa (m_tot_tcb_cnt jobB)"
  have B: "m_sg_cnt jobB = S" "0 < m_task_per_sg jobB"
    by (simp_all add: jobB_def jobA_def set_job_params_def Let_def)
  have cfg: "\<exists>r. config_tcb_deps jb graph tcb j = Inr r" if "j < S" for j tcb jb
    by (rule config_tcb_deps_succeeds[OF _ refl]) (use that assms(1,4) in auto)
  have "0 + S \<le> S" by simp
  from setup_tcb_chain_loop_succeeds[OF this assms(1) B(1) B(2) assms(3) cfg,
      of "mem_write_tcb mem1 (m_tcbs_pa jobB) (grid_init_tcb jobB)"]
  obtain r where "setup_tcb_chain_loop graph 0 S jobB
      (mem_write_tcb mem1 (m_tcbs_pa jobB) (grid_init_tcb jobB)) = Inr r" by blast
  then obtain r' where "setup_tcb_chain jobB graph mem1 = Inr r'"
    by (cases r) (simp add: setup_tcb_chain_def cnt)
  then show ?thesis
    unfolding init_def cnt Let_def jobA_def[symmetric] jobB_def[symmetric] mem1_def[symmetric]
    by (cases r') (auto split: option.splits)
qed


text \<open>
  Claim C1 at the example graph of two subgraphs: \<open>init\<close> succeeds, the buffer holds 11
  TCBs, TCB 0 is the GRID_INIT, TCB 6 the second GROUP_INIT, and TCB 10, the last task of
  the last subgraph, is a TASK with both end flags.
\<close>

theorem tcb_chain_layout_witness:
  "\<exists>job mem. init example_job example_graph 1 3 5 0x1000 example_memory = Inr (job, mem) \<and>
     m_tot_tcb_cnt job = 11 \<and>
     (\<exists>tcb. tcb_at mem 0x1000 0 = Some tcb \<and>
        TCB_FLAG_TASK_TYPE (flag tcb) = TCB_FLAG_TASK_TYPE_GRID_INIT) \<and>
     (\<exists>tcb. tcb_at mem 0x1000 6 = Some tcb \<and>
        TCB_FLAG_TASK_TYPE (flag tcb) = TCB_FLAG_TASK_TYPE_GROUP_INIT) \<and>
     (\<exists>tcb. tcb_at mem 0x1000 10 = Some tcb \<and>
        TCB_FLAG_TASK_TYPE (flag tcb) = TCB_FLAG_TASK_TYPE_TASK \<and>
        flag tcb AND TCB_FLAG_END_TYPE_GROUP_END \<noteq> 0 \<and>
        flag tcb AND TCB_FLAG_END_TYPE_GRID_END \<noteq> 0)"
proof -
  have len: "2 = length (m_subgraphs example_graph)"
    by (simp add: example_graph_simps)
  have nf: "\<not> m_fake_subgraph example_graph" by (simp add: example_graph_simps)
  have ids: "\<forall>j<2. unat (sg_id (m_subgraphs example_graph ! j)) = j"
    by (simp add: example_graph_simps example_subgraph_simps less_Suc_eq numeral_2_eq_2)
  have deps: "\<forall>j<2. precursor_cnt (m_subgraphs example_graph ! j) = SUBG_DEPEND_NONE \<or>
           precursor_cnt (m_subgraphs example_graph ! j) = SUBG_DEPEND_PREALL \<or>
           (1 \<le> precursor_cnt (m_subgraphs example_graph ! j) \<and>
            precursor_cnt (m_subgraphs example_graph ! j) \<le> 4 \<and>
            nat (precursor_cnt (m_subgraphs example_graph ! j))
              \<le> length (precursors (m_subgraphs example_graph ! j)) \<and>
            (\<forall>k<nat (precursor_cnt (m_subgraphs example_graph ! j)).
                precursors (m_subgraphs example_graph ! j) ! k \<le> 0x7FFF))"
    by (simp add: example_graph_simps example_subgraph_simps less_Suc_eq numeral_2_eq_2
        SUBG_DEPEND_NONE_def)
  have rng: "\<forall>j<2. unat (sg_id (m_subgraphs example_graph ! j)) < 2"
    using ids by simp
  from init_succeeds[OF len nf rng deps, of example_job 1 3 5 "0x1000" example_memory]
  obtain job mem where
    i: "init example_job example_graph 1 3 5 0x1000 example_memory = Inr (job, mem)" by blast
  have b: "1 + (2::nat) * 5 < 2 ^ 32" by simp
  note T = tcb_chain_layout[OF len _ nf b ids i]
  have T1: "m_tot_tcb_cnt job = 11" using T by simp
  note T2 = T[THEN conjunct2, rule_format, unfolded T1]
  have g: "\<exists>i<2::nat. (6::nat) = 1 + i * (4 + 1)" by (intro exI[of _ 1]) simp
  have l: "\<exists>i<2::nat. (10::nat) = 1 + i * (4 + 1) + 4" by (intro exI[of _ 1]) simp
  have ng: "i * 5 \<noteq> 9" for i :: nat by presburger
  have k0: "\<exists>tcb. tcb_at mem 0x1000 0 = Some tcb \<and>
        TCB_FLAG_TASK_TYPE (flag tcb) = TCB_FLAG_TASK_TYPE_GRID_INIT"
    using T2[of 0] by auto
  have k6: "\<exists>tcb. tcb_at mem 0x1000 6 = Some tcb \<and>
        TCB_FLAG_TASK_TYPE (flag tcb) = TCB_FLAG_TASK_TYPE_GROUP_INIT"
    using T2[of 6] g by auto
  have k10: "\<exists>tcb. tcb_at mem 0x1000 10 = Some tcb \<and>
        TCB_FLAG_TASK_TYPE (flag tcb) = TCB_FLAG_TASK_TYPE_TASK \<and>
        flag tcb AND TCB_FLAG_END_TYPE_GROUP_END \<noteq> 0 \<and>
        flag tcb AND TCB_FLAG_END_TYPE_GRID_END \<noteq> 0"
    using T2[of 10] l ng by auto
  show ?thesis
    by (intro exI[of _ job] exI[of _ mem] conjI i T1 k0 k6 k10)
qed


subsection \<open>What the builder writes: dependencies, rejected counts, ids that are not positions\<close>

lemma slot_arith:
  fixes i x y t t' :: nat
  shows "t < 4 \<Longrightarrow> 1 + 5 * i \<noteq> 2 + 5 * x + t"
    and "t < 4 \<Longrightarrow> t' < 4 \<Longrightarrow> x \<noteq> y \<Longrightarrow> 2 + 5 * x + t \<noteq> 2 + 5 * y + t'"
  by presburger+

lemma slot_eq_iff: "pa + k * sizeof_tcb_t = pa + k' * sizeof_tcb_t \<longleftrightarrow> k = k'"
  by (simp add: sizeof_tcb_t_def)

lemma group_idx_step:
  fixes x :: u16
  assumes "i < i'"
  shows "x + 1 + of_nat (i' - Suc i) = x + of_nat (i' - i)"
proof -
  have "i' - i = Suc (i' - Suc i)" using assms by simp
  then show ?thesis by simp
qed

lemma setup_tcb_chain_loop_tcbs:
  assumes "setup_tcb_chain_loop graph i n job mem = Inr (job', mem')"
    and "i + n \<le> S" "S = length (m_subgraphs graph)"
    and "m_task_per_sg job = 4" "1 + S * 5 < 2 ^ 32"
    and "\<forall>j<S. unat (sg_id (m_subgraphs graph ! j)) < S"
  shows "job' = job\<lparr>m_group_id_idx := m_group_id_idx job + of_nat n\<rparr> \<and>
    (\<forall>a. (\<forall>i'. i \<le> i' \<and> i' < i + n \<longrightarrow>
              a \<noteq> m_tcbs_pa job + (1 + 5 * i') * sizeof_tcb_t \<and>
              (\<forall>t<4. a \<noteq> m_tcbs_pa job +
                          (2 + 5 * unat (sg_id (m_subgraphs graph ! i')) + t) * sizeof_tcb_t)) \<longrightarrow>
         tcb_mem mem' a = tcb_mem mem a) \<and>
    (\<forall>i'. i \<le> i' \<and> i' < i + n \<longrightarrow>
       (\<exists>g. group_init_tcb (job\<lparr>m_group_id_idx := m_group_id_idx job + of_nat (i' - i)\<rparr>) graph i'
              = Inr g \<and>
            tcb_mem mem' (m_tcbs_pa job + (1 + 5 * i') * sizeof_tcb_t) = Some g)) \<and>
    (\<forall>i'. i \<le> i' \<and> i' < i + n \<and>
          (\<forall>i''. i' < i'' \<and> i'' < i + n \<longrightarrow>
              unat (sg_id (m_subgraphs graph ! i'')) \<noteq> unat (sg_id (m_subgraphs graph ! i'))) \<longrightarrow>
       (\<forall>t<4. \<exists>tt.
          task_tcb (job\<lparr>m_group_id_idx := m_group_id_idx job + of_nat (i' - i)\<rparr>) graph
            (unat (sg_id (m_subgraphs graph ! i'))) t = Inr tt \<and>
          tcb_mem mem' (m_tcbs_pa job +
             (2 + 5 * unat (sg_id (m_subgraphs graph ! i')) + t) * sizeof_tcb_t) = Some tt))"
  using assms(1,2,4)
proof (induction n arbitrary: i job mem)
  case 0
  from 0 have "job' = job" "mem' = mem" by simp_all
  then show ?case by auto
next
  case (Suc n)
  let ?pa = "m_tcbs_pa job"
  let ?ID = "\<lambda>j. unat (sg_id (m_subgraphs graph ! j))"
  have iS: "i < S" using Suc.prems(2) by simp
  have gs: "get_subgraph graph i = Inr (m_subgraphs graph ! i)"
    using iS assms(3) by (simp add: get_subgraph_def)
  have idS: "?ID i < S" using assms(6) iS by simp
  from Suc.prems(1) obtain g job1 mem1 where
    g: "group_init_tcb job graph i = Inr g"
    and grp: "setup_tcb_group job graph (?ID i)
                (mem_write_tcb mem (group_init_tcb_pa job i) g) = Inr (job1, mem1)"
    and rest: "setup_tcb_chain_loop graph (Suc i) n job1 mem1 = Inr (job', mem')"
    by (auto simp add: gs split: sum.splits)
  let ?m0 = "mem_write_tcb mem (group_init_tcb_pa job i) g"
  have gpa: "group_init_tcb_pa job i = ?pa + (1 + 5 * i) * sizeof_tcb_t"
    by (rule group_init_tcb_pa_eq[OF Suc.prems(3) iS assms(5)])
  note G = setup_tcb_group_mem[OF grp Suc.prems(3) idS assms(5)]
  have j1: "job1 = job\<lparr>m_group_id_idx := m_group_id_idx job + 1\<rparr>" by (rule G(1))
  have f1: "m_tcbs_pa job1 = ?pa" "m_task_per_sg job1 = 4"
    "m_group_id_idx job1 = m_group_id_idx job + 1"
    using j1 Suc.prems(3) by simp_all
  have b1: "Suc i + n \<le> S" using Suc.prems(2) by simp
  note IH0 = Suc.IH[OF rest b1 f1(2), unfolded f1(1) f1(3)]
  note IHj = IH0[THEN conjunct1]
  note IHf = IH0[THEN conjunct2, THEN conjunct1, rule_format]
  note IHg = IH0[THEN conjunct2, THEN conjunct2, THEN conjunct1, rule_format]
  note IHt = IH0[THEN conjunct2, THEN conjunct2, THEN conjunct2, rule_format]
  have jj: "job1\<lparr>m_group_id_idx := x\<rparr> = job\<lparr>m_group_id_idx := x\<rparr>" for x
    unfolding j1 by simp
  show ?case
  proof (intro conjI allI impI)
    show "job' = job\<lparr>m_group_id_idx := m_group_id_idx job + of_nat (Suc n)\<rparr>"
      using IHj unfolding jj by (simp add: add.assoc)
  next
    fix a
    assume a: "\<forall>i'. i \<le> i' \<and> i' < i + Suc n \<longrightarrow>
              a \<noteq> ?pa + (1 + 5 * i') * sizeof_tcb_t \<and>
              (\<forall>t<4. a \<noteq> ?pa + (2 + 5 * ?ID i' + t) * sizeof_tcb_t)"
    have "tcb_mem mem' a = tcb_mem mem1 a"
    proof (rule IHf)
      fix i' assume "Suc i \<le> i' \<and> i' < Suc i + n"
      then have "i \<le> i' \<and> i' < i + Suc n" by simp
      then show "a \<noteq> ?pa + (1 + 5 * i') * sizeof_tcb_t \<and>
              (\<forall>t<4. a \<noteq> ?pa + (2 + 5 * ?ID i' + t) * sizeof_tcb_t)"
        using a by blast
    qed
    also have "\<dots> = tcb_mem ?m0 a"
    proof (rule G(2))
      have "i \<le> i \<and> i < i + Suc n" by simp
      then show "\<forall>t<4. a \<noteq> ?pa + (2 + 5 * ?ID i + t) * sizeof_tcb_t" using a by blast
    qed
    also have "\<dots> = tcb_mem mem a"
    proof -
      have "i \<le> i \<and> i < i + Suc n" by simp
      then have "a \<noteq> ?pa + (1 + 5 * i) * sizeof_tcb_t" using a by blast
      then show ?thesis by (simp add: tcb_mem_write gpa)
    qed
    finally show "tcb_mem mem' a = tcb_mem mem a" .
  next
    fix i' assume r: "i \<le> i' \<and> i' < i + Suc n"
    show "\<exists>g. group_init_tcb (job\<lparr>m_group_id_idx := m_group_id_idx job + of_nat (i' - i)\<rparr>) graph i'
              = Inr g \<and>
            tcb_mem mem' (?pa + (1 + 5 * i') * sizeof_tcb_t) = Some g"
    proof (cases "i' = i")
      case True
      let ?a = "?pa + (1 + 5 * i) * sizeof_tcb_t"
      have "tcb_mem mem' ?a = tcb_mem mem1 ?a"
      proof (rule IHf)
        fix k assume k: "Suc i \<le> k \<and> k < Suc i + n"
        then have n1: "1 + 5 * i \<noteq> 1 + 5 * k" by simp
        have n2: "\<forall>t<4. 1 + 5 * i \<noteq> 2 + 5 * ?ID k + t"
          using slot_arith(1)[of _ i "?ID k"] by blast
        show "?a \<noteq> ?pa + (1 + 5 * k) * sizeof_tcb_t \<and>
              (\<forall>t<4. ?a \<noteq> ?pa + (2 + 5 * ?ID k + t) * sizeof_tcb_t)"
          unfolding slot_eq_iff using n1 n2 by blast
      qed
      also have "\<dots> = tcb_mem ?m0 ?a"
      proof (rule G(2))
        have "\<forall>t<4. 1 + 5 * i \<noteq> 2 + 5 * ?ID i + t"
          using slot_arith(1)[of _ i "?ID i"] by blast
        then show "\<forall>t<4. ?a \<noteq> ?pa + (2 + 5 * ?ID i + t) * sizeof_tcb_t"
          unfolding slot_eq_iff .
      qed
      also have "\<dots> = Some g" by (simp add: tcb_mem_write gpa)
      finally have "tcb_mem mem' ?a = Some g" .
      moreover have "job\<lparr>m_group_id_idx := m_group_id_idx job + of_nat (i - i)\<rparr> = job" by simp
      ultimately show ?thesis using g True by simp
    next
      case False
      then have r': "Suc i \<le> i' \<and> i' < Suc i + n" and lt: "i < i'" using r by simp_all
      from IHg[OF r'] obtain g' where g':
        "group_init_tcb (job1\<lparr>m_group_id_idx := m_group_id_idx job + 1 + of_nat (i' - Suc i)\<rparr>)
           graph i' = Inr g'"
        "tcb_mem mem' (?pa + (1 + 5 * i') * sizeof_tcb_t) = Some g'" by blast
      show ?thesis
        using g' unfolding jj group_idx_step[OF lt] by blast
    qed
  next
    fix i' t
    assume r: "i \<le> i' \<and> i' < i + Suc n \<and>
          (\<forall>i''. i' < i'' \<and> i'' < i + Suc n \<longrightarrow> ?ID i'' \<noteq> ?ID i')"
      and t: "t < (4::nat)"
    show "\<exists>tt. task_tcb (job\<lparr>m_group_id_idx := m_group_id_idx job + of_nat (i' - i)\<rparr>) graph
            (?ID i') t = Inr tt \<and>
          tcb_mem mem' (?pa + (2 + 5 * ?ID i' + t) * sizeof_tcb_t) = Some tt"
    proof (cases "i' = i")
      case True
      let ?a = "?pa + (2 + 5 * ?ID i + t) * sizeof_tcb_t"
      from G(3)[OF t] obtain tt where tt: "task_tcb job graph (?ID i) t = Inr tt"
        "tcb_mem mem1 ?a = Some tt" by blast
      have "tcb_mem mem' ?a = tcb_mem mem1 ?a"
      proof (rule IHf)
        fix k assume k: "Suc i \<le> k \<and> k < Suc i + n"
        then have "i' < k \<and> k < i + Suc n" using True by simp
        then have ne: "?ID k \<noteq> ?ID i" using r True by blast
        have n1: "2 + 5 * ?ID i + t \<noteq> 1 + 5 * k"
          using slot_arith(1)[OF t, of k "?ID i"] by simp
        have n2: "\<forall>t'<4. 2 + 5 * ?ID i + t \<noteq> 2 + 5 * ?ID k + t'"
          using slot_arith(2)[OF t _ ne[symmetric]] by blast
        show "?a \<noteq> ?pa + (1 + 5 * k) * sizeof_tcb_t \<and>
              (\<forall>t'<4. ?a \<noteq> ?pa + (2 + 5 * ?ID k + t') * sizeof_tcb_t)"
          unfolding slot_eq_iff using n1 n2 by blast
      qed
      then have "tcb_mem mem' ?a = Some tt" using tt(2) by simp
      moreover have "job\<lparr>m_group_id_idx := m_group_id_idx job + of_nat (i - i)\<rparr> = job" by simp
      ultimately show ?thesis using tt(1) True by simp
    next
      case False
      then have lt: "i < i'" using r by simp
      have r': "Suc i \<le> i' \<and> i' < Suc i + n \<and>
          (\<forall>i''. i' < i'' \<and> i'' < Suc i + n \<longrightarrow> ?ID i'' \<noteq> ?ID i')"
        using r lt by simp
      from IHt[OF r' t] obtain tt where tt:
        "task_tcb (job1\<lparr>m_group_id_idx := m_group_id_idx job + 1 + of_nat (i' - Suc i)\<rparr>) graph
            (?ID i') t = Inr tt"
        "tcb_mem mem' (?pa + (2 + 5 * ?ID i' + t) * sizeof_tcb_t) = Some tt" by blast
      show ?thesis
        using tt unfolding jj group_idx_step[OF lt] by blast
    qed
  qed
qed

lemma mem_write_tcbs_read:
  "k < length ts \<Longrightarrow> tcb_mem (mem_write_tcbs mem pa ts) (pa + k * sizeof_tcb_t) = ts ! k"
proof (induction ts arbitrary: mem pa k)
  case Nil
  then show ?case by simp
next
  case (Cons t ts)
  show ?case
  proof (cases k)
    case 0
    have "\<forall>j<length ts. pa \<noteq> (pa + sizeof_tcb_t) + j * sizeof_tcb_t"
      by (simp add: sizeof_tcb_t_def)
    from mem_write_tcbs_frame[OF this] show ?thesis using 0 by simp
  next
    case (Suc j)
    then have "j < length ts" using Cons.prems by simp
    from Cons.IH[OF this, of "mem\<lparr>tcb_mem := (tcb_mem mem)(pa := t)\<rparr>" "pa + sizeof_tcb_t"]
    show ?thesis using Suc by (simp add: add.assoc)
  qed
qed

lemma mem_zeroize_tcbs_read:
  "k < n \<Longrightarrow> tcb_mem (mem_zeroize_tcbs mem pa n) (pa + k * sizeof_tcb_t) = Some tcb_zero"
  unfolding mem_zeroize_tcbs_def using mem_write_tcbs_read[of k "replicate n (Some tcb_zero)" mem pa]
  by simp

text \<open>What \<open>init\<close> does for a graph with subgraphs, as one step.\<close>

lemma init_chain:
  assumes "S = length (m_subgraphs graph)" and "S \<noteq> 0" and "\<not> m_fake_subgraph graph"
    and "init job0 graph core_cnt grid_id start_group_id tcbs_pa mem0 = Inr (job, mem)"
  shows "\<exists>jobB job2.
           m_sg_cnt jobB = S \<and> m_task_per_sg jobB = 4 \<and> m_tcbs_pa jobB = tcbs_pa \<and>
           m_start_group_id jobB = start_group_id \<and> m_group_id_idx jobB = start_group_id \<and>
           m_tot_tcb_cnt jobB = (1 + S * 5) mod 2 ^ 32 \<and>
           setup_tcb_chain_loop graph 0 S jobB
             (mem_write_tcb (mem_zeroize_tcbs mem0 tcbs_pa ((1 + S * 5) mod 2 ^ 32)) tcbs_pa
                (grid_init_tcb jobB)) = Inr (job2, mem) \<and>
           m_tot_tcb_cnt job = m_tot_tcb_cnt job2 \<and>
           m_start_group_id job = m_start_group_id job2"
proof -
  have cnt: "get_subgraph_cnt graph = S" using assms(1,3) by (simp add: get_subgraph_cnt_def)
  define jobA where "jobA = set_job_params (job0\<lparr>m_core_cnt := core_cnt\<rparr>) S 4 core_cnt"
  define jobB where "jobB = jobA\<lparr>m_grid_id := grid_id, m_start_group_id := start_group_id,
                    m_group_id_idx := start_group_id, m_tcbs_pa := tcbs_pa\<rparr>"
  have B: "m_sg_cnt jobB = S" "m_task_per_sg jobB = 4" "m_tcbs_pa jobB = tcbs_pa"
    "m_start_group_id jobB = start_group_id" "m_group_id_idx jobB = start_group_id"
    "m_tot_tcb_cnt jobB = (1 + S * 5) mod 2 ^ 32"
    by (simp_all add: jobB_def jobA_def set_job_params_def Let_def)
  define mem1 where "mem1 = mem_zeroize_tcbs mem0 tcbs_pa (m_tot_tcb_cnt jobB)"
  from assms(4) obtain job' where
    ch: "setup_tcb_chain jobB graph mem1 = Inr (job', mem)"
    and j: "job = (case m_backup_tcb job' of None \<Rightarrow> job'
              | Some b \<Rightarrow> job'\<lparr>m_backup_tcb :=
                    Some (mem_read_tcbs mem (m_tcbs_pa job') (m_tot_tcb_cnt job'))\<rparr>)"
    unfolding init_def cnt Let_def jobA_def[symmetric] jobB_def[symmetric] mem1_def[symmetric]
    using assms(2) by (auto split: sum.splits)
  from ch obtain job2 where
    lp: "setup_tcb_chain_loop graph 0 S jobB (mem_write_tcb mem1 tcbs_pa (grid_init_tcb jobB))
           = Inr (job2, mem)"
    and j2: "job' = job2\<lparr>m_status := AIPU_JOB_STATUS_INIT\<rparr>"
    by (auto simp add: setup_tcb_chain_def cnt B(3) split: sum.splits)
  have t: "m_tot_tcb_cnt job = m_tot_tcb_cnt job2" "m_start_group_id job = m_start_group_id job2"
    using j j2 by (simp_all split: option.splits)
  show ?thesis
    using B lp[unfolded mem1_def B(6)] t
    by (intro exI[of _ jobB] exI[of _ job2] conjI)
qed

lemma example_graph_repeated_ids_simps:
  "m_subgraphs example_graph_repeated_ids = [example_subgraph 0 0 [], example_subgraph 0 0 []]"
  "m_fake_subgraph example_graph_repeated_ids = False"
  by (simp_all add: example_graph_repeated_ids_def)

text \<open>
  Claim C1 as it stands does not hold: the two subgraphs of the example both carry the
  id 0. \<open>init\<close> succeeds and the buffer holds 11 TCBs, but the task TCBs of both
  subgraphs are written to the indices 2 to 5; the TCBs at the indices 7 and 10 stay
  zero, so that TCB 7 has the type GRID_INIT and not TASK, and TCB 10, the last task
  of the last subgraph, carries no GRID_END flag.
\<close>

theorem tcb_chain_layout_repeated_ids:
  "\<exists>job mem.
     init example_job example_graph_repeated_ids 1 3 5 0x1000 example_memory = Inr (job, mem) \<and>
     m_tot_tcb_cnt job = 11 \<and>
     tcb_at mem 0x1000 7 = Some tcb_zero \<and>
     tcb_at mem 0x1000 10 = Some tcb_zero \<and>
     TCB_FLAG_TASK_TYPE (flag tcb_zero) = TCB_FLAG_TASK_TYPE_GRID_INIT \<and>
     TCB_FLAG_TASK_TYPE (flag tcb_zero) \<noteq> TCB_FLAG_TASK_TYPE_TASK \<and>
     flag tcb_zero AND TCB_FLAG_END_TYPE_GRID_END = 0"
proof -
  let ?G = example_graph_repeated_ids
  note gs = example_graph_repeated_ids_simps example_subgraph_simps
  have len: "2 = length (m_subgraphs ?G)" by (simp add: gs)
  have nf: "\<not> m_fake_subgraph ?G" by (simp add: gs)
  have id0: "unat (sg_id (m_subgraphs ?G ! j)) = 0" if "j < 2" for j
    using that by (cases j) (simp_all add: gs less_Suc_eq numeral_2_eq_2)
  have rng: "\<forall>j<2. unat (sg_id (m_subgraphs ?G ! j)) < 2" using id0 by simp
  have cnt0: "precursor_cnt (m_subgraphs ?G ! j) = SUBG_DEPEND_NONE" if "j < 2" for j
    using that by (cases j) (simp_all add: gs less_Suc_eq numeral_2_eq_2 SUBG_DEPEND_NONE_def)
  have deps: "\<forall>j<2. precursor_cnt (m_subgraphs ?G ! j) = SUBG_DEPEND_NONE \<or>
           precursor_cnt (m_subgraphs ?G ! j) = SUBG_DEPEND_PREALL \<or>
           (1 \<le> precursor_cnt (m_subgraphs ?G ! j) \<and>
            precursor_cnt (m_subgraphs ?G ! j) \<le> 4 \<and>
            nat (precursor_cnt (m_subgraphs ?G ! j))
              \<le> length (precursors (m_subgraphs ?G ! j)) \<and>
            (\<forall>k<nat (precursor_cnt (m_subgraphs ?G ! j)).
                precursors (m_subgraphs ?G ! j) ! k \<le> 0x7FFF))"
    using cnt0 by simp
  from init_succeeds[OF len nf rng deps, of example_job 1 3 5 "0x1000" example_memory]
  obtain job mem where
    i: "init example_job ?G 1 3 5 0x1000 example_memory = Inr (job, mem)" by blast
  have S0: "(2::nat) \<noteq> 0" by simp
  from init_chain[OF len S0 nf i] obtain jobB job2 where
    B: "m_sg_cnt jobB = 2" "m_task_per_sg jobB = 4" "m_tcbs_pa jobB = 0x1000"
      "m_tot_tcb_cnt jobB = (1 + 2 * 5) mod 2 ^ 32"
    and lp: "setup_tcb_chain_loop ?G 0 2 jobB
             (mem_write_tcb (mem_zeroize_tcbs example_memory 0x1000 ((1 + 2 * 5) mod 2 ^ 32)) 0x1000
                (grid_init_tcb jobB)) = Inr (job2, mem)"
    and t: "m_tot_tcb_cnt job = m_tot_tcb_cnt job2"
    by blast
  have b: "1 + (2::nat) * 5 < 2 ^ 32" by simp
  have le: "0 + (2::nat) \<le> 2" by simp
  note L = setup_tcb_chain_loop_tcbs[OF lp le len B(2) b rng, unfolded B(3)]
  have tot: "m_tot_tcb_cnt job = 11"
    using t L[THEN conjunct1] B(4) by simp
  have zero: "tcb_mem mem (0x1000 + k * sizeof_tcb_t) = Some tcb_zero"
    if k: "k = 7 \<or> k = 10" for k
  proof -
    have "tcb_mem mem (0x1000 + k * sizeof_tcb_t) =
          tcb_mem (mem_write_tcb (mem_zeroize_tcbs example_memory 0x1000 ((1 + 2 * 5) mod 2 ^ 32))
             0x1000 (grid_init_tcb jobB)) (0x1000 + k * sizeof_tcb_t)"
    proof (rule L[THEN conjunct2, THEN conjunct1, rule_format])
      fix i' :: nat assume "0 \<le> i' \<and> i' < 0 + 2"
      then have i': "i' < 2" by simp
      then have c: "i' = 0 \<or> i' = 1" by auto
      have n1: "k \<noteq> 1 + 5 * i'" using k c by auto
      have n2: "\<forall>t<4. k \<noteq> 2 + 5 * unat (sg_id (m_subgraphs ?G ! i')) + t"
        unfolding id0[OF i'] using k by auto
      show "0x1000 + k * sizeof_tcb_t \<noteq> 0x1000 + (1 + 5 * i') * sizeof_tcb_t \<and>
         (\<forall>t<4. 0x1000 + k * sizeof_tcb_t \<noteq>
                 0x1000 + (2 + 5 * unat (sg_id (m_subgraphs ?G ! i')) + t) * sizeof_tcb_t)"
        unfolding slot_eq_iff using n1 n2 by blast
    qed
    also have "\<dots> = tcb_mem (mem_zeroize_tcbs example_memory 0x1000 ((1 + 2 * 5) mod 2 ^ 32))
                        (0x1000 + k * sizeof_tcb_t)"
      using k by (auto simp add: tcb_mem_write sizeof_tcb_t_def)
    also have "\<dots> = Some tcb_zero"
      by (rule mem_zeroize_tcbs_read) (use k in auto)
    finally show ?thesis .
  qed
  have z7: "tcb_at mem 0x1000 7 = Some tcb_zero" using zero[of 7] by (simp add: tcb_at_def)
  have z10: "tcb_at mem 0x1000 10 = Some tcb_zero" using zero[of 10] by (simp add: tcb_at_def)
  have f1: "TCB_FLAG_TASK_TYPE (flag tcb_zero) = TCB_FLAG_TASK_TYPE_GRID_INIT"
    by (simp add: tcb_zero_def TCB_FLAG_TASK_TYPE_def TCB_FLAG_TASK_TYPE_GRID_INIT_def)
  have f2: "TCB_FLAG_TASK_TYPE (flag tcb_zero) \<noteq> TCB_FLAG_TASK_TYPE_TASK"
    by (simp add: tcb_zero_def TCB_FLAG_TASK_TYPE_def TCB_FLAG_TASK_TYPE_TASK_def)
  have f3: "flag tcb_zero AND TCB_FLAG_END_TYPE_GRID_END = 0"
    by (simp add: tcb_zero_def)
  show ?thesis
    by (intro exI[of _ job] exI[of _ mem] conjI i tot z7 z10 f1 f2 f3)
qed













section \<open>Proofs: ordering of the I/O tensor descriptors\<close>


lemma sort_io_tensor_loop_invalid:
  "\<exists>t\<in>set rest. unat (tensor_id t) \<ge> n \<Longrightarrow> fst (sort_io_tensor_loop n rest i ts) = AIPU_STATUS_ERROR_INVALID_GBIN"
  by (induction rest arbitrary: i ts) auto

lemma sort_io_tensor_loop_success:
  "\<forall>t\<in>set rest. unat (tensor_id t) < n \<Longrightarrow> fst (sort_io_tensor_loop n rest i ts) = AIPU_STATUS_SUCCESS"
  by (induction rest arbitrary: i ts) auto

lemma sort_io_tensor_loop_length:
  "length (snd (sort_io_tensor_loop n rest i ts)) = length ts"
  by (induction rest arbitrary: i ts) auto

lemma sort_io_tensor_loop_inv:
  assumes "length ts = n" "i + length rest = n"
    "\<forall>t\<in>set rest. unat (tensor_id t) < n"
    "\<forall>j<length rest. ts ! (i + j) = rest ! j \<or> unat (tensor_id (ts ! (i + j))) = i + j"
    "k < n"
  shows "unat (tensor_id (snd (sort_io_tensor_loop n rest i ts) ! k)) = k \<or>
         (snd (sort_io_tensor_loop n rest i ts) ! k = ts ! k \<and> (\<forall>t\<in>set rest. unat (tensor_id t) \<noteq> k))"
  using assms
proof (induction rest arbitrary: i ts)
  case Nil
  then show ?case by simp
next
  case (Cons t rest)
  let ?m = "unat (tensor_id t)"
  let ?ts2 = "if ?m \<noteq> i then ts[?m := t] else ts"
  have m: "?m < n" using Cons.prems(3) by simp
  have len2: "length ?ts2 = n" using Cons.prems(1) by simp
  have inv2: "\<forall>j<length rest. ?ts2 ! (Suc i + j) = rest ! j \<or> unat (tensor_id (?ts2 ! (Suc i + j))) = Suc i + j"
  proof (intro allI impI)
    fix j assume j: "j < length rest"
    from Cons.prems(4) j have old: "ts ! (i + Suc j) = (t # rest) ! Suc j \<or> unat (tensor_id (ts ! (i + Suc j))) = i + Suc j"
      by (metis Suc_less_eq length_Cons)
    show "?ts2 ! (Suc i + j) = rest ! j \<or> unat (tensor_id (?ts2 ! (Suc i + j))) = Suc i + j"
    proof (cases "?m \<noteq> i \<and> ?m = Suc i + j")
      case True
      then show ?thesis using m Cons.prems(1) by simp
    next
      case False
      then have "?ts2 ! (Suc i + j) = ts ! (i + Suc j)" by auto
      then show ?thesis using old by simp
    qed
  qed
  have IH: "unat (tensor_id (snd (sort_io_tensor_loop n rest (Suc i) ?ts2) ! k)) = k \<or>
         (snd (sort_io_tensor_loop n rest (Suc i) ?ts2) ! k = ?ts2 ! k \<and> (\<forall>t\<in>set rest. unat (tensor_id t) \<noteq> k))"
    using Cons.IH[of ?ts2 "Suc i"] len2 Cons.prems(2,3,5) inv2 by simp
  have res: "snd (sort_io_tensor_loop n (t # rest) i ts) = snd (sort_io_tensor_loop n rest (Suc i) ?ts2)"
    using m by simp
  from Cons.prems(4) have head: "ts ! i = t \<or> unat (tensor_id (ts ! i)) = i"
    by (metis add.right_neutral length_Cons nth_Cons_0 zero_less_Suc)
  show ?case
  proof (cases "?m = k")
    case True
    show ?thesis
    proof (cases "?m = i")
      case True
      with \<open>?m = k\<close> IH head res show ?thesis by auto
    next
      case False
      with \<open>?m = k\<close> IH res m Cons.prems(1) show ?thesis by auto
    qed
  next
    case False
    then have "?ts2 ! k = ts ! k" by auto
    with False IH res show ?thesis by auto
  qed
qed


lemma ids_onto:
  assumes "\<forall>t\<in>set ts. unat (tensor_id t) < length ts" "distinct (map tensor_id ts)" "k < length ts"
  shows "\<exists>t\<in>set ts. unat (tensor_id t) = k"
proof -
  let ?f = "\<lambda>t. unat (tensor_id t)"
  have "distinct (map ?f ts)"
    using assms(2) by (auto simp: distinct_map inj_on_def dest: unsigned_word_eqI)
  then have "card (set (map ?f ts)) = length (map ?f ts)"
    by (rule distinct_card)
  then have "card (set (map ?f ts)) = length ts" by simp
  moreover have "set (map ?f ts) \<subseteq> {0..<length ts}" using assms(1) by auto
  ultimately have "set (map ?f ts) = {0..<length ts}"
    by (simp add: card_subset_eq)
  then have "k \<in> set (map ?f ts)" using assms(3) by simp
  then show ?thesis by auto
qed


lemma sort_io_tensor_loop_set:
  "set (snd (sort_io_tensor_loop n rest i ts)) \<subseteq> set ts \<union> set rest"
proof (induction rest arbitrary: i ts)
  case Nil
  then show ?case by simp
next
  case (Cons t rest)
  have "set (ts[unat (tensor_id t) := t]) \<subseteq> insert t (set ts)"
    by (rule set_update_subset_insert)
  with Cons[of "Suc i" "ts[unat (tensor_id t) := t]"] Cons[of "Suc i" ts]
  show ?case by auto
qed

lemma sort_io_tensor_nth:
  assumes "\<forall>t\<in>set ts. unat (tensor_id t) < length ts" "k < length ts"
  shows "unat (tensor_id (snd (sort_io_tensor ts) ! k)) = k \<or>
         (snd (sort_io_tensor ts) ! k = ts ! k \<and> (\<forall>t\<in>set ts. unat (tensor_id t) \<noteq> k))"
  unfolding sort_io_tensor_def
  using sort_io_tensor_loop_inv[of ts "length ts" 0 ts k] assms by simp

lemma not_distinct_missing:
  assumes "\<forall>t\<in>set ts. unat (tensor_id t) < length ts" "\<not> distinct (map tensor_id ts)"
  shows "\<exists>k<length ts. \<forall>t\<in>set ts. unat (tensor_id t) \<noteq> k"
proof (rule ccontr)
  assume "\<not> ?thesis"
  then have onto: "\<forall>k<length ts. \<exists>t\<in>set ts. unat (tensor_id t) = k" by blast
  let ?f = "\<lambda>t. unat (tensor_id t)"
  have "{0..<length ts} \<subseteq> set (map ?f ts)" using onto by force
  then have "card {0..<length ts} \<le> card (set (map ?f ts))"
    by (intro card_mono) simp_all
  then have "card (set (map ?f ts)) = length (map ?f ts)"
    using card_length[of "map ?f ts"] by simp
  then have "distinct (map ?f ts)" by (rule card_distinct)
  then have "distinct (map (unat \<circ> tensor_id) ts)" by (simp add: comp_def)
  then have "distinct (map unat (map tensor_id ts))" by simp
  then have "distinct (map tensor_id ts)"
    using distinct_map[of unat "map tensor_id ts"] by blast
  with assms(2) show False by simp
qed

text \<open>
  Claim C3, as amended. A list with an id that is not below its size makes
  \<open>sort_io_tensor\<close> return \<open>AIPU_STATUS_ERROR_INVALID_GBIN\<close>. When every id is
  below the size the call succeeds and keeps the length, and afterwards
  \<open>tensors[i].id = i\<close> holds at every index exactly when the ids of the list are pairwise
  distinct: a list that repeats an id is accepted and is left unsorted.
\<close>

theorem sort_io_tensor_sorted_iff_distinct:
  "((\<exists>t\<in>set ts. length ts \<le> unat (tensor_id t)) \<longrightarrow>
      fst (sort_io_tensor ts) = AIPU_STATUS_ERROR_INVALID_GBIN) \<and>
   ((\<forall>t\<in>set ts. unat (tensor_id t) < length ts) \<longrightarrow>
      fst (sort_io_tensor ts) = AIPU_STATUS_SUCCESS \<and>
      length (snd (sort_io_tensor ts)) = length ts \<and>
      ((\<forall>i<length ts. unat (tensor_id (snd (sort_io_tensor ts) ! i)) = i) \<longleftrightarrow>
         distinct (map tensor_id ts)))"
proof (intro conjI impI)
  assume "\<exists>t\<in>set ts. length ts \<le> unat (tensor_id t)"
  then show "fst (sort_io_tensor ts) = AIPU_STATUS_ERROR_INVALID_GBIN"
    unfolding sort_io_tensor_def by (rule sort_io_tensor_loop_invalid)
next
  assume "\<forall>t\<in>set ts. unat (tensor_id t) < length ts"
  then show "fst (sort_io_tensor ts) = AIPU_STATUS_SUCCESS"
    unfolding sort_io_tensor_def by (rule sort_io_tensor_loop_success)
next
  show "length (snd (sort_io_tensor ts)) = length ts"
    unfolding sort_io_tensor_def by (rule sort_io_tensor_loop_length)
next
  assume inr: "\<forall>t\<in>set ts. unat (tensor_id t) < length ts"
  let ?r = "snd (sort_io_tensor ts)"
  show "(\<forall>i<length ts. unat (tensor_id (?r ! i)) = i) \<longleftrightarrow> distinct (map tensor_id ts)"
  proof
    assume d: "distinct (map tensor_id ts)"
    show "\<forall>i<length ts. unat (tensor_id (?r ! i)) = i"
    proof (intro allI impI)
      fix i assume i: "i < length ts"
      from ids_onto[OF inr d i] obtain t where t: "t \<in> set ts" "unat (tensor_id t) = i"
        by blast
      from sort_io_tensor_nth[OF inr i] show "unat (tensor_id (?r ! i)) = i"
      proof
        assume "?r ! i = ts ! i \<and> (\<forall>t\<in>set ts. unat (tensor_id t) \<noteq> i)"
        then have "unat (tensor_id t) \<noteq> i" using t(1) by simp
        with t(2) show ?thesis by simp
      qed
    qed
  next
    assume s: "\<forall>i<length ts. unat (tensor_id (?r ! i)) = i"
    show "distinct (map tensor_id ts)"
    proof (rule ccontr)
      assume "\<not> distinct (map tensor_id ts)"
      from not_distinct_missing[OF inr this] obtain k where
        k: "k < length ts" "\<forall>t\<in>set ts. unat (tensor_id t) \<noteq> k" by blast
      have sk: "unat (tensor_id (?r ! k)) = k" using s k(1) by simp
      have "length ?r = length ts"
        unfolding sort_io_tensor_def by (rule sort_io_tensor_loop_length)
      then have "?r ! k \<in> set ?r" using k(1) by simp
      moreover have "set ?r \<subseteq> set ts"
        using sort_io_tensor_loop_set[of "length ts" ts 0 ts] by (simp add: sort_io_tensor_def)
      ultimately have "?r ! k \<in> set ts" by (rule subsetD[rotated])
      with k(2) have "unat (tensor_id (?r ! k)) \<noteq> k" by simp
      with sk show False by simp
    qed
  qed
qed

lemma mk_io_desc_id [simp]: "tensor_id (mk_io_desc i s) = i"
  by (simp add: mk_io_desc_def)

text \<open>
  Claim C3, as stated, fails on a list that repeats an id: both ids of the list below are
  in range, the call succeeds, and the descriptor at index 1 has id 0.
\<close>

theorem sort_io_tensor_duplicate_ids:
  "unat (tensor_id (mk_io_desc 0 1)) < length [mk_io_desc 0 1, mk_io_desc 0 2] \<and>
   unat (tensor_id (mk_io_desc 0 2)) < length [mk_io_desc 0 1, mk_io_desc 0 2] \<and>
   sort_io_tensor [mk_io_desc 0 1, mk_io_desc 0 2] =
     (AIPU_STATUS_SUCCESS, [mk_io_desc 0 2, mk_io_desc 0 2]) \<and>
   unat (tensor_id (snd (sort_io_tensor [mk_io_desc 0 1, mk_io_desc 0 2]) ! 1)) \<noteq> 1"
  by (simp add: sort_io_tensor_def)

text \<open>
  Claim C3: the amended statement at the list with ids \<open>[1, 0]\<close> (sorted into
  \<open>[0, 1]\<close>) and at the list with ids \<open>[5, 0]\<close> (rejected).
\<close>

theorem sort_io_tensor_sorted_witness:
  "fst (sort_io_tensor [mk_io_desc 1 7, mk_io_desc 0 9]) = AIPU_STATUS_SUCCESS \<and>
   distinct (map tensor_id [mk_io_desc 1 7, mk_io_desc 0 9]) \<and>
   unat (tensor_id (snd (sort_io_tensor [mk_io_desc 1 7, mk_io_desc 0 9]) ! 0)) = 0 \<and>
   unat (tensor_id (snd (sort_io_tensor [mk_io_desc 1 7, mk_io_desc 0 9]) ! 1)) = 1 \<and>
   fst (sort_io_tensor [mk_io_desc 5 7, mk_io_desc 0 9]) = AIPU_STATUS_ERROR_INVALID_GBIN"
proof -
  let ?L = "[mk_io_desc 1 7, mk_io_desc 0 9]"
  let ?B = "[mk_io_desc 5 7, mk_io_desc 0 9]"
  have h: "\<forall>t\<in>set ?L. unat (tensor_id t) < length ?L" by simp
  have d: "distinct (map tensor_id ?L)" by simp
  have b: "\<exists>t\<in>set ?B. length ?B \<le> unat (tensor_id t)" by simp
  note A = sort_io_tensor_sorted_iff_distinct[of ?L, THEN conjunct2, THEN mp, OF h]
  from A have 1: "fst (sort_io_tensor ?L) = AIPU_STATUS_SUCCESS" by (rule conjunct1)
  from A have "(\<forall>i<length ?L. unat (tensor_id (snd (sort_io_tensor ?L) ! i)) = i) =
      distinct (map tensor_id ?L)" by (rule conjunct2[THEN conjunct2])
  then have 2: "\<forall>i<length ?L. unat (tensor_id (snd (sort_io_tensor ?L) ! i)) = i"
    using d by (rule iffD2)
  from 2 have 3: "unat (tensor_id (snd (sort_io_tensor ?L) ! 0)) = 0"
    and 4: "unat (tensor_id (snd (sort_io_tensor ?L) ! 1)) = 1" by simp_all
  note 5 = sort_io_tensor_sorted_iff_distinct[of ?B, THEN conjunct1, THEN mp, OF b]
  show ?thesis
    by (intro conjI) (rule 1, rule d, rule 3, rule 4, rule 5)
qed


section \<open>Proofs: group ids of the simulator back end\<close>


declare first_free_id.simps [simp del]

lemma first_free_id_here:
  "i < max_id \<Longrightarrow> \<not> bitmap i \<Longrightarrow> first_free_id max_id bitmap i = Some i"
  by (subst first_free_id.simps) simp

lemma first_free_id_skip:
  "i < max_id \<Longrightarrow> bitmap i \<Longrightarrow> first_free_id max_id bitmap i = first_free_id max_id bitmap (Suc i)"
  by (subst first_free_id.simps) simp

lemma first_free_id_Some:
  "first_free_id max_id bitmap i = Some k \<Longrightarrow> i \<le> k \<and> k < max_id \<and> \<not> bitmap k \<and> (\<forall>j. i \<le> j \<and> j < k \<longrightarrow> bitmap j)"
proof (induction max_id bitmap i rule: first_free_id.induct)
  case (1 max_id bitmap i)
  show ?case
  proof (cases "i < max_id")
    case False
    with "1.prems" show ?thesis by (subst (asm) first_free_id.simps) simp
  next
    case True
    show ?thesis
    proof (cases "bitmap i")
      case False
      with True "1.prems" have "k = i" by (simp add: first_free_id_here)
      with True False show ?thesis by auto
    next
      case b: True
      with True "1.prems" have "first_free_id max_id bitmap (Suc i) = Some k"
        by (simp add: first_free_id_skip)
      from "1.IH"[OF True _ this] b have
        "Suc i \<le> k \<and> k < max_id \<and> \<not> bitmap k \<and> (\<forall>j. Suc i \<le> j \<and> j < k \<longrightarrow> bitmap j)" by simp
      with b show ?thesis by (metis Suc_leD Suc_leI le_neq_implies_less)
    qed
  qed
qed

lemma get_start_group_id_first:
  assumes "5 \<le> max_id"
  shows "get_start_group_id max_id (\<lambda>j. False) 2 0 = (0, 0, (\<lambda>j. j < 2))"
proof -
  have "first_free_id max_id (\<lambda>j. False) 0 = Some 0"
    using assms by (simp add: first_free_id_here)
  then show ?thesis using assms by (simp add: get_start_group_id_def Let_def)
qed

lemma get_start_group_id_second:
  assumes "5 \<le> max_id"
  shows "get_start_group_id max_id (\<lambda>j. j < 2) 2 0 = (0, 2, (\<lambda>j. j < 4))"
proof -
  have "first_free_id max_id (\<lambda>j. j < 2) 0 = first_free_id max_id (\<lambda>j. j < 2) (Suc 0)"
    using assms by (simp add: first_free_id_skip)
  also have "\<dots> = first_free_id max_id (\<lambda>j. j < 2) (Suc (Suc 0))"
    using assms by (simp add: first_free_id_skip)
  also have "\<dots> = Some 2"
    using assms first_free_id_here[of 2 max_id "\<lambda>j. j < 2"] by (simp add: numeral_2_eq_2)
  finally have f: "first_free_id max_id (\<lambda>j. j < 2) 0 = Some 2" .
  have "(\<lambda>j. if 2 \<le> j \<and> j < 4 then True else j < (2::nat)) = (\<lambda>j. j < 4)"
    by (rule ext) auto
  then show ?thesis using assms f by (simp add: get_start_group_id_def Let_def)
qed

lemma bitmap_after_release_eq:
  assumes "5 \<le> max_id"
  shows "bitmap_after_release max_id = (\<lambda>j. 2 \<le> j \<and> j < 4)"
  unfolding bitmap_after_release_def
  by (simp add: get_start_group_id_first[OF assms] get_start_group_id_second[OF assms]
      put_start_group_id_def) (rule ext, auto)

text \<open>
  Claim C4 at the failing scenario, for every capacity of at least 5 ids: the second
  allocation holds the ids 2 and 3, the ids 0 and 1 have been released, and a request
  for three ids returns success with the run that starts at id 0, which contains the
  held id 2.
\<close>

theorem get_start_group_id_overlap:
  assumes "5 \<le> max_id"
  shows "get_start_group_id max_id (\<lambda>j. False) 2 0 = (0, 0, (\<lambda>j. j < 2)) \<and>
         get_start_group_id max_id (\<lambda>j. j < 2) 2 0 = (0, 2, (\<lambda>j. j < 4)) \<and>
         bitmap_after_release max_id = (\<lambda>j. 2 \<le> j \<and> j < 4) \<and>
         get_start_group_id max_id (bitmap_after_release max_id) 3 0 = (0, 0, (\<lambda>j. j < 4))"
proof -
  have f: "first_free_id max_id (\<lambda>j. 2 \<le> j \<and> j < 4) 0 = Some 0"
    using assms by (simp add: first_free_id_here)
  have "(\<lambda>j. if 0 \<le> j \<and> j < 3 then True else 2 \<le> j \<and> j < (4::nat)) = (\<lambda>j. j < 4)"
    by (rule ext) auto
  then have "get_start_group_id max_id (\<lambda>j. 2 \<le> j \<and> j < 4) 3 0 = (0, 0, (\<lambda>j. j < 4))"
    using assms f by (simp add: get_start_group_id_def Let_def)
  then show ?thesis
    using get_start_group_id_first[OF assms] get_start_group_id_second[OF assms]
      bitmap_after_release_eq[OF assms] by simp
qed

text \<open>
  Claim C4, the failing scenario at a capacity of 32768 ids.
\<close>

theorem get_start_group_id_overlap_witness:
  "bitmap_after_release 32768 2 \<and>
   fst (get_start_group_id 32768 (bitmap_after_release 32768) 3 0) = 0 \<and>
   fst (snd (get_start_group_id 32768 (bitmap_after_release 32768) 3 0)) = 0"
proof -
  have "(5::nat) \<le> 32768" by simp
  note O = get_start_group_id_overlap[OF this]
  from O have b: "bitmap_after_release 32768 = (\<lambda>j. 2 \<le> j \<and> j < 4)" by (elim conjE)
  from O have g: "get_start_group_id 32768 (bitmap_after_release 32768) 3 0 = (0, 0, (\<lambda>j. j < 4))"
    by (elim conjE)
  have "bitmap_after_release 32768 2" by (simp add: b)
  then show ?thesis by (simp add: g)
qed

text \<open>
  A request that does not fit: when the first free id is \<open>i\<close> and \<open>i + group_cnt\<close>
  reaches \<open>max_id\<close>, the function returns \<open>-1\<close> and leaves the reference parameter and
  the bitmap as they were. (A run that would end exactly at the capacity is refused as
  well.)
\<close>

theorem get_start_group_id_exhausted:
  assumes "first_free_id max_id bitmap 0 = Some i" and "0 < group_cnt"
    and "int i + group_cnt < 2 ^ 32" and "int max_id \<le> int i + group_cnt"
  shows "get_start_group_id max_id bitmap group_cnt start = (- 1, start, bitmap)"
proof -
  have "(int i + group_cnt) mod 2 ^ 32 = int i + group_cnt"
    using assms(2,3) by simp
  then have "max_id \<le> nat ((int i + group_cnt) mod 2 ^ 32)"
    using assms(4) by simp
  then show ?thesis using assms(1,2) by (simp add: get_start_group_id_def Let_def)
qed

text \<open>
  At a capacity of 16 ids of which the first 12 are taken, a request for 8 ids is refused.
\<close>

theorem get_start_group_id_exhausted_witness:
  "get_start_group_id 16 (\<lambda>j. j < 12) 8 7 = (- 1, 7, (\<lambda>j. j < 12))"
proof -
  have f: "first_free_id 16 (\<lambda>j. j < 12) 0 = Some 12" by code_simp
  show ?thesis
    by (rule get_start_group_id_exhausted[OF f]) simp_all
qed


section \<open>Proofs: scheduling and polling\<close>


lemma schedule_invalid:
  assumes "jobs this = Some job"
    and "validate_schedule_status job \<noteq> AIPU_STATUS_SUCCESS \<or> get_subgraph_cnt graph = 0"
  shows "schedule P graph jobs mem sim this = Inr (validate_schedule_status job, jobs, mem, sim)"
  using assms by (auto simp add: schedule_def Let_def)

lemma dispatch_writes:
  "write_register (write_register (write_register (write_register (write_register aipu
       r1 v1) r2 v2) r3 v3) r4 v4) r5 v5 =
   aipu\<lparr>register_writes := register_writes aipu @ [(r1, v1), (r2, v2), (r3, v3), (r4, v4), (r5, v5)]\<rparr>"
  by (simp add: write_register_def)

lemma SimulatorV3_1_schedule_no_device:
  assumes "jobs (jobbase d) = Some job" "m_aipu sim = None"
  shows "SimulatorV3_1_schedule P jobs sim d = Inr (AIPU_STATUS_ERROR_NULL_PTR, jobs, sim)"
  using assms by (simp add: SimulatorV3_1_schedule_def Let_def)

lemma SimulatorV3_1_schedule_device:
  assumes j: "jobs (jobbase d) = Some job" and a: "m_aipu sim = Some aipu"
    and p: "part = (if POOL_SCP P < m_partition_id job then POOL_PCP P else m_partition_id job)"
    and q: "queue = m_buffer_queue sim @ [\<lparr>elem_job = jobbase d, elem_jobdesc = d\<rparr>]"
  shows "SimulatorV3_1_schedule P jobs sim d =
     Inr (AIPU_STATUS_SUCCESS, jobs(jobbase d \<mapsto> bind_cmdpool P 0 part job),
          if \<not> m_cant_add_job_flag sim \<and>
             \<not> is_cmdpool_full P (m_qos job) part (m_partition_mode sim) 0 (tsm_status aipu)
          then sim\<lparr>m_cant_add_job_flag := True,
                   m_buffer_queue := tl queue,
                   m_commit_map :=
                     AList.update (m_grid_id job) (jobbase (elem_jobdesc (hd queue))) (m_commit_map sim),
                   m_aipu := Some (aipu\<lparr>register_writes := register_writes aipu @
                     [(TSM_CMD_SCHED_ADDR_HI, get_high_32 (tcb_head (elem_jobdesc (hd queue)))),
                      (TSM_CMD_SCHED_ADDR_LO, get_low_32 (tcb_head (elem_jobdesc (hd queue)))),
                      (TSM_CMD_TCB_NUMBER, tcb_number (elem_jobdesc (hd queue))),
                      (TSM_CMD_SCHED_CTRL,
                       (push_bit 19 part OR push_bit 16 (m_bind_cmdpool_id (bind_cmdpool P 0 part job))
                          OR push_bit 8 (m_qos job)) OR CREATE_CMD_POOL P),
                      (TSM_CMD_SCHED_CTRL, DISPATCH_CMD_POOL P)]\<rparr>)\<rparr>
          else sim\<lparr>m_buffer_queue := queue\<rparr>)"
  using j a unfolding p q
  by (simp add: SimulatorV3_1_schedule_def Let_def dispatch_writes del: push_bit_of_1)

lemma scheduled_status_simps [simp]:
  "scheduled_status (job\<lparr>m_backup_tcb_used := b\<rparr>) = scheduled_status job"
  "scheduled_status (bind_cmdpool P c part job) = scheduled_status job"
  by (simp_all add: scheduled_status_def bind_cmdpool_def)

lemma bind_cmdpool_fields [simp]:
  "m_is_defer_run (bind_cmdpool P c part job) = m_is_defer_run job"
  "m_do_trigger (bind_cmdpool P c part job) = m_do_trigger job"
  "m_status (bind_cmdpool P c part job) = m_status job"
  by (simp_all add: bind_cmdpool_def)

lemma schedule_no_text:
  assumes j: "jobs this = Some job" and v: "validate_schedule_status job = AIPU_STATUS_SUCCESS"
    and s: "get_subgraph_cnt graph \<noteq> 0" and c: "m_sg_cnt job \<noteq> 0" "m_task_per_sg job \<noteq> 0"
    and t: "m_text_size graph = 0"
  shows "schedule P graph jobs mem sim this =
     Inr (AIPU_STATUS_SUCCESS,
          jobs(this \<mapsto> job\<lparr>m_backup_tcb_used := True, m_status := scheduled_status job\<rparr>),
          restore_buffers job mem, sim)"
  using assms by (simp add: schedule_def Let_def scheduled_status_def)

lemma schedule_no_device:
  assumes j: "jobs this = Some job" and v: "validate_schedule_status job = AIPU_STATUS_SUCCESS"
    and s: "get_subgraph_cnt graph \<noteq> 0" and c: "m_sg_cnt job \<noteq> 0" "m_task_per_sg job \<noteq> 0"
    and t: "m_text_size graph \<noteq> 0" and a: "m_aipu sim = None"
  shows "schedule P graph jobs mem sim this =
     Inr (AIPU_STATUS_ERROR_NULL_PTR, jobs(this \<mapsto> job\<lparr>m_backup_tcb_used := True\<rparr>),
          restore_buffers job mem, sim)"
proof -
  let ?job = "job\<lparr>m_backup_tcb_used := True\<rparr>"
  let ?jobs = "jobs(this \<mapsto> ?job)"
  have "?jobs (jobbase (schedule_desc this ?job)) = Some ?job"
    by (simp add: schedule_desc_def)
  from SimulatorV3_1_schedule_no_device[where jobs="?jobs" and d="schedule_desc this ?job"
         and job="?job" and sim=sim and P=P, OF this a]
  show ?thesis using j v s c t by (simp add: schedule_def Let_def)
qed

lemma schedule_device:
  assumes j: "jobs this = Some job" and v: "validate_schedule_status job = AIPU_STATUS_SUCCESS"
    and s: "get_subgraph_cnt graph \<noteq> 0" and c: "m_sg_cnt job \<noteq> 0" "m_task_per_sg job \<noteq> 0"
    and t: "m_text_size graph \<noteq> 0" and a: "m_aipu sim = Some aipu"
    and p: "part = (if POOL_SCP P < m_partition_id job then POOL_PCP P else m_partition_id job)"
    and q: "queue = m_buffer_queue sim @
              [\<lparr>elem_job = this,
                elem_jobdesc = schedule_desc this (job\<lparr>m_backup_tcb_used := True\<rparr>)\<rparr>]"
    and b: "job2 = bind_cmdpool P 0 part (job\<lparr>m_backup_tcb_used := True\<rparr>)"
  shows "schedule P graph jobs mem sim this =
     Inr (AIPU_STATUS_SUCCESS, jobs(this \<mapsto> job2\<lparr>m_status := scheduled_status job\<rparr>),
          restore_buffers job mem,
          if \<not> m_cant_add_job_flag sim \<and>
             \<not> is_cmdpool_full P (m_qos job) part (m_partition_mode sim) 0 (tsm_status aipu)
          then sim\<lparr>m_cant_add_job_flag := True,
                   m_buffer_queue := tl queue,
                   m_commit_map :=
                     AList.update (m_grid_id job) (jobbase (elem_jobdesc (hd queue))) (m_commit_map sim),
                   m_aipu := Some (aipu\<lparr>register_writes := register_writes aipu @
                     [(TSM_CMD_SCHED_ADDR_HI, get_high_32 (tcb_head (elem_jobdesc (hd queue)))),
                      (TSM_CMD_SCHED_ADDR_LO, get_low_32 (tcb_head (elem_jobdesc (hd queue)))),
                      (TSM_CMD_TCB_NUMBER, tcb_number (elem_jobdesc (hd queue))),
                      (TSM_CMD_SCHED_CTRL,
                       (push_bit 19 part OR push_bit 16 (m_bind_cmdpool_id job2)
                          OR push_bit 8 (m_qos job)) OR CREATE_CMD_POOL P),
                      (TSM_CMD_SCHED_CTRL, DISPATCH_CMD_POOL P)]\<rparr>)\<rparr>
          else sim\<lparr>m_buffer_queue := queue\<rparr>)"
proof -
  let ?job = "job\<lparr>m_backup_tcb_used := True\<rparr>"
  let ?jobs = "jobs(this \<mapsto> ?job)"
  let ?d = "schedule_desc this ?job"
  have d: "jobbase ?d = this" by (simp add: schedule_desc_def)
  have g: "?jobs (jobbase ?d) = Some ?job" by (simp add: d)
  have p': "part = (if POOL_SCP P < m_partition_id ?job then POOL_PCP P else m_partition_id ?job)"
    using p by simp
  have q': "queue = m_buffer_queue sim @ [\<lparr>elem_job = jobbase ?d, elem_jobdesc = ?d\<rparr>]"
    using q by (simp add: d)
  note S = SimulatorV3_1_schedule_device[where jobs="?jobs" and d="?d" and job="?job" and sim=sim
         and P=P and aipu=aipu and part=part and queue=queue, OF g a p' q', folded b, unfolded d]
  show ?thesis
    using j v s c t
    by (simp add: schedule_def Let_def S scheduled_status_def[symmetric] b del: push_bit_of_1)
qed

text \<open>
  Claim C5, amended. A job that is not in a schedulable state, or whose graph has no
  subgraph, is left as it is, and so are the memory and the simulator; the call returns
  the status of the validation. For a job in a schedulable state whose graph has
  subgraphs (and that \<open>init\<close> has built, so that \<open>m_sg_cnt\<close> and \<open>m_task_per_sg\<close> are
  not 0), \<open>schedule\<close> first rewrites the buffers of the job (\<open>restore_buffers\<close>: the
  error-code buffer is zeroized, the TCB chain is restored from the backup when the
  backup is in use) and marks the backup as used. Then:
  \<^item> when the text of the graph is empty, nothing is handed to the simulator, the call
    returns success and the status of the job is \<open>SCHED\<close> (\<open>BIND\<close> for a deferred run
    without trigger);
  \<^item> when the simulator has no device, the call returns \<open>NULL_PTR\<close>; the status of the
    job and the simulator are as before, the buffers stay rewritten and the backup
    stays marked;
  \<^item> otherwise the call returns success, the command pool of the job is bound, its
    status is \<open>SCHED\<close> or \<open>BIND\<close>, and the job is appended to the queue of the
    simulator. If no batch is in flight and the command pool is not full, the head of
    the queue is taken off, the registers get the TCB address and the TCB count of that
    head, then partition, pool and qos of the scheduled job with \<open>CREATE_CMD_POOL\<close>,
    then \<open>DISPATCH_CMD_POOL\<close>; the job of the head is entered in the commit map under
    the grid id of the scheduled job, and the batch is marked as in flight. The head is
    the scheduled job itself when the queue was empty; when an older job waits there,
    the entry has that job under the grid id of the new one (\<open>fill_commit_queue\<close>,
    which dispatches the heads that follow, enters a head under the head's own grid id).
\<close>

theorem schedule_commits:
  assumes "jobs this = Some job"
  shows "(validate_schedule_status job \<noteq> AIPU_STATUS_SUCCESS \<or> get_subgraph_cnt graph = 0 \<longrightarrow>
            schedule P graph jobs mem sim this =
              Inr (validate_schedule_status job, jobs, mem, sim)) \<and>
         (validate_schedule_status job = AIPU_STATUS_SUCCESS \<and> get_subgraph_cnt graph \<noteq> 0 \<and>
          m_sg_cnt job \<noteq> 0 \<and> m_task_per_sg job \<noteq> 0 \<longrightarrow>
            (let job1 = job\<lparr>m_backup_tcb_used := True\<rparr>;
                 part = (if POOL_SCP P < m_partition_id job then POOL_PCP P else m_partition_id job);
                 job2 = bind_cmdpool P 0 part job1;
                 queue = m_buffer_queue sim @
                           [\<lparr>elem_job = this, elem_jobdesc = schedule_desc this job1\<rparr>];
                 head = elem_jobdesc (hd queue)
             in schedule P graph jobs mem sim this =
                  (if m_text_size graph = 0
                     then Inr (AIPU_STATUS_SUCCESS,
                               jobs(this \<mapsto> job1\<lparr>m_status := scheduled_status job\<rparr>),
                               restore_buffers job mem, sim)
                   else
                     case m_aipu sim of
                       None \<Rightarrow>
                         Inr (AIPU_STATUS_ERROR_NULL_PTR, jobs(this \<mapsto> job1),
                              restore_buffers job mem, sim)
                     | Some aipu \<Rightarrow>
                         Inr (AIPU_STATUS_SUCCESS,
                              jobs(this \<mapsto> job2\<lparr>m_status := scheduled_status job\<rparr>),
                              restore_buffers job mem,
                              if \<not> m_cant_add_job_flag sim \<and>
                                 \<not> is_cmdpool_full P (m_qos job) part (m_partition_mode sim) 0
                                     (tsm_status aipu)
                              then sim\<lparr>m_cant_add_job_flag := True,
                                       m_buffer_queue := tl queue,
                                       m_commit_map :=
                                         AList.update (m_grid_id job) (jobbase head) (m_commit_map sim),
                                       m_aipu := Some (aipu\<lparr>register_writes := register_writes aipu @
                                         [(TSM_CMD_SCHED_ADDR_HI, get_high_32 (tcb_head head)),
                                          (TSM_CMD_SCHED_ADDR_LO, get_low_32 (tcb_head head)),
                                          (TSM_CMD_TCB_NUMBER, tcb_number head),
                                          (TSM_CMD_SCHED_CTRL,
                                           (push_bit 19 part OR push_bit 16 (m_bind_cmdpool_id job2)
                                              OR push_bit 8 (m_qos job)) OR CREATE_CMD_POOL P),
                                          (TSM_CMD_SCHED_CTRL, DISPATCH_CMD_POOL P)]\<rparr>)\<rparr>
                              else sim\<lparr>m_buffer_queue := queue\<rparr>))))"
proof (intro conjI impI)
  assume "validate_schedule_status job \<noteq> AIPU_STATUS_SUCCESS \<or> get_subgraph_cnt graph = 0"
  then show "schedule P graph jobs mem sim this =
              Inr (validate_schedule_status job, jobs, mem, sim)"
    by (rule schedule_invalid[where jobs=jobs and this=this and job=job, OF assms])
next
  assume h: "validate_schedule_status job = AIPU_STATUS_SUCCESS \<and> get_subgraph_cnt graph \<noteq> 0 \<and>
          m_sg_cnt job \<noteq> 0 \<and> m_task_per_sg job \<noteq> 0"
  then have v: "validate_schedule_status job = AIPU_STATUS_SUCCESS"
    and s: "get_subgraph_cnt graph \<noteq> 0" and c: "m_sg_cnt job \<noteq> 0" "m_task_per_sg job \<noteq> 0"
    by simp_all
  show "let job1 = job\<lparr>m_backup_tcb_used := True\<rparr>;
                 part = (if POOL_SCP P < m_partition_id job then POOL_PCP P else m_partition_id job);
                 job2 = bind_cmdpool P 0 part job1;
                 queue = m_buffer_queue sim @
                           [\<lparr>elem_job = this, elem_jobdesc = schedule_desc this job1\<rparr>];
                 head = elem_jobdesc (hd queue)
             in schedule P graph jobs mem sim this =
                  (if m_text_size graph = 0
                     then Inr (AIPU_STATUS_SUCCESS,
                               jobs(this \<mapsto> job1\<lparr>m_status := scheduled_status job\<rparr>),
                               restore_buffers job mem, sim)
                   else
                     case m_aipu sim of
                       None \<Rightarrow>
                         Inr (AIPU_STATUS_ERROR_NULL_PTR, jobs(this \<mapsto> job1),
                              restore_buffers job mem, sim)
                     | Some aipu \<Rightarrow>
                         Inr (AIPU_STATUS_SUCCESS,
                              jobs(this \<mapsto> job2\<lparr>m_status := scheduled_status job\<rparr>),
                              restore_buffers job mem,
                              if \<not> m_cant_add_job_flag sim \<and>
                                 \<not> is_cmdpool_full P (m_qos job) part (m_partition_mode sim) 0
                                     (tsm_status aipu)
                              then sim\<lparr>m_cant_add_job_flag := True,
                                       m_buffer_queue := tl queue,
                                       m_commit_map :=
                                         AList.update (m_grid_id job) (jobbase head) (m_commit_map sim),
                                       m_aipu := Some (aipu\<lparr>register_writes := register_writes aipu @
                                         [(TSM_CMD_SCHED_ADDR_HI, get_high_32 (tcb_head head)),
                                          (TSM_CMD_SCHED_ADDR_LO, get_low_32 (tcb_head head)),
                                          (TSM_CMD_TCB_NUMBER, tcb_number head),
                                          (TSM_CMD_SCHED_CTRL,
                                           (push_bit 19 part OR push_bit 16 (m_bind_cmdpool_id job2)
                                              OR push_bit 8 (m_qos job)) OR CREATE_CMD_POOL P),
                                          (TSM_CMD_SCHED_CTRL, DISPATCH_CMD_POOL P)]\<rparr>)\<rparr>
                              else sim\<lparr>m_buffer_queue := queue\<rparr>))"
  proof (cases "m_text_size graph = 0")
    case True
    show ?thesis
      unfolding Let_def schedule_no_text[where jobs=jobs and this=this and job=job, OF assms v s c True] using True by simp
  next
    case False
    show ?thesis
    proof (cases "m_aipu sim")
      case None
      show ?thesis
        unfolding Let_def schedule_no_device[where jobs=jobs and this=this and job=job, OF assms v s c False None] using False None by simp
    next
      case (Some aipu)
      show ?thesis
        unfolding Let_def schedule_device[where jobs=jobs and this=this and job=job, OF assms v s c False Some refl refl refl]
        using False Some by simp
    qed
  qed
qed

lemma byte_mem_write_tcbs: "byte_mem (mem_write_tcbs mem pa ts) = byte_mem mem"
  by (induction ts arbitrary: mem pa) simp_all

lemma example_schedule_facts:
  "example_jobs 1 = Some example_done_job"
  "validate_schedule_status example_done_job = AIPU_STATUS_SUCCESS \<and>
   get_subgraph_cnt example_graph \<noteq> 0 \<and>
   m_sg_cnt example_done_job \<noteq> 0 \<and> m_task_per_sg example_done_job \<noteq> 0"
  by (simp_all add: example_jobs_def example_done_job_def example_job_def
      validate_schedule_status_def get_subgraph_cnt_def example_graph_def)

lemma example_restore_buffers:
  "byte_mem (restore_buffers example_done_job example_run_memory) 0x8000 = 0"
  "byte_mem example_run_memory 0x8000 = 9"
  by (simp_all add: restore_buffers_def example_done_job_def example_job_def
      example_run_memory_def byte_mem_write_tcbs mem_zeroize_def)

lemma example_schedule_no_device:
  "schedule example_consts example_graph example_jobs example_run_memory
       (example_simulator None) 1 =
     Inr (AIPU_STATUS_ERROR_NULL_PTR, example_jobs,
          restore_buffers example_done_job example_run_memory, example_simulator None)"
proof -
  have a: "example_done_job\<lparr>m_backup_tcb_used := True\<rparr> = example_done_job"
    by (simp add: example_done_job_def)
  have b: "example_jobs(1 \<mapsto> example_done_job) = example_jobs"
    by (simp add: example_jobs_def)
  have "schedule example_consts example_graph example_jobs example_run_memory
       (example_simulator None) 1 =
     Inr (AIPU_STATUS_ERROR_NULL_PTR, example_jobs(1 \<mapsto> example_done_job\<lparr>m_backup_tcb_used := True\<rparr>),
          restore_buffers example_done_job example_run_memory, example_simulator None)"
    by (rule schedule_no_device[where jobs=example_jobs and this=1 and job=example_done_job])
       (simp_all add: example_jobs_def example_done_job_def example_job_def
          validate_schedule_status_def get_subgraph_cnt_def example_graph_def
          example_simulator_def)
  then show ?thesis unfolding a b .
qed

text \<open>
  Claim C5 at the example: the job has run once and is scheduled again. With a device
  whose command pools are free, the job is bound to pool 0, gets the status \<open>SCHED\<close>
  and is committed under its grid id 3, and the registers get the address \<open>0x1000\<close> and
  the count 11 of its TCB chain; without a device the call returns \<open>NULL_PTR\<close> and the
  job and the simulator are as before.
\<close>

theorem schedule_commits_witness:
  "schedule example_consts example_graph example_jobs example_run_memory
       (example_simulator (Some \<lparr>tsm_status = 0, register_writes = []\<rparr>)) 1 =
     Inr (AIPU_STATUS_SUCCESS,
          example_jobs(1 \<mapsto> example_done_job\<lparr>m_bind_cmdpool_id := 0,
                                               m_status := AIPU_JOB_STATUS_SCHED\<rparr>),
          restore_buffers example_done_job example_run_memory,
          (example_simulator (Some \<lparr>tsm_status = 0, register_writes =
              [(TSM_CMD_SCHED_ADDR_HI, 0), (TSM_CMD_SCHED_ADDR_LO, 0x1000),
               (TSM_CMD_TCB_NUMBER, 11), (TSM_CMD_SCHED_CTRL, 1), (TSM_CMD_SCHED_CTRL, 2)]\<rparr>))
            \<lparr>m_cant_add_job_flag := True, m_commit_map := [(3, 1)]\<rparr>) \<and>
   schedule example_consts example_graph example_jobs example_run_memory
       (example_simulator None) 1 =
     Inr (AIPU_STATUS_ERROR_NULL_PTR, example_jobs,
          restore_buffers example_done_job example_run_memory, example_simulator None)"
proof -
  note f = example_schedule_facts
  have a: "schedule example_consts example_graph example_jobs example_run_memory
       (example_simulator (Some \<lparr>tsm_status = 0, register_writes = []\<rparr>)) 1 =
     Inr (AIPU_STATUS_SUCCESS,
          example_jobs(1 \<mapsto> example_done_job\<lparr>m_bind_cmdpool_id := 0,
                                               m_status := AIPU_JOB_STATUS_SCHED\<rparr>),
          restore_buffers example_done_job example_run_memory,
          (example_simulator (Some \<lparr>tsm_status = 0, register_writes =
              [(TSM_CMD_SCHED_ADDR_HI, 0), (TSM_CMD_SCHED_ADDR_LO, 0x1000),
               (TSM_CMD_TCB_NUMBER, 11), (TSM_CMD_SCHED_CTRL, 1), (TSM_CMD_SCHED_CTRL, 2)]\<rparr>))
            \<lparr>m_cant_add_job_flag := True, m_commit_map := [(3, 1)]\<rparr>)"
    using schedule_commits[where jobs=example_jobs and this=1 and job=example_done_job
        and graph=example_graph and P=example_consts and mem=example_run_memory
        and sim="example_simulator (Some \<lparr>tsm_status = 0, register_writes = []\<rparr>)",
        OF f(1), THEN conjunct2, THEN mp, OF f(2)]
    by (simp add: Let_def example_graph_def example_simulator_def example_consts_def
        example_done_job_def example_job_def schedule_desc_def bind_cmdpool_def
        is_cmdpool_full_def scheduled_status_def get_high_32_def get_low_32_def)
  have b: "schedule example_consts example_graph example_jobs example_run_memory
       (example_simulator None) 1 =
     Inr (AIPU_STATUS_ERROR_NULL_PTR, example_jobs,
          restore_buffers example_done_job example_run_memory, example_simulator None)"
    by (rule example_schedule_no_device)
  show ?thesis using a b by (intro conjI)
qed

text \<open>
  Claim C5 as it stands does not hold: the job of the example has run once (its status
  is \<open>DONE\<close>, a schedulable state) and its error-code buffer holds the code 9; the
  simulator has no device. \<open>schedule\<close> returns \<open>NULL_PTR\<close>, the status of the job is
  as before, but the error-code buffer, which the device sees, has been zeroized.
\<close>

theorem schedule_failure_rewrites_buffers:
  "schedule example_consts example_graph example_jobs example_run_memory
       (example_simulator None) 1 =
     Inr (AIPU_STATUS_ERROR_NULL_PTR, example_jobs,
          restore_buffers example_done_job example_run_memory, example_simulator None) \<and>
   byte_mem example_run_memory 0x8000 = 9 \<and>
   byte_mem (restore_buffers example_done_job example_run_memory) 0x8000 = 0"
  using example_schedule_no_device example_restore_buffers by (intro conjI)

lemma init_no_subgraph:
  assumes "get_subgraph_cnt graph = 0"
  shows "\<exists>job mem. init job0 graph core_cnt grid_id start_group_id tcbs_pa mem0 = Inr (job, mem) \<and>
           m_status job = AIPU_JOB_STATUS_INIT"
  using assms by (simp add: init_def Let_def)

lemma init_no_subgraph_status:
  assumes "get_subgraph_cnt graph = 0"
    and "init job0 graph core_cnt grid_id start_group_id tcbs_pa mem0 = Inr (job, mem)"
  shows "m_status job = AIPU_JOB_STATUS_INIT"
  using init_no_subgraph[OF assms(1), of job0 core_cnt grid_id start_group_id tcbs_pa mem0] assms(2)
  by auto

text \<open>
  Claim C10. Let the graph have no subgraph. For a job that \<open>init\<close> has built for it,
  \<open>schedule\<close> returns success and changes neither the job, nor the memory of the
  device, nor the simulator (nothing is submitted), and it does so again once the job
  is \<open>DONE\<close>. For any job of the graph, \<open>poll_status\<close> of the simulator back end
  returns success for any fuel, also none, and any reports of the simulator to come:
  it sets the status of the job to \<open>DONE\<close> and leaves the simulator as it is.
\<close>

theorem zero_subgraph_schedule_and_poll:
  assumes "get_subgraph_cnt graph = 0" and "jobs this = Some job"
  shows "(init job0 graph core_cnt grid_id start_group_id tcbs_pa mem0 = Inr (job, mem1) \<longrightarrow>
            schedule P graph jobs mem sim this = Inr (AIPU_STATUS_SUCCESS, jobs, mem, sim) \<and>
            schedule P graph (jobs(this \<mapsto> job\<lparr>m_status := AIPU_JOB_STATUS_DONE\<rparr>)) mem sim this =
              Inr (AIPU_STATUS_SUCCESS, jobs(this \<mapsto> job\<lparr>m_status := AIPU_JOB_STATUS_DONE\<rparr>),
                   mem, sim)) \<and>
         poll_status P fuel events graph jobs sim this =
           Some (Inr (AIPU_LL_STATUS_SUCCESS,
                      jobs(this \<mapsto> job\<lparr>m_status := AIPU_JOB_STATUS_DONE\<rparr>), sim))"
proof (intro conjI impI)
  assume "init job0 graph core_cnt grid_id start_group_id tcbs_pa mem0 = Inr (job, mem1)"
  from init_no_subgraph_status[OF assms(1) this]
  have "validate_schedule_status job = AIPU_STATUS_SUCCESS"
    by (simp add: validate_schedule_status_def)
  then show "schedule P graph jobs mem sim this = Inr (AIPU_STATUS_SUCCESS, jobs, mem, sim)"
    using schedule_invalid[where jobs=jobs and this=this and job=job and graph=graph
        and P=P and mem=mem and sim=sim, OF assms(2) disjI2[OF assms(1)]]
    by simp
next
  let ?job = "job\<lparr>m_status := AIPU_JOB_STATUS_DONE\<rparr>"
  have v: "validate_schedule_status ?job = AIPU_STATUS_SUCCESS"
    by (simp add: validate_schedule_status_def)
  have "(jobs(this \<mapsto> ?job)) this = Some ?job" by simp
  from schedule_invalid[where jobs="jobs(this \<mapsto> ?job)" and this=this and job="?job"
      and graph=graph and P=P and mem=mem and sim=sim, OF this disjI2[OF assms(1)]]
  show "schedule P graph (jobs(this \<mapsto> ?job)) mem sim this =
          Inr (AIPU_STATUS_SUCCESS, jobs(this \<mapsto> ?job), mem, sim)"
    unfolding v .
next
  show "poll_status P fuel events graph jobs sim this =
           Some (Inr (AIPU_LL_STATUS_SUCCESS,
                      jobs(this \<mapsto> job\<lparr>m_status := AIPU_JOB_STATUS_DONE\<rparr>), sim))"
    using assms by (simp add: poll_status_def update_job_status_done_def Let_def)
qed

text \<open>
  Claim C10 at the example: \<open>init\<close> builds a job for the graph without subgraphs;
  \<open>schedule\<close> returns success and changes nothing, and \<open>poll_status\<close>, with no fuel
  and no report of the simulator, sets the status \<open>DONE\<close>.
\<close>

theorem zero_subgraph_schedule_and_poll_witness:
  "\<exists>job mem1.
     init example_job example_empty_graph 1 3 5 0x1000 example_memory = Inr (job, mem1) \<and>
     schedule example_consts example_empty_graph [1 \<mapsto> job] mem1 (example_simulator None) 1 =
       Inr (AIPU_STATUS_SUCCESS, [1 \<mapsto> job], mem1, example_simulator None) \<and>
     poll_status example_consts 0 [] example_empty_graph [1 \<mapsto> job] (example_simulator None) 1 =
       Some (Inr (AIPU_LL_STATUS_SUCCESS,
                  [1 \<mapsto> job, 1 \<mapsto> job\<lparr>m_status := AIPU_JOB_STATUS_DONE\<rparr>],
                  example_simulator None))"
proof -
  have z: "get_subgraph_cnt example_empty_graph = 0"
    by (simp add: get_subgraph_cnt_def example_empty_graph_def)
  from init_no_subgraph[OF z, of example_job 1 3 5 "0x1000" example_memory]
  obtain job mem1 where
    i: "init example_job example_empty_graph 1 3 5 0x1000 example_memory = Inr (job, mem1)"
    by blast
  have j: "[1 \<mapsto> job] 1 = Some job" by simp
  note T = zero_subgraph_schedule_and_poll[where graph=example_empty_graph
      and jobs="[1 \<mapsto> job]" and this=1 and job=job, OF z j]
  note a = T[where ?job0.0=example_job and core_cnt=1 and grid_id=3 and start_group_id=5
      and tcbs_pa="0x1000" and ?mem0.0=example_memory and ?mem1.0=mem1 and P=example_consts
      and mem=mem1 and sim="example_simulator None",
      THEN conjunct1, THEN mp, OF i, THEN conjunct1]
  note b = T[where P=example_consts and fuel=0 and events="[]" and sim="example_simulator None",
      THEN conjunct2]
  show ?thesis by (intro exI[of _ job] exI[of _ mem1] conjI i a b)
qed


section \<open>Proofs: dynamic output shapes\<close>


lemma shift_by_type_eq:
  "bytes_per_element ty = Some b \<Longrightarrow> shift_by_type ty sz = sz * b"
  by (cases ty) (simp_all add: shift_by_type_def bytes_per_element_def push_bit_eq_mult)

lemma shape_product_eq: "shape_product ds sz = sz * prod_list (map ucast ds)"
  by (induction ds arbitrary: sz) (simp_all add: mult.assoc)

lemma clear_set_config:
  "clear_config_out_tensor_size (ds\<lparr>config_out_tensor_size := f\<rparr>) =
   ds\<lparr>config_out_tensor_size := Map.empty\<rparr>"
  by (simp add: clear_config_out_tensor_size_def)

lemma parse_dynamic_out_shape_loop_zero:
  assumes "i + n \<le> length shapes" "i + n \<le> length outs"
    and "\<And>k. i \<le> k \<Longrightarrow> k < i + n \<Longrightarrow> unat (io_size (shapes ! k)) \<le> 384"
    and "\<exists>k. i \<le> k \<and> k < i + n \<and> dims_product mem (shapes ! k) = 0"
  shows "parse_dynamic_out_shape_loop mem outs shapes i n (ds\<lparr>config_out_tensor_size := f\<rparr>) =
     Inr (AIPU_STATUS_ERROR_ZERO_TENSOR_SIZE, ds\<lparr>config_out_tensor_size := Map.empty\<rparr>)"
  using assms
proof (induction n arbitrary: i f)
  case 0
  then show ?case by auto
next
  case (Suc n)
  have i: "i < length shapes" "i < length outs" "unat (io_size (shapes ! i)) \<le> 384"
    using Suc.prems(1,2) Suc.prems(3)[of i] by simp_all
  show ?case
  proof (cases "dims_product mem (shapes ! i) = 0")
    case True
    then show ?thesis using i
      by (simp add: dims_product_def shape_product_eq clear_set_config)
  next
    case False
    obtain k where k: "i \<le> k \<and> k < i + Suc n \<and> dims_product mem (shapes ! k) = 0"
      using Suc.prems(4) ..
    then have "k \<noteq> i" using False by auto
    then have "Suc i \<le> k \<and> k < Suc i + n \<and> dims_product mem (shapes ! k) = 0" using k by simp
    then have ex: "\<exists>k. Suc i \<le> k \<and> k < Suc i + n \<and> dims_product mem (shapes ! k) = 0" ..
    have b: "Suc i + n \<le> length shapes" "Suc i + n \<le> length outs" using Suc.prems(1,2) by simp_all
    have c: "\<And>k. Suc i \<le> k \<Longrightarrow> k < Suc i + n \<Longrightarrow> unat (io_size (shapes ! k)) \<le> 384"
      using Suc.prems(3) by simp
    note IH = Suc.IH[OF b c ex]
    show ?thesis using False i
      by (simp add: dims_product_def shape_product_eq set_config_out_tensor_size_def IH)
  qed
qed

lemma parse_dynamic_out_shape_loop_sizes:
  assumes "i + n \<le> length shapes" "i + n \<le> length outs"
    and "\<And>k. i \<le> k \<Longrightarrow> k < i + n \<Longrightarrow> unat (io_size (shapes ! k)) \<le> 384"
    and "\<And>k. i \<le> k \<Longrightarrow> k < i + n \<Longrightarrow> dims_product mem (shapes ! k) \<noteq> 0"
  shows "parse_dynamic_out_shape_loop mem outs shapes i n (ds\<lparr>config_out_tensor_size := f\<rparr>) =
     Inr (AIPU_STATUS_SUCCESS,
          ds\<lparr>config_out_tensor_size :=
               (\<lambda>k. if i \<le> k \<and> k < i + n then Some (out_tensor_size mem (outs ! k) (shapes ! k))
                    else f k)\<rparr>)"
  using assms
proof (induction n arbitrary: i f)
  case 0
  have "(\<lambda>k. if i \<le> k \<and> k < i + 0 then Some (out_tensor_size mem (outs ! k) (shapes ! k)) else f k) = f"
    by (rule ext) auto
  then show ?case by (simp only: parse_dynamic_out_shape_loop.simps)
next
  case (Suc n)
  have i: "i < length shapes" "i < length outs" "unat (io_size (shapes ! i)) \<le> 384"
      "dims_product mem (shapes ! i) \<noteq> 0"
    using Suc.prems(1,2) Suc.prems(3)[of i] Suc.prems(4)[of i] by simp_all
  have b: "Suc i + n \<le> length shapes" "Suc i + n \<le> length outs" using Suc.prems(1,2) by simp_all
  have c: "\<And>k. Suc i \<le> k \<Longrightarrow> k < Suc i + n \<Longrightarrow> unat (io_size (shapes ! k)) \<le> 384"
    using Suc.prems(3) by simp
  have d: "\<And>k. Suc i \<le> k \<Longrightarrow> k < Suc i + n \<Longrightarrow> dims_product mem (shapes ! k) \<noteq> 0"
    using Suc.prems(4) by simp
  note IH = Suc.IH[OF b c d]
  let ?f = "f(i \<mapsto> out_tensor_size mem (outs ! i) (shapes ! i))"
  have e: "(\<lambda>k. if Suc i \<le> k \<and> k < Suc i + n then Some (out_tensor_size mem (outs ! k) (shapes ! k))
                else ?f k) =
           (\<lambda>k. if i \<le> k \<and> k < i + Suc n then Some (out_tensor_size mem (outs ! k) (shapes ! k))
                else f k)"
    by (rule ext) auto
  have "parse_dynamic_out_shape_loop mem outs shapes i (Suc n) (ds\<lparr>config_out_tensor_size := f\<rparr>) =
        parse_dynamic_out_shape_loop mem outs shapes (Suc i) n (ds\<lparr>config_out_tensor_size := ?f\<rparr>)"
    using i by (simp add: dims_product_def out_tensor_size_def shape_product_eq
        set_config_out_tensor_size_def)
  also note IH
  finally show ?case unfolding e .
qed

lemma updated_idem:
  "dynamic_out_shape_updated ds \<Longrightarrow> ds\<lparr>dynamic_out_shape_updated := True\<rparr> = ds"
  by (cases ds) simp

lemma parse_dynamic_out_shape_again:
  assumes "dynamic_out_shape_updated (m_dyn_shape job)"
  shows "parse_dynamic_out_shape mem job = Inr (AIPU_STATUS_SUCCESS, job)"
  using assms
  by (simp add: parse_dynamic_out_shape_def testset_dynamic_out_shape_updated_def updated_idem)

lemma parse_dynamic_out_shape_unmatch:
  assumes "is_dynamic_shape job" "set_dyn_shape_true (m_dyn_shape job)"
    and "config_shape_sz (m_dyn_shape job) = length (m_inputs job)"
    and "\<not> dynamic_out_shape_updated (m_dyn_shape job)"
    and "length (m_outputs_shape job) \<noteq> length (m_outputs job)"
  shows "parse_dynamic_out_shape mem job =
     Inr (AIPU_STATUS_ERROR_UNMATCH_OUT_SHAPE,
          job\<lparr>m_dyn_shape := (m_dyn_shape job)\<lparr>dynamic_out_shape_updated := True\<rparr>\<rparr>)"
  using assms
  by (simp add: parse_dynamic_out_shape_def testset_dynamic_out_shape_updated_def)

lemma config_self:
  "ds\<lparr>dynamic_out_shape_updated := True\<rparr> =
   (ds\<lparr>dynamic_out_shape_updated := True\<rparr>)\<lparr>config_out_tensor_size := config_out_tensor_size ds\<rparr>"
  by simp

lemma parse_dynamic_out_shape_zero:
  assumes "is_dynamic_shape job" "set_dyn_shape_true (m_dyn_shape job)"
    and "config_shape_sz (m_dyn_shape job) = length (m_inputs job)"
    and "\<not> dynamic_out_shape_updated (m_dyn_shape job)"
    and len: "length (m_outputs_shape job) = length (m_outputs job)"
    and fit: "\<forall>sh \<in> set (m_outputs_shape job). unat (io_size sh) \<le> 384"
    and z: "\<exists>k < length (m_outputs job). dims_product mem (m_outputs_shape job ! k) = 0"
  shows "parse_dynamic_out_shape mem job =
     Inr (AIPU_STATUS_ERROR_ZERO_TENSOR_SIZE,
          job\<lparr>m_dyn_shape := (m_dyn_shape job)\<lparr>dynamic_out_shape_updated := True,
                                                 config_out_tensor_size := Map.empty\<rparr>\<rparr>)"
proof -
  let ?n = "length (m_outputs_shape job)"
  let ?ds = "(m_dyn_shape job)\<lparr>dynamic_out_shape_updated := True\<rparr>"
  have a: "0 + ?n \<le> length (m_outputs_shape job)" "0 + ?n \<le> length (m_outputs job)"
    using len by simp_all
  have b: "\<And>k. 0 \<le> k \<Longrightarrow> k < 0 + ?n \<Longrightarrow> unat (io_size (m_outputs_shape job ! k)) \<le> 384"
    using fit by simp
  obtain k where "k < length (m_outputs job)" "dims_product mem (m_outputs_shape job ! k) = 0"
    using z by auto
  then have "0 \<le> k \<and> k < 0 + ?n \<and> dims_product mem (m_outputs_shape job ! k) = 0"
    using len by simp
  then have c: "\<exists>k. 0 \<le> k \<and> k < 0 + ?n \<and> dims_product mem (m_outputs_shape job ! k) = 0" ..
  have "parse_dynamic_out_shape_loop mem (m_outputs job) (m_outputs_shape job) 0 ?n
          (?ds\<lparr>config_out_tensor_size := config_out_tensor_size (m_dyn_shape job)\<rparr>) =
        Inr (AIPU_STATUS_ERROR_ZERO_TENSOR_SIZE, ?ds\<lparr>config_out_tensor_size := Map.empty\<rparr>)"
    by (rule parse_dynamic_out_shape_loop_zero[OF a b c])
  then have "parse_dynamic_out_shape_loop mem (m_outputs job) (m_outputs_shape job) 0 ?n ?ds =
        Inr (AIPU_STATUS_ERROR_ZERO_TENSOR_SIZE, ?ds\<lparr>config_out_tensor_size := Map.empty\<rparr>)"
    unfolding config_self[symmetric] .
  then show ?thesis
    using assms(1-4) len
    by (simp add: parse_dynamic_out_shape_def testset_dynamic_out_shape_updated_def)
qed

lemma parse_dynamic_out_shape_success:
  assumes "is_dynamic_shape job" "set_dyn_shape_true (m_dyn_shape job)"
    and "config_shape_sz (m_dyn_shape job) = length (m_inputs job)"
    and "\<not> dynamic_out_shape_updated (m_dyn_shape job)"
    and len: "length (m_outputs_shape job) = length (m_outputs job)"
    and fit: "\<forall>sh \<in> set (m_outputs_shape job). unat (io_size sh) \<le> 384"
    and nz: "\<forall>k < length (m_outputs job). dims_product mem (m_outputs_shape job ! k) \<noteq> 0"
  shows "parse_dynamic_out_shape mem job =
     Inr (AIPU_STATUS_SUCCESS,
          job\<lparr>m_dyn_shape := (m_dyn_shape job)
                 \<lparr>dynamic_out_shape_updated := True,
                  config_out_tensor_size :=
                    (\<lambda>k. if k < length (m_outputs job)
                         then Some (out_tensor_size mem (m_outputs job ! k) (m_outputs_shape job ! k))
                         else config_out_tensor_size (m_dyn_shape job) k),
                  io_tensor_size_updates := Suc (io_tensor_size_updates (m_dyn_shape job))\<rparr>,
              single_io_updates := Suc (single_io_updates job)\<rparr>)"
proof -
  let ?n = "length (m_outputs_shape job)"
  let ?ds = "(m_dyn_shape job)\<lparr>dynamic_out_shape_updated := True\<rparr>"
  have a: "0 + ?n \<le> length (m_outputs_shape job)" "0 + ?n \<le> length (m_outputs job)"
    using len by simp_all
  have b: "\<And>k. 0 \<le> k \<Longrightarrow> k < 0 + ?n \<Longrightarrow> unat (io_size (m_outputs_shape job ! k)) \<le> 384"
    using fit by simp
  have c: "\<And>k. 0 \<le> k \<Longrightarrow> k < 0 + ?n \<Longrightarrow> dims_product mem (m_outputs_shape job ! k) \<noteq> 0"
    using nz len by simp
  have "parse_dynamic_out_shape_loop mem (m_outputs job) (m_outputs_shape job) 0 ?n
          (?ds\<lparr>config_out_tensor_size := config_out_tensor_size (m_dyn_shape job)\<rparr>) =
        Inr (AIPU_STATUS_SUCCESS, ?ds\<lparr>config_out_tensor_size :=
               (\<lambda>k. if 0 \<le> k \<and> k < 0 + ?n
                    then Some (out_tensor_size mem (m_outputs job ! k) (m_outputs_shape job ! k))
                    else config_out_tensor_size (m_dyn_shape job) k)\<rparr>)"
    by (rule parse_dynamic_out_shape_loop_sizes[OF a b c])
  then have "parse_dynamic_out_shape_loop mem (m_outputs job) (m_outputs_shape job) 0 ?n ?ds =
        Inr (AIPU_STATUS_SUCCESS, ?ds\<lparr>config_out_tensor_size :=
               (\<lambda>k. if k < length (m_outputs job)
                    then Some (out_tensor_size mem (m_outputs job ! k) (m_outputs_shape job ! k))
                    else config_out_tensor_size (m_dyn_shape job) k)\<rparr>)"
    unfolding config_self[symmetric] using len by simp
  then show ?thesis
    using assms(1-4) len
    by (simp add: parse_dynamic_out_shape_def testset_dynamic_out_shape_updated_def
        update_dynamic_io_tensor_size_def)
qed

lemma parse_dynamic_out_shape_cases:
  assumes "is_dynamic_shape job" and "set_dyn_shape_true (m_dyn_shape job)"
    and "config_shape_sz (m_dyn_shape job) = length (m_inputs job)"
    and "\<not> dynamic_out_shape_updated (m_dyn_shape job)"
    and "\<forall>sh \<in> set (m_outputs_shape job). unat (io_size sh) \<le> 384"
  shows "(length (m_outputs_shape job) \<noteq> length (m_outputs job) \<longrightarrow>
            parse_dynamic_out_shape mem job =
              Inr (AIPU_STATUS_ERROR_UNMATCH_OUT_SHAPE,
                   job\<lparr>m_dyn_shape := (m_dyn_shape job)\<lparr>dynamic_out_shape_updated := True\<rparr>\<rparr>))"
    and "(length (m_outputs_shape job) = length (m_outputs job) \<and>
          (\<exists>k < length (m_outputs job). dims_product mem (m_outputs_shape job ! k) = 0) \<longrightarrow>
            parse_dynamic_out_shape mem job =
              Inr (AIPU_STATUS_ERROR_ZERO_TENSOR_SIZE,
                   job\<lparr>m_dyn_shape := (m_dyn_shape job)\<lparr>dynamic_out_shape_updated := True,
                                                          config_out_tensor_size := Map.empty\<rparr>\<rparr>))"
    and "(length (m_outputs_shape job) = length (m_outputs job) \<and>
          (\<forall>k < length (m_outputs job). dims_product mem (m_outputs_shape job ! k) \<noteq> 0) \<longrightarrow>
            parse_dynamic_out_shape mem job =
              Inr (AIPU_STATUS_SUCCESS,
                   job\<lparr>m_dyn_shape := (m_dyn_shape job)
                          \<lparr>dynamic_out_shape_updated := True,
                           config_out_tensor_size :=
                             (\<lambda>k. if k < length (m_outputs job)
                                  then Some (out_tensor_size mem (m_outputs job ! k)
                                               (m_outputs_shape job ! k))
                                  else config_out_tensor_size (m_dyn_shape job) k),
                           io_tensor_size_updates := Suc (io_tensor_size_updates (m_dyn_shape job))\<rparr>,
                       single_io_updates := Suc (single_io_updates job)\<rparr>))"
    and "\<exists>ret job'. parse_dynamic_out_shape mem job = Inr (ret, job') \<and>
            dynamic_out_shape_updated (m_dyn_shape job') \<and>
            (\<forall>mem'. parse_dynamic_out_shape mem' job' = Inr (AIPU_STATUS_SUCCESS, job'))"
proof -
  show u: "length (m_outputs_shape job) \<noteq> length (m_outputs job) \<longrightarrow>
            parse_dynamic_out_shape mem job =
              Inr (AIPU_STATUS_ERROR_UNMATCH_OUT_SHAPE,
                   job\<lparr>m_dyn_shape := (m_dyn_shape job)\<lparr>dynamic_out_shape_updated := True\<rparr>\<rparr>)"
    using parse_dynamic_out_shape_unmatch[OF assms(1-4)] by simp
  show z: "(length (m_outputs_shape job) = length (m_outputs job) \<and>
          (\<exists>k < length (m_outputs job). dims_product mem (m_outputs_shape job ! k) = 0) \<longrightarrow>
            parse_dynamic_out_shape mem job =
              Inr (AIPU_STATUS_ERROR_ZERO_TENSOR_SIZE,
                   job\<lparr>m_dyn_shape := (m_dyn_shape job)\<lparr>dynamic_out_shape_updated := True,
                                                          config_out_tensor_size := Map.empty\<rparr>\<rparr>))"
    using parse_dynamic_out_shape_zero[OF assms(1-4) _ assms(5)] by simp
  show s: "(length (m_outputs_shape job) = length (m_outputs job) \<and>
          (\<forall>k < length (m_outputs job). dims_product mem (m_outputs_shape job ! k) \<noteq> 0) \<longrightarrow>
            parse_dynamic_out_shape mem job =
              Inr (AIPU_STATUS_SUCCESS,
                   job\<lparr>m_dyn_shape := (m_dyn_shape job)
                          \<lparr>dynamic_out_shape_updated := True,
                           config_out_tensor_size :=
                             (\<lambda>k. if k < length (m_outputs job)
                                  then Some (out_tensor_size mem (m_outputs job ! k)
                                               (m_outputs_shape job ! k))
                                  else config_out_tensor_size (m_dyn_shape job) k),
                           io_tensor_size_updates := Suc (io_tensor_size_updates (m_dyn_shape job))\<rparr>,
                       single_io_updates := Suc (single_io_updates job)\<rparr>))"
    using parse_dynamic_out_shape_success[OF assms(1-4) _ assms(5)] by simp
  have "\<exists>ret job'. parse_dynamic_out_shape mem job = Inr (ret, job') \<and>
            dynamic_out_shape_updated (m_dyn_shape job')"
  proof (cases "length (m_outputs_shape job) = length (m_outputs job)")
    case False
    then show ?thesis using u by simp
  next
    case len: True
    show ?thesis
    proof (cases "\<exists>k < length (m_outputs job). dims_product mem (m_outputs_shape job ! k) = 0")
      case True
      then show ?thesis using z len by simp
    next
      case False
      then have "\<forall>k < length (m_outputs job). dims_product mem (m_outputs_shape job ! k) \<noteq> 0"
        by simp
      then show ?thesis using s len by simp
    qed
  qed
  then obtain ret job' where r: "parse_dynamic_out_shape mem job = Inr (ret, job')"
    "dynamic_out_shape_updated (m_dyn_shape job')" by auto
  have "\<forall>mem'. parse_dynamic_out_shape mem' job' = Inr (AIPU_STATUS_SUCCESS, job')"
    using parse_dynamic_out_shape_again[OF r(2)] by simp
  then show "\<exists>ret job'. parse_dynamic_out_shape mem job = Inr (ret, job') \<and>
            dynamic_out_shape_updated (m_dyn_shape job') \<and>
            (\<forall>mem'. parse_dynamic_out_shape mem' job' = Inr (AIPU_STATUS_SUCCESS, job'))"
    using r by auto
qed
text \<open>
  Claim C6, amended. For a job of a graph with a dynamic shape whose dynamic shape is
  set for all its inputs, whose outputs have not been updated yet and whose shape
  tensors fit the local array of 96 words (384 bytes) that they are read into: when
  the number of output-shape tensors is not the number of outputs,
  \<open>parse_dynamic_out_shape\<close> returns \<open>UNMATCH_OUT_SHAPE\<close> and records nothing;
  otherwise, when the product of the dims (in 64 bits) is zero for some output, it
  returns \<open>ZERO_TENSOR_SIZE\<close> and no output size stays recorded; otherwise it returns
  success, has recorded for every output the product of its dims shifted by its type,
  and has updated the output descriptors once. In each case the job is marked as
  updated, and every later call returns success and changes nothing. For an output of
  a type for which the specification gives the bytes of an element (1 for U8 and S8,
  2 for U16, S16, F16 and BF16, 4 for U32, S32 and F32) the size recorded is the
  product of the dims times those bytes.
\<close>

theorem parse_dynamic_out_shape_sizes:
  assumes "is_dynamic_shape job" and "set_dyn_shape_true (m_dyn_shape job)"
    and "config_shape_sz (m_dyn_shape job) = length (m_inputs job)"
    and "\<not> dynamic_out_shape_updated (m_dyn_shape job)"
    and "\<forall>sh \<in> set (m_outputs_shape job). unat (io_size sh) \<le> 384"
  shows "(length (m_outputs_shape job) \<noteq> length (m_outputs job) \<longrightarrow>
            parse_dynamic_out_shape mem job =
              Inr (AIPU_STATUS_ERROR_UNMATCH_OUT_SHAPE,
                   job\<lparr>m_dyn_shape := (m_dyn_shape job)\<lparr>dynamic_out_shape_updated := True\<rparr>\<rparr>)) \<and>
         (length (m_outputs_shape job) = length (m_outputs job) \<and>
          (\<exists>k < length (m_outputs job). dims_product mem (m_outputs_shape job ! k) = 0) \<longrightarrow>
            parse_dynamic_out_shape mem job =
              Inr (AIPU_STATUS_ERROR_ZERO_TENSOR_SIZE,
                   job\<lparr>m_dyn_shape := (m_dyn_shape job)\<lparr>dynamic_out_shape_updated := True,
                                                          config_out_tensor_size := Map.empty\<rparr>\<rparr>)) \<and>
         (length (m_outputs_shape job) = length (m_outputs job) \<and>
          (\<forall>k < length (m_outputs job). dims_product mem (m_outputs_shape job ! k) \<noteq> 0) \<longrightarrow>
            parse_dynamic_out_shape mem job =
              Inr (AIPU_STATUS_SUCCESS,
                   job\<lparr>m_dyn_shape := (m_dyn_shape job)
                          \<lparr>dynamic_out_shape_updated := True,
                           config_out_tensor_size :=
                             (\<lambda>k. if k < length (m_outputs job)
                                  then Some (out_tensor_size mem (m_outputs job ! k)
                                               (m_outputs_shape job ! k))
                                  else config_out_tensor_size (m_dyn_shape job) k),
                           io_tensor_size_updates := Suc (io_tensor_size_updates (m_dyn_shape job))\<rparr>,
                       single_io_updates := Suc (single_io_updates job)\<rparr>)) \<and>
         (\<exists>ret job'. parse_dynamic_out_shape mem job = Inr (ret, job') \<and>
            dynamic_out_shape_updated (m_dyn_shape job') \<and>
            (\<forall>mem'. parse_dynamic_out_shape mem' job' = Inr (AIPU_STATUS_SUCCESS, job'))) \<and>
         (\<forall>k < length (m_outputs job). \<forall>b.
            bytes_per_element (io_type (m_outputs job ! k)) = Some b \<longrightarrow>
              out_tensor_size mem (m_outputs job ! k) (m_outputs_shape job ! k) =
                dims_product mem (m_outputs_shape job ! k) * b)"
proof -
  have "\<forall>k < length (m_outputs job). \<forall>b.
            bytes_per_element (io_type (m_outputs job ! k)) = Some b \<longrightarrow>
              out_tensor_size mem (m_outputs job ! k) (m_outputs_shape job ! k) =
                dims_product mem (m_outputs_shape job ! k) * b"
    by (simp add: out_tensor_size_def shift_by_type_eq)
  then show ?thesis
    using parse_dynamic_out_shape_cases[OF assms, of mem] by (intro conjI)
qed

lemma example_job_io_simps [simp]:
  "is_dynamic_shape example_job_io"
  "m_dyn_shape example_job_io = example_dyn_shape"
  "length (m_inputs example_job_io) = 1"
  "length (m_outputs example_job_io) = 2"
  "length (m_outputs_shape example_job_io) = 2"
  "single_io_updates example_job_io = 0"
  "io_type (m_outputs example_job_io ! 0) = AIPU_DATA_TYPE_F16"
  "io_type (m_outputs example_job_io ! Suc 0) = AIPU_DATA_TYPE_S8"
  "\<forall>sh \<in> set (m_outputs_shape example_job_io). unat (io_size sh) \<le> 384"
  by (simp_all add: example_job_io_def)

lemma example_dyn_shape_simps [simp]:
  "set_dyn_shape_true example_dyn_shape"
  "config_shape_sz example_dyn_shape = 1"
  "\<not> dynamic_out_shape_updated example_dyn_shape"
  "config_out_tensor_size example_dyn_shape = Map.empty"
  "io_tensor_size_updates example_dyn_shape = 0"
  by (simp_all add: example_dyn_shape_def)

lemma example_dims:
  "dims_product (example_shape_memory d) (m_outputs_shape example_job_io ! 0) = 6"
  "dims_product (example_shape_memory d) (m_outputs_shape example_job_io ! Suc 0) =
     5 * ucast (ucast d :: u32)"
  by (simp_all add: dims_product_def shape_data_def example_job_io_def example_shape_memory_def
      mem_read_u32_def upt_rec[of 0] upt_rec[of "Suc 0"] upt_rec[of 2] numeral_2_eq_2[symmetric])

lemma example_sizes:
  "(\<lambda>k. if k < length (m_outputs example_job_io)
        then Some (out_tensor_size (example_shape_memory 7) (m_outputs example_job_io ! k)
                     (m_outputs_shape example_job_io ! k))
        else config_out_tensor_size (m_dyn_shape example_job_io) k) = [0 \<mapsto> 12, 1 \<mapsto> 35]"
proof (rule ext)
  fix k :: nat
  consider "k = 0" | "k = Suc 0" | "2 \<le> k" by linarith
  then show "(if k < length (m_outputs example_job_io)
        then Some (out_tensor_size (example_shape_memory 7) (m_outputs example_job_io ! k)
                     (m_outputs_shape example_job_io ! k))
        else config_out_tensor_size (m_dyn_shape example_job_io) k) = [0 \<mapsto> 12, 1 \<mapsto> 35] k"
    by cases (simp_all add: out_tensor_size_def example_dims shift_by_type_def)
qed

lemma example_job_io_guard:
  "is_dynamic_shape example_job_io"
  "set_dyn_shape_true (m_dyn_shape example_job_io)"
  "config_shape_sz (m_dyn_shape example_job_io) = length (m_inputs example_job_io)"
  "\<not> dynamic_out_shape_updated (m_dyn_shape example_job_io)"
  "\<forall>sh \<in> set (m_outputs_shape example_job_io). unat (io_size sh) \<le> 384"
  "length (m_outputs_shape example_job_io) = length (m_outputs example_job_io)"
  by simp_all

lemma example_job_io_fields:
  "m_dyn_shape example_job_io = example_dyn_shape"
  "single_io_updates example_job_io = 0"
  "io_tensor_size_updates example_dyn_shape = 0"
  by simp_all

theorem parse_dynamic_out_shape_sizes_witness:
  "parse_dynamic_out_shape (example_shape_memory 7) example_job_io =
     Inr (AIPU_STATUS_SUCCESS,
          example_job_io\<lparr>m_dyn_shape := example_dyn_shape
                           \<lparr>dynamic_out_shape_updated := True,
                            config_out_tensor_size := [0 \<mapsto> 12, 1 \<mapsto> 35],
                            io_tensor_size_updates := Suc 0\<rparr>,
                         single_io_updates := Suc 0\<rparr>) \<and>
   parse_dynamic_out_shape (example_shape_memory 0) example_job_io =
     Inr (AIPU_STATUS_ERROR_ZERO_TENSOR_SIZE,
          example_job_io\<lparr>m_dyn_shape := example_dyn_shape
                           \<lparr>dynamic_out_shape_updated := True,
                            config_out_tensor_size := Map.empty\<rparr>\<rparr>) \<and>
   (\<exists>ret job'. parse_dynamic_out_shape (example_shape_memory 7) example_job_io = Inr (ret, job') \<and>
      dynamic_out_shape_updated (m_dyn_shape job') \<and>
      (\<forall>mem'. parse_dynamic_out_shape mem' job' = Inr (AIPU_STATUS_SUCCESS, job')))"
proof -
  note g = example_job_io_guard
  have nz: "\<forall>k < length (m_outputs example_job_io).
              dims_product (example_shape_memory 7) (m_outputs_shape example_job_io ! k) \<noteq> 0"
  proof (intro allI impI)
    fix k :: nat assume "k < length (m_outputs example_job_io)"
    then consider "k = 0" | "k = Suc 0" by fastforce
    then show "dims_product (example_shape_memory 7) (m_outputs_shape example_job_io ! k) \<noteq> 0"
      by cases (simp_all add: example_dims)
  qed
  have z: "\<exists>k < length (m_outputs example_job_io).
              dims_product (example_shape_memory 0) (m_outputs_shape example_job_io ! k) = 0"
    by (intro exI[of _ "Suc 0"]) (simp add: example_dims)
  note T7 = parse_dynamic_out_shape_sizes[of example_job_io "example_shape_memory 7",
              OF g(1) g(2) g(3) g(4) g(5)]
  note T0 = parse_dynamic_out_shape_sizes[of example_job_io "example_shape_memory 0",
              OF g(1) g(2) g(3) g(4) g(5)]
  note a0 = T7[THEN conjunct2, THEN conjunct2, THEN conjunct1, THEN mp, OF conjI[OF g(6) nz],
              unfolded example_sizes]
  note a = a0[unfolded example_job_io_fields]
  note b = T0[THEN conjunct2, THEN conjunct1, THEN mp, OF conjI[OF g(6) z],
              unfolded example_job_io_fields]
  note c = T7[THEN conjunct2, THEN conjunct2, THEN conjunct2, THEN conjunct1]
  show ?thesis using a b c by (intro conjI)
qed

text \<open>
  Claim C6 as it stands does not hold: with one output-shape tensor, of the dims 2
  and 3, for the two outputs of the example, no product of dims is zero, yet the call
  returns \<open>UNMATCH_OUT_SHAPE\<close>, records no output size and updates no output
  descriptor; the job is marked as updated all the same.
\<close>

theorem parse_dynamic_out_shape_unmatched_count:
  "parse_dynamic_out_shape (example_shape_memory 7)
       (example_job_io\<lparr>m_outputs_shape := [hd (m_outputs_shape example_job_io)]\<rparr>) =
     Inr (AIPU_STATUS_ERROR_UNMATCH_OUT_SHAPE,
          example_job_io\<lparr>m_outputs_shape := [hd (m_outputs_shape example_job_io)],
                         m_dyn_shape := example_dyn_shape\<lparr>dynamic_out_shape_updated := True\<rparr>\<rparr>) \<and>
   dims_product (example_shape_memory 7) (hd (m_outputs_shape example_job_io)) = 6"
proof -
  have "dims_product (example_shape_memory 7) (hd (m_outputs_shape example_job_io)) =
        dims_product (example_shape_memory 7) (m_outputs_shape example_job_io ! 0)"
    by (simp add: example_job_io_def)
  then have "dims_product (example_shape_memory 7) (hd (m_outputs_shape example_job_io)) = 6"
    by (simp only: example_dims)
  moreover have "parse_dynamic_out_shape (example_shape_memory 7)
       (example_job_io\<lparr>m_outputs_shape := [hd (m_outputs_shape example_job_io)]\<rparr>) =
     Inr (AIPU_STATUS_ERROR_UNMATCH_OUT_SHAPE,
          example_job_io\<lparr>m_outputs_shape := [hd (m_outputs_shape example_job_io)],
                         m_dyn_shape := example_dyn_shape\<lparr>dynamic_out_shape_updated := True\<rparr>\<rparr>)"
    by (simp add: parse_dynamic_out_shape_def testset_dynamic_out_shape_updated_def)
  ultimately show ?thesis by simp
qed


section \<open>Proofs: the walk over the BSS\<close>

lemma reads_end_append: "reads_end p (rs @ [(k, a, n)]) = reads_end p rs + of_nat n"
  by (induction rs arbitrary: p) auto

lemma reads_contiguous_append:
  "reads_contiguous p (rs @ [(k, a, n)]) \<longleftrightarrow> reads_contiguous p rs \<and> a = reads_end p rs"
  by (induction rs arbitrary: p) auto

lemma walk_inv_read:
  assumes "walk_inv bss hdr lb ub w" and "umd_is_valid_ptr lb ub (desc_load_addr w) n"
    and "k \<noteq> Header"
    and "reads w' = reads w @ [(k, desc_load_addr w, n)]"
    and "desc_load_addr w' = desc_load_addr w + of_nat n"
    and "refused w' = refused w"
  shows "walk_inv bss hdr lb ub w'"
  using assms unfolding walk_inv_def
  by (auto simp add: reads_end_append reads_contiguous_append)

lemma walk_inv_frame:
  assumes "walk_inv bss hdr lb ub w" and "reads w' = reads w"
    and "desc_load_addr w' = desc_load_addr w" and "refused w' = refused w"
  shows "walk_inv bss hdr lb ub w'"
  using assms unfolding walk_inv_def by simp

lemma walk_stop_refused:
  assumes "walk_inv bss hdr lb ub w" and "\<not> umd_is_valid_ptr lb ub (desc_load_addr w) n"
    and "k \<noteq> Header"
  shows "walk_stop bss hdr lb ub (w\<lparr>refused := Some (k, desc_load_addr w, n)\<rparr>)"
  using assms unfolding walk_inv_def walk_stop_def by auto

lemma static_ro_entries_post:
  "walk_inv bss hdr lb ub w \<Longrightarrow> walk_post bss hdr lb ub (static_ro_entries F mem lb ub i n w)"
proof (induction n arbitrary: w)
  case 0
  then show ?case by (simp add: walk_post_def)
next
  case (Suc n)
  show ?case
  proof (cases "umd_is_valid_ptr lb ub (desc_load_addr w) 4")
    case True
    let ?w' = "w\<lparr>reads := reads w @ [(Reloc_offset, desc_load_addr w, 4)],
                m_bss_vec := add_param 0
                  \<lparr>param_offset_in_map = le_u32 (mem_bytes mem (desc_load_addr w) 4),
                     param_load_type = PARAM_MAP_LOAD_TYPE_STATIC F,
                     param_buf_type = 0,
                     param_ref_section_iter = m_static_buf_idx w,
                     param_ref_sub_section_iter = i,
                     param_sub_section_offset = sub_offset_in_section_exec (sub_desc_load w),
                     param_addr_mask = sub_addr_mask (sub_desc_load w)\<rparr> (m_bss_vec w),
                desc_load_addr := desc_load_addr w + 4\<rparr>"
    have "walk_inv bss hdr lb ub ?w'"
      by (rule walk_inv_read[OF Suc.prems True, of Reloc_offset]) simp_all
    from Suc.IH[OF this] show ?thesis using True by (simp add: Let_def)
  next
    case False
    from walk_stop_refused[OF Suc.prems False, of Reloc_offset]
    show ?thesis using False by (simp add: walk_post_def)
  qed
qed

lemma reuse_ro_entries_post:
  "walk_inv bss hdr lb ub w \<Longrightarrow> walk_post bss hdr lb ub (reuse_ro_entries F mem lb ub i n w)"
proof (induction n arbitrary: w)
  case 0
  then show ?case by (simp add: walk_post_def)
next
  case (Suc n)
  show ?case
  proof (cases "umd_is_valid_ptr lb ub (desc_load_addr w) 4")
    case True
    let ?w' = "w\<lparr>reads := reads w @ [(Reloc_offset, desc_load_addr w, 4)],
                m_bss_vec := add_param 0
                  \<lparr>param_offset_in_map = le_u32 (mem_bytes mem (desc_load_addr w) 4),
                     param_load_type = PARAM_MAP_LOAD_TYPE_REUSE F,
                     param_buf_type = sub_type (sub_desc_load w),
                     param_ref_section_iter = m_reuse_buf_idx w,
                     param_ref_sub_section_iter = i,
                     param_sub_section_offset = sub_offset_in_section_exec (sub_desc_load w),
                     param_addr_mask = sub_addr_mask (sub_desc_load w)\<rparr> (m_bss_vec w),
                desc_load_addr := desc_load_addr w + 4\<rparr>"
    have "walk_inv bss hdr lb ub ?w'"
      by (rule walk_inv_read[OF Suc.prems True, of Reloc_offset]) simp_all
    from Suc.IH[OF this] show ?thesis using True by (simp add: Let_def)
  next
    case False
    from walk_stop_refused[OF Suc.prems False, of Reloc_offset]
    show ?thesis using False by (simp add: walk_post_def)
  qed
qed

lemma walk_post_cases:
  assumes "walk_post bss hdr lb ub r"
    and "\<And>w. r = Continue w \<Longrightarrow> walk_inv bss hdr lb ub w \<Longrightarrow> walk_post bss hdr lb ub (f w)"
  shows "walk_post bss hdr lb ub (case r of Overflow w \<Rightarrow> Overflow w | Continue w \<Rightarrow> f w)"
  using assms by (cases r) (simp_all add: walk_post_def)

lemma static_sub_sections_post:
  "walk_inv bss hdr lb ub w \<Longrightarrow> walk_post bss hdr lb ub (static_sub_sections F mem lb ub i n w)"
proof (induction n arbitrary: w i)
  case 0
  then show ?case by (simp add: walk_post_def)
next
  case (Suc n)
  let ?sz = "sizeof_SubSectionDesc F"
  show ?case
  proof (cases "umd_is_valid_ptr lb ub (desc_load_addr w) ?sz")
    case True
    let ?sub = "load_SubSectionDesc F (mem_bytes mem (desc_load_addr w) ?sz)"
    let ?w1 = "w\<lparr>reads := reads w @ [(Sub_desc, desc_load_addr w, ?sz)],
                   sub_desc_load := ?sub,
                   section_ir := (section_ir w)\<lparr>sub_sections := sub_sections (section_ir w) @
                       [\<lparr>sub_offset_in_section = sub_offset_in_section_exec ?sub\<rparr>]\<rparr>,
                   desc_load_addr := desc_load_addr w + of_nat ?sz\<rparr>"
    have "walk_inv bss hdr lb ub ?w1"
      by (rule walk_inv_read[OF Suc.prems True, of Sub_desc]) simp_all
    from static_ro_entries_post[OF this]
    have "walk_post bss hdr lb ub
            (static_ro_entries F mem lb ub i (unat (sub_offset_in_ro_cnt ?sub)) ?w1)" .
    from walk_post_cases[OF this, of "static_sub_sections F mem lb ub (i + 1) n"] Suc.IH
    show ?thesis using True by (simp add: Let_def)
  next
    case False
    from walk_stop_refused[OF Suc.prems False, of Sub_desc]
    show ?thesis using False by (simp add: walk_post_def)
  qed
qed

lemma reuse_sub_sections_post:
  "walk_inv bss hdr lb ub w \<Longrightarrow> walk_post bss hdr lb ub (reuse_sub_sections F mem lb ub i n w)"
proof (induction n arbitrary: w i)
  case 0
  then show ?case by (simp add: walk_post_def)
next
  case (Suc n)
  let ?sz = "sizeof_SubSectionDesc F"
  show ?case
  proof (cases "umd_is_valid_ptr lb ub (desc_load_addr w) ?sz")
    case True
    let ?sub = "load_SubSectionDesc F (mem_bytes mem (desc_load_addr w) ?sz)"
    let ?v1 = "if is_io_type F (sub_type ?sub)
                  then (m_bss_vec w)[0 := (m_bss_vec w ! 0)\<lparr>bss_io :=
                          snd (fill_io_tensor_desc_inner F (m_reuse_buf_idx w) i ?sub
                                 (bss_io (m_bss_vec w ! 0)))\<rparr>]
                  else m_bss_vec w"
    let ?w1 = "w\<lparr>reads := reads w @ [(Sub_desc, desc_load_addr w, ?sz)],
                   sub_desc_load := ?sub,
                   m_bss_vec := ?v1,
                   section_ir := (section_ir w)\<lparr>sub_sections := sub_sections (section_ir w) @
                       [\<lparr>sub_offset_in_section = sub_offset_in_section_exec ?sub\<rparr>]\<rparr>,
                   desc_load_addr := desc_load_addr w + of_nat ?sz\<rparr>"
    have "walk_inv bss hdr lb ub ?w1"
      by (rule walk_inv_read[OF Suc.prems True, of Sub_desc]) simp_all
    from reuse_ro_entries_post[OF this]
    have "walk_post bss hdr lb ub
            (reuse_ro_entries F mem lb ub i (unat (sub_offset_in_ro_cnt ?sub)) ?w1)" .
    from walk_post_cases[OF this, of "reuse_sub_sections F mem lb ub (i + 1) n"] Suc.IH
    show ?thesis using True by (simp add: Let_def)
  next
    case False
    from walk_stop_refused[OF Suc.prems False, of Sub_desc]
    show ?thesis using False by (simp add: walk_post_def)
  qed
qed

lemma add_static_frame:
  "reads (add_static F b i w) = reads w"
  "desc_load_addr (add_static F b i w) = desc_load_addr w"
  "refused (add_static F b i w) = refused w"
  by (simp_all add: add_static_def Let_def)

lemma add_reuse_frame:
  "reads (add_reuse F b w) = reads w"
  "desc_load_addr (add_reuse F b w) = desc_load_addr w"
  "refused (add_reuse F b w) = refused w"
  by (simp_all add: add_reuse_def Let_def)

lemma static_sections_loop_post:
  "walk_inv bss hdr lb ub w \<Longrightarrow> walk_post bss hdr lb ub (static_sections_loop F mem lb ub b i n w)"
proof (induction n arbitrary: w i)
  case 0
  then show ?case by (simp add: walk_post_def)
next
  case (Suc n)
  let ?sz = "sizeof_BSSStaticSectionDesc F"
  let ?w0 = "w\<lparr>section_ir := section_init F (section_ir w)\<rparr>"
  have inv0: "walk_inv bss hdr lb ub ?w0" by (rule walk_inv_frame[OF Suc.prems]) simp_all
  show ?case
  proof (cases "umd_is_valid_ptr lb ub (desc_load_addr w) ?sz")
    case True
    then have T0: "umd_is_valid_ptr lb ub (desc_load_addr ?w0) ?sz" by simp
    let ?d = "load_BSSStaticSectionDesc F (mem_bytes mem (desc_load_addr w) ?sz)"
    let ?w1 = "?w0\<lparr>reads := reads ?w0 @ [(Static_desc, desc_load_addr ?w0, ?sz)],
                    static_desc_load := ?d,
                    desc_load_addr := desc_load_addr ?w0 + of_nat ?sz\<rparr>"
    have "walk_inv bss hdr lb ub ?w1"
      by (rule walk_inv_read[OF inv0 T0, of Static_desc]) simp_all
    from static_sub_sections_post[OF this]
    have p: "walk_post bss hdr lb ub
            (static_sub_sections F mem lb ub 0 (unat (static_sub_section_cnt ?d)) ?w1)" .
    have "walk_post bss hdr lb ub
            (case static_sub_sections F mem lb ub 0 (unat (static_sub_section_cnt ?d)) ?w1 of
               Overflow w2 \<Rightarrow> Overflow w2
             | Continue w2 \<Rightarrow> static_sections_loop F mem lb ub b (i + 1) n (add_static F b i w2))"
    proof (rule walk_post_cases[OF p])
      fix w2 assume "walk_inv bss hdr lb ub w2"
      then have "walk_inv bss hdr lb ub (add_static F b i w2)"
        by (rule walk_inv_frame) (simp_all add: add_static_frame)
      then show "walk_post bss hdr lb ub
                   (static_sections_loop F mem lb ub b (i + 1) n (add_static F b i w2))"
        by (rule Suc.IH)
    qed
    then show ?thesis using True by (simp add: Let_def)
  next
    case False
    then have F0: "\<not> umd_is_valid_ptr lb ub (desc_load_addr ?w0) ?sz" by simp
    from walk_stop_refused[OF inv0 F0, of Static_desc]
    show ?thesis using False by (simp add: walk_post_def)
  qed
qed

lemma reuse_sections_loop_post:
  "walk_inv bss hdr lb ub w \<Longrightarrow> walk_post bss hdr lb ub (reuse_sections_loop F mem lb ub b n w)"
proof (induction n arbitrary: w)
  case 0
  then show ?case by (simp add: walk_post_def)
next
  case (Suc n)
  let ?sz = "sizeof_BSSReuseSectionDesc F"
  let ?w0 = "w\<lparr>section_ir := section_init F (section_ir w)\<rparr>"
  have inv0: "walk_inv bss hdr lb ub ?w0" by (rule walk_inv_frame[OF Suc.prems]) simp_all
  show ?case
  proof (cases "umd_is_valid_ptr lb ub (desc_load_addr w) ?sz")
    case True
    then have T0: "umd_is_valid_ptr lb ub (desc_load_addr ?w0) ?sz" by simp
    let ?d = "load_BSSReuseSectionDesc F (mem_bytes mem (desc_load_addr w) ?sz)"
    let ?w1 = "?w0\<lparr>reads := reads ?w0 @ [(Reuse_desc, desc_load_addr ?w0, ?sz)],
                    reuse_desc_load := ?d,
                    desc_load_addr := desc_load_addr ?w0 + of_nat ?sz\<rparr>"
    have "walk_inv bss hdr lb ub ?w1"
      by (rule walk_inv_read[OF inv0 T0, of Reuse_desc]) simp_all
    from reuse_sub_sections_post[OF this]
    have p: "walk_post bss hdr lb ub
            (reuse_sub_sections F mem lb ub 0 (unat (reuse_sub_section_cnt ?d)) ?w1)" .
    have "walk_post bss hdr lb ub
            (case reuse_sub_sections F mem lb ub 0 (unat (reuse_sub_section_cnt ?d)) ?w1 of
               Overflow w2 \<Rightarrow> Overflow w2
             | Continue w2 \<Rightarrow> reuse_sections_loop F mem lb ub b n (add_reuse F b w2))"
    proof (rule walk_post_cases[OF p])
      fix w2 assume "walk_inv bss hdr lb ub w2"
      then have "walk_inv bss hdr lb ub (add_reuse F b w2)"
        by (rule walk_inv_frame) (simp_all add: add_reuse_frame)
      then show "walk_post bss hdr lb ub (reuse_sections_loop F mem lb ub b n (add_reuse F b w2))"
        by (rule Suc.IH)
    qed
    then show ?thesis using True by (simp add: Let_def)
  next
    case False
    then have F0: "\<not> umd_is_valid_ptr lb ub (desc_load_addr ?w0) ?sz" by simp
    from walk_stop_refused[OF inv0 F0, of Reuse_desc]
    show ?thesis using False by (simp add: walk_post_def)
  qed
qed

lemma bss_load_ub_unat:
  assumes "sz \<noteq> 0" and "unat bss + sizeof_BSSHeader F + unat sz < 2 ^ 64"
  shows "unat (bss_load_ub F bss sz) = unat bss + sizeof_BSSHeader F + unat sz"
proof -
  have h: "unat (of_nat (sizeof_BSSHeader F) :: u64) = sizeof_BSSHeader F"
    using assms(2) by (simp add: unsigned_of_nat take_bit_nat_eq_self)
  have "unat sz < 2 ^ 32" using unsigned_less[of sz, where 'a=nat] by simp
  then have "unat sz < 2 ^ 64" by (rule less_trans) simp
  then have s: "unat (ucast sz :: u64) = unat sz"
    by (simp add: unsigned_ucast_eq take_bit_nat_eq_self)
  have 1: "unat (bss + of_nat (sizeof_BSSHeader F)) = unat bss + sizeof_BSSHeader F"
    using assms(2) h by (simp add: unat_add_lem[THEN iffD1])
  have "unat (bss + of_nat (sizeof_BSSHeader F) + ucast sz) = unat bss + sizeof_BSSHeader F + unat sz"
    using assms(2) 1 s by (simp add: unat_add_lem[THEN iffD1])
  then show ?thesis using assms(1) by (simp add: bss_load_ub_def)
qed

lemma walk_start_inv:
  "walk_inv bss hdr lb ub
     ((walk_start gobj si ri)\<lparr>reads := [(Header, bss, hdr)]\<rparr>
        \<lparr>m_bss_vec := v, desc_load_addr := bss + of_nat hdr\<rparr>)"
  by (simp add: walk_inv_def walk_start_def)

text \<open>The result of \<open>parse_bss_section\<close> in terms of the state it returns.\<close>

lemma parse_bss_section_post:
  assumes "gobj \<noteq> []"
  shows "\<exists>ret nxt w.
     parse_bss_section F mem bss sz bss_idx gobj si ri = Inr (ret, nxt, w) \<and>
     (bss_header_invalid F mem bss \<longrightarrow>
        ret = AIPU_STATUS_ERROR_INVALID_GBIN \<and> nxt = None \<and>
        w = (walk_start gobj si ri)\<lparr>reads := [(Header, bss, sizeof_BSSHeader F)]\<rparr>) \<and>
     (\<not> bss_header_invalid F mem bss \<longrightarrow>
        (ret = AIPU_STATUS_SUCCESS \<and> nxt = Some (desc_load_addr w) \<and>
         walk_inv bss (sizeof_BSSHeader F) bss (bss_load_ub F bss sz) w) \<or>
        (ret = AIPU_STATUS_ERROR_INVALID_GBIN \<and> nxt = None \<and>
         walk_stop bss (sizeof_BSSHeader F) bss (bss_load_ub F bss sz) w))"
proof (cases "bss_header_invalid F mem bss")
  case True
  then show ?thesis using assms
    by (simp add: parse_bss_section_def bss_header_invalid_def Let_def)
next
  case False
  let ?hdr = "sizeof_BSSHeader F"
  let ?ub = "bss_load_ub F bss sz"
  let ?h = "load_BSSHeader F (mem_bytes mem bss ?hdr)"
  let ?w1 = "(walk_start gobj si ri)\<lparr>reads := [(Header, bss, ?hdr)]\<rparr>
        \<lparr>m_bss_vec := set_stack bss_idx (stack_size ?h) (ALIGN_ADDR F (stack_align_bytes ?h))
                        (m_bss_vec (walk_start gobj si ri)),
          desc_load_addr := bss + of_nat ?hdr\<rparr>"
  let ?r1 = "static_sections_loop F mem bss ?ub bss_idx 0 (unat (static_section_desc_cnt ?h)) ?w1"
  have p1: "walk_post bss ?hdr bss ?ub ?r1"
    by (rule static_sections_loop_post[OF walk_start_inv])
  have eq: "parse_bss_section F mem bss sz bss_idx gobj si ri =
      (case ?r1 of
         Overflow w2 \<Rightarrow> Inr (AIPU_STATUS_ERROR_INVALID_GBIN, None, w2)
       | Continue w2 \<Rightarrow>
           (case reuse_sections_loop F mem bss ?ub bss_idx (unat (reuse_section_desc_cnt ?h))
                   (w2\<lparr>m_bss_vec := set_const_size bss_idx (cst_start_addr w2)
                                       (zerocpy_cst_start_addr w2) (m_bss_vec w2)\<rparr>) of
              Overflow w4 \<Rightarrow> Inr (AIPU_STATUS_ERROR_INVALID_GBIN, None, w4)
            | Continue w4 \<Rightarrow> Inr (AIPU_STATUS_SUCCESS, Some (desc_load_addr w4), w4)))"
    using False assms
    by (simp add: parse_bss_section_def bss_header_invalid_def Let_def split: walk.splits)
  show ?thesis
  proof (cases ?r1)
    case (Overflow w2)
    then have "walk_stop bss ?hdr bss ?ub w2" using p1 by (simp add: walk_post_def)
    then show ?thesis using False eq Overflow by simp
  next
    case (Continue w2)
    then have i2: "walk_inv bss ?hdr bss ?ub w2" using p1 by (simp add: walk_post_def)
    let ?w3 = "w2\<lparr>m_bss_vec := set_const_size bss_idx (cst_start_addr w2)
                                       (zerocpy_cst_start_addr w2) (m_bss_vec w2)\<rparr>"
    let ?r2 = "reuse_sections_loop F mem bss ?ub bss_idx (unat (reuse_section_desc_cnt ?h)) ?w3"
    have "walk_inv bss ?hdr bss ?ub ?w3" by (rule walk_inv_frame[OF i2]) simp_all
    then have p2: "walk_post bss ?hdr bss ?ub ?r2" by (rule reuse_sections_loop_post)
    show ?thesis
    proof (cases ?r2)
      case (Overflow w4)
      then have "walk_stop bss ?hdr bss ?ub w4" using p2 by (simp add: walk_post_def)
      then show ?thesis using False eq Continue Overflow by simp
    next
      case c: (Continue w4)
      then have "walk_inv bss ?hdr bss ?ub w4" using p2 by (simp add: walk_post_def)
      then show ?thesis using False eq Continue c by simp
    qed
  qed
qed

lemma UINT64_MAX_unat: "unat UINT64_MAX = 18446744073709551615"
  by (simp add: UINT64_MAX_def unsigned_minus_1_eq_mask mask_eq_exp_minus_1)

lemma mem_bytes_numeral:
  "mem_bytes mem p (numeral k) = mem p # mem_bytes mem (p + 1) (pred_numeral k)"
  by (simp add: numeral_eq_Suc)

lemma example_bss_header:
  "mem_bytes example_bss_memory 0x1000 16 = take 16 example_bss_bytes"
  by (simp add: mem_bytes_numeral example_bss_memory_def example_bss_bytes_def)

lemma example_bss_reuse:
  "mem_bytes example_bss_memory 0x1010 12 = take 12 (drop 16 example_bss_bytes)"
  by (simp add: mem_bytes_numeral example_bss_memory_def example_bss_bytes_def)

lemma example_bss_sub:
  "mem_bytes example_bss_memory 0x101C 36 = take 36 (drop 28 example_bss_bytes)"
  by (simp add: mem_bytes_numeral example_bss_memory_def example_bss_bytes_def)

lemma example_bss_reloc:
  "mem_bytes example_bss_memory 0x1040 4 = take 4 (drop 64 example_bss_bytes)"
  by (simp add: mem_bytes_numeral example_bss_memory_def example_bss_bytes_def)

lemma example_bss_format_simps:
  "sizeof_BSSHeader example_bss_format = 16"
  "sizeof_BSSStaticSectionDesc example_bss_format = 16"
  "sizeof_BSSReuseSectionDesc example_bss_format = 12"
  "sizeof_SubSectionDesc example_bss_format = 36"
  "load_BSSHeader example_bss_format (take 16 example_bss_bytes) =
     \<lparr>stack_size = 4096, stack_align_bytes = 4096, static_section_desc_cnt = 0,
      reuse_section_desc_cnt = 1\<rparr>"
  "load_BSSReuseSectionDesc example_bss_format (take 12 (drop 16 example_bss_bytes)) =
     \<lparr>reuse_size = 64, reuse_align_bytes = 16, reuse_sub_section_cnt = 1\<rparr>"
  "load_SubSectionDesc example_bss_format (take 36 (drop 28 example_bss_bytes)) =
     \<lparr>sub_type = 1, sub_size = 64, sub_id = 0, sub_offset_in_section_exec = 0,
      sub_addr_mask = 0, sub_offset_in_ro_cnt = 1, sub_scale = 0, sub_zero_point = 0,
      sub_data_type = 0\<rparr>"
  "le_u32 (take 4 (drop 64 example_bss_bytes)) = 0x20"
  by (simp_all add: example_bss_format_def example_bss_bytes_def le_word_at_def le_u32_def)

lemma example_walk_52:
  "case parse_bss_section example_bss_format example_bss_memory 0x1000 52 0 example_bss_vec 0 0 of
     Inl e \<Rightarrow> False
   | Inr (ret, nxt, w) \<Rightarrow>
       ret = AIPU_STATUS_SUCCESS \<and> nxt = Some 0x1044 \<and> refused w = None \<and>
       reads w = [(Header, 0x1000, 16), (Reuse_desc, 0x1010, 12), (Sub_desc, 0x101C, 36),
                  (Reloc_offset, 0x1040, 4)]"
  by (simp add: parse_bss_section_def bss_load_ub_def example_bss_format_simps
      example_bss_header example_bss_reuse example_bss_sub example_bss_reloc
      walk_start_def umd_is_valid_ptr_def Let_def example_bss_vec_def add_reuse_def)

lemma example_walk_51:
  "case parse_bss_section example_bss_format example_bss_memory 0x1000 51 0 example_bss_vec 0 0 of
     Inl e \<Rightarrow> False
   | Inr (ret, nxt, w) \<Rightarrow>
       ret = AIPU_STATUS_ERROR_INVALID_GBIN \<and> nxt = None \<and>
       refused w = Some (Reloc_offset, 0x1040, 4) \<and>
       reads w = [(Header, 0x1000, 16), (Reuse_desc, 0x1010, 12), (Sub_desc, 0x101C, 36)]"
  by (simp add: parse_bss_section_def bss_load_ub_def example_bss_format_simps
      example_bss_header example_bss_reuse example_bss_sub example_bss_reloc
      walk_start_def umd_is_valid_ptr_def Let_def example_bss_vec_def add_reuse_def)

lemma example_walk_0:
  "case parse_bss_section example_bss_format example_bss_memory 0x1000 0 0 example_bss_vec 0 0 of
     Inl e \<Rightarrow> False
   | Inr (ret, nxt, w) \<Rightarrow>
       ret = AIPU_STATUS_SUCCESS \<and> nxt = Some 0x1044 \<and> refused w = None \<and>
       reads w = [(Header, 0x1000, 16), (Reuse_desc, 0x1010, 12), (Sub_desc, 0x101C, 36),
                  (Reloc_offset, 0x1040, 4)]"
  by (simp add: parse_bss_section_def bss_load_ub_def example_bss_format_simps
      example_bss_header example_bss_reuse example_bss_sub example_bss_reloc UINT64_MAX_unat
      walk_start_def umd_is_valid_ptr_def Let_def example_bss_vec_def add_reuse_def)

text \<open>
  Claim C7, amended. Let the graph object have a BSS. \<open>parse_bss_section\<close> returns, and
  of the reads it has made from the binary the first is that of the header, at the start
  of the binary, and each one begins where the one before it ended. Every read after
  the header (of a static or reuse section descriptor, of a sub-section descriptor, of a
  relocation offset) has passed \<open>umd_is_valid_ptr\<close> against the lower bound \<open>bss\<close> and
  the upper bound of the call, which is \<open>bss + sizeof(BSSHeader) + size\<close> when \<open>size\<close>
  is not 0 and \<open>UINT64_MAX\<close> when it is 0; so when \<open>size\<close> is not 0 and that sum is
  within 64 bits, every read lies between \<open>bss\<close> and \<open>bss + sizeof(BSSHeader) + size\<close>.
  A header without stack size, stack alignment or reuse section gives \<open>INVALID_GBIN\<close>
  with nothing else read and the graph object as it was. Otherwise the walk either
  ends with success and \<open>*next\<close> the address after the last read, or it was left at
  the first pointer that did not pass the check: that pointer is the address after the
  last read, nothing is read at it, the status is \<open>INVALID_GBIN\<close> and \<open>*next\<close> is not
  set.
\<close>

theorem parse_bss_section_reads_checked:
  assumes "gobj \<noteq> []"
  shows "\<exists>ret nxt w rs.
     parse_bss_section F mem bss sz bss_idx gobj static_idx reuse_idx = Inr (ret, nxt, w) \<and>
     reads w = (Header, bss, sizeof_BSSHeader F) # rs \<and>
     reads_contiguous bss (reads w) \<and>
     (\<forall>k a n. (k, a, n) \<in> set rs \<longrightarrow>
        k \<noteq> Header \<and> umd_is_valid_ptr bss (bss_load_ub F bss sz) a n) \<and>
     (sz \<noteq> 0 \<and> unat bss + sizeof_BSSHeader F + unat sz < 2 ^ 64 \<longrightarrow>
        (\<forall>k a n. (k, a, n) \<in> set (reads w) \<longrightarrow>
           unat bss \<le> unat a \<and> unat a + n \<le> unat bss + sizeof_BSSHeader F + unat sz)) \<and>
     (bss_header_invalid F mem bss \<longrightarrow>
        ret = AIPU_STATUS_ERROR_INVALID_GBIN \<and> nxt = None \<and> rs = [] \<and> refused w = None \<and>
        m_bss_vec w = gobj) \<and>
     (\<not> bss_header_invalid F mem bss \<longrightarrow>
        (case refused w of
           None \<Rightarrow> ret = AIPU_STATUS_SUCCESS \<and> nxt = Some (reads_end bss (reads w))
         | Some (k, a, n) \<Rightarrow>
             ret = AIPU_STATUS_ERROR_INVALID_GBIN \<and> nxt = None \<and> k \<noteq> Header \<and>
             a = reads_end bss (reads w) \<and> (k, a, n) \<notin> set (reads w) \<and>
             \<not> umd_is_valid_ptr bss (bss_load_ub F bss sz) a n))"
proof -
  let ?hdr = "sizeof_BSSHeader F"
  let ?ub = "bss_load_ub F bss sz"
  from parse_bss_section_post[OF assms, of F mem bss sz bss_idx static_idx reuse_idx]
  obtain ret nxt w where
    p: "parse_bss_section F mem bss sz bss_idx gobj static_idx reuse_idx = Inr (ret, nxt, w)"
    and bad: "bss_header_invalid F mem bss \<Longrightarrow>
        ret = AIPU_STATUS_ERROR_INVALID_GBIN \<and> nxt = None \<and>
        w = (walk_start gobj static_idx reuse_idx)\<lparr>reads := [(Header, bss, ?hdr)]\<rparr>"
    and good: "\<not> bss_header_invalid F mem bss \<Longrightarrow>
        (ret = AIPU_STATUS_SUCCESS \<and> nxt = Some (desc_load_addr w) \<and>
         walk_inv bss ?hdr bss ?ub w) \<or>
        (ret = AIPU_STATUS_ERROR_INVALID_GBIN \<and> nxt = None \<and> walk_stop bss ?hdr bss ?ub w)"
    by blast
  have shape: "\<exists>rs. reads w = (Header, bss, ?hdr) # rs \<and> reads_contiguous bss (reads w) \<and>
     (\<forall>k a n. (k, a, n) \<in> set rs \<longrightarrow> k \<noteq> Header \<and> umd_is_valid_ptr bss ?ub a n) \<and>
     (bss_header_invalid F mem bss \<longrightarrow> rs = [])"
  proof (cases "bss_header_invalid F mem bss")
    case True
    from bad[OF True] show ?thesis using True by simp
  next
    case False
    from good[OF False] show ?thesis using False
      unfolding walk_inv_def walk_stop_def by blast
  qed
  then obtain rs where rs: "reads w = (Header, bss, ?hdr) # rs"
    and cont: "reads_contiguous bss (reads w)"
    and valid: "\<forall>k a n. (k, a, n) \<in> set rs \<longrightarrow> k \<noteq> Header \<and> umd_is_valid_ptr bss ?ub a n"
    and rs0: "bss_header_invalid F mem bss \<longrightarrow> rs = []"
    by blast
  have range: "sz \<noteq> 0 \<and> unat bss + ?hdr + unat sz < 2 ^ 64 \<longrightarrow>
        (\<forall>k a n. (k, a, n) \<in> set (reads w) \<longrightarrow>
           unat bss \<le> unat a \<and> unat a + n \<le> unat bss + ?hdr + unat sz)"
  proof (intro impI allI)
    fix k a n
    assume a: "sz \<noteq> 0 \<and> unat bss + ?hdr + unat sz < 2 ^ 64" and m: "(k, a, n) \<in> set (reads w)"
    from a have ub: "unat ?ub = unat bss + ?hdr + unat sz" by (simp add: bss_load_ub_unat)
    from m rs have "(k, a, n) = (Header, bss, ?hdr) \<or> (k, a, n) \<in> set rs" by simp
    then show "unat bss \<le> unat a \<and> unat a + n \<le> unat bss + ?hdr + unat sz"
    proof
      assume "(k, a, n) = (Header, bss, ?hdr)"
      then show ?thesis by simp
    next
      assume "(k, a, n) \<in> set rs"
      with valid have "umd_is_valid_ptr bss ?ub a n" by blast
      then show ?thesis using ub by (simp add: umd_is_valid_ptr_def)
    qed
  qed
  have inv: "bss_header_invalid F mem bss \<longrightarrow>
        ret = AIPU_STATUS_ERROR_INVALID_GBIN \<and> nxt = None \<and> rs = [] \<and> refused w = None \<and>
        m_bss_vec w = gobj"
  proof
    assume b: "bss_header_invalid F mem bss"
    from bad[OF b] rs0 b show "ret = AIPU_STATUS_ERROR_INVALID_GBIN \<and> nxt = None \<and> rs = [] \<and>
        refused w = None \<and> m_bss_vec w = gobj"
      by (simp add: walk_start_def)
  qed
  have fin: "\<not> bss_header_invalid F mem bss \<longrightarrow>
        (case refused w of
           None \<Rightarrow> ret = AIPU_STATUS_SUCCESS \<and> nxt = Some (reads_end bss (reads w))
         | Some (k, a, n) \<Rightarrow>
             ret = AIPU_STATUS_ERROR_INVALID_GBIN \<and> nxt = None \<and> k \<noteq> Header \<and>
             a = reads_end bss (reads w) \<and> (k, a, n) \<notin> set (reads w) \<and>
             \<not> umd_is_valid_ptr bss ?ub a n)"
  proof
    assume g: "\<not> bss_header_invalid F mem bss"
    from good[OF g] show "case refused w of
           None \<Rightarrow> ret = AIPU_STATUS_SUCCESS \<and> nxt = Some (reads_end bss (reads w))
         | Some (k, a, n) \<Rightarrow>
             ret = AIPU_STATUS_ERROR_INVALID_GBIN \<and> nxt = None \<and> k \<noteq> Header \<and>
             a = reads_end bss (reads w) \<and> (k, a, n) \<notin> set (reads w) \<and>
             \<not> umd_is_valid_ptr bss ?ub a n"
    proof
      assume "ret = AIPU_STATUS_SUCCESS \<and> nxt = Some (desc_load_addr w) \<and>
         walk_inv bss ?hdr bss ?ub w"
      then show ?thesis by (simp add: walk_inv_def)
    next
      assume s: "ret = AIPU_STATUS_ERROR_INVALID_GBIN \<and> nxt = None \<and>
         walk_stop bss ?hdr bss ?ub w"
      then obtain k n where k: "k \<noteq> Header"
        and r: "refused w = Some (k, reads_end bss (reads w), n)"
        and nv: "\<not> umd_is_valid_ptr bss ?ub (reads_end bss (reads w)) n"
        unfolding walk_stop_def by blast
      have "(k, reads_end bss (reads w), n) \<notin> set (reads w)"
      proof
        assume "(k, reads_end bss (reads w), n) \<in> set (reads w)"
        with rs k have "(k, reads_end bss (reads w), n) \<in> set rs" by auto
        with valid nv show False by blast
      qed
      then show ?thesis using s k r nv by simp
    qed
  qed
  show ?thesis
    by (intro exI[of _ ret] exI[of _ nxt] exI[of _ w] exI[of _ rs] conjI p rs cont valid range inv fin)
qed

lemma example_bss_header_valid: "\<not> bss_header_invalid example_bss_format example_bss_memory 0x1000"
  by (simp add: bss_header_invalid_def example_bss_format_simps example_bss_header)

text \<open>
  Claim C7 at the example, whose binary has 16 + 12 + 36 + 4 bytes, with a \<open>size\<close> of
  51, one byte short: header, reuse section descriptor and sub-section descriptor are
  read, the relocation offset at \<open>0x1040\<close> does not pass the check and is not read,
  and the status is \<open>INVALID_GBIN\<close>.
\<close>

theorem parse_bss_section_reads_checked_witness:
  "example_bss_vec \<noteq> [] \<and>
   (\<exists>w. parse_bss_section example_bss_format example_bss_memory 0x1000 51 0 example_bss_vec 0 0 =
           Inr (AIPU_STATUS_ERROR_INVALID_GBIN, None, w) \<and>
        reads w = [(Header, 0x1000, 16), (Reuse_desc, 0x1010, 12), (Sub_desc, 0x101C, 36)] \<and>
        refused w = Some (Reloc_offset, 0x1040, 4) \<and>
        \<not> umd_is_valid_ptr 0x1000 (bss_load_ub example_bss_format 0x1000 51) 0x1040 4)"
proof -
  have ne: "example_bss_vec \<noteq> []" by (simp add: example_bss_vec_def)
  from parse_bss_section_reads_checked[OF ne, of example_bss_format example_bss_memory
      "0x1000" 51 0 0 0]
  obtain ret nxt w rs where
    p: "parse_bss_section example_bss_format example_bss_memory 0x1000 51 0 example_bss_vec 0 0 =
          Inr (ret, nxt, w)"
    and f: "\<not> bss_header_invalid example_bss_format example_bss_memory 0x1000 \<longrightarrow>
        (case refused w of
           None \<Rightarrow> ret = AIPU_STATUS_SUCCESS \<and> nxt = Some (reads_end 0x1000 (reads w))
         | Some (k, a, n) \<Rightarrow>
             ret = AIPU_STATUS_ERROR_INVALID_GBIN \<and> nxt = None \<and> k \<noteq> Header \<and>
             a = reads_end 0x1000 (reads w) \<and> (k, a, n) \<notin> set (reads w) \<and>
             \<not> umd_is_valid_ptr 0x1000 (bss_load_ub example_bss_format 0x1000 51) a n)"
    by blast
  from example_walk_51 p have e: "ret = AIPU_STATUS_ERROR_INVALID_GBIN" "nxt = None"
    "refused w = Some (Reloc_offset, 0x1040, 4)"
    "reads w = [(Header, 0x1000, 16), (Reuse_desc, 0x1010, 12), (Sub_desc, 0x101C, 36)]"
    by simp_all
  from f example_bss_header_valid e(3)
  have nv: "\<not> umd_is_valid_ptr 0x1000 (bss_load_ub example_bss_format 0x1000 51) 0x1040 4"
    by simp
  have "\<exists>w. parse_bss_section example_bss_format example_bss_memory 0x1000 51 0 example_bss_vec 0 0 =
           Inr (AIPU_STATUS_ERROR_INVALID_GBIN, None, w) \<and>
        reads w = [(Header, 0x1000, 16), (Reuse_desc, 0x1010, 12), (Sub_desc, 0x101C, 36)] \<and>
        refused w = Some (Reloc_offset, 0x1040, 4) \<and>
        \<not> umd_is_valid_ptr 0x1000 (bss_load_ub example_bss_format 0x1000 51) 0x1040 4"
    using p e nv by (intro exI[of _ w]) simp
  with ne show ?thesis by (intro conjI)
qed

text \<open>
  Claim C7 as it stands does not hold: with a \<open>size\<close> of 0 the bytes of the BSS end
  with its header, at \<open>0x1010\<close> in the example. All the same the reuse section
  descriptor at \<open>0x1010\<close>, the sub-section descriptor and the relocation offset after
  it are read, and the status is success: the upper bound of the check is
  \<open>UINT64_MAX\<close>, not the end of the BSS.
\<close>

theorem parse_bss_section_size_zero_unchecked:
  "\<exists>w. parse_bss_section example_bss_format example_bss_memory 0x1000 0 0 example_bss_vec 0 0 =
          Inr (AIPU_STATUS_SUCCESS, Some 0x1044, w) \<and>
       reads w = [(Header, 0x1000, 16), (Reuse_desc, 0x1010, 12), (Sub_desc, 0x101C, 36),
                  (Reloc_offset, 0x1040, 4)] \<and>
       \<not> umd_is_valid_ptr 0x1000
            (0x1000 + of_nat (sizeof_BSSHeader example_bss_format) + ucast (0 :: u32)) 0x1010 12 \<and>
       bss_load_ub example_bss_format 0x1000 0 = UINT64_MAX"
proof -
  obtain ret nxt w where
    p: "parse_bss_section example_bss_format example_bss_memory 0x1000 0 0 example_bss_vec 0 0 =
          Inr (ret, nxt, w)"
    using example_walk_0 by (auto split: sum.splits)
  from example_walk_0 p have e: "ret = AIPU_STATUS_SUCCESS" "nxt = Some 0x1044"
    "reads w = [(Header, 0x1000, 16), (Reuse_desc, 0x1010, 12), (Sub_desc, 0x101C, 36),
                (Reloc_offset, 0x1040, 4)]"
    by simp_all
  have nv: "\<not> umd_is_valid_ptr 0x1000
            (0x1000 + of_nat (sizeof_BSSHeader example_bss_format) + ucast (0 :: u32)) 0x1010 12"
    by (simp add: umd_is_valid_ptr_def example_bss_format_simps)
  have ub: "bss_load_ub example_bss_format 0x1000 0 = UINT64_MAX"
    by (simp add: bss_load_ub_def)
  show ?thesis using p e nv ub by (intro exI[of _ w]) simp
qed


section \<open>Proofs: SegMMU setup\<close>


lemma example_segmmu_upd:
  "segmmu_enable (example_segmmu w c r) = example_segmmu w (SEGMMU_REMAP_SHARE_EN OR SEGMMU_MEM_CTRL_EN) 0"
  by (simp add: example_segmmu_def segmmu_enable_def)

lemma setup_segmmu_cores_shared:
  "cfgs \<noteq> [] \<Longrightarrow>
   setup_segmmu_cores 1 0 n cfgs sec =
     Inr (if n = 0 then cfgs else cfgs[0 := segmmu_enable (cfgs ! 0)],
          sec @ replicate n (segmmu_enable (cfgs ! 0)))"
proof (induction n arbitrary: cfgs sec)
  case 0
  show ?case by simp
next
  case (Suc n)
  let ?c = "segmmu_enable (cfgs ! 0)"
  have ne: "cfgs[0 := ?c] \<noteq> []" using Suc.prems by simp
  have idem: "segmmu_enable ((cfgs[0 := ?c]) ! 0) = ?c"
    using Suc.prems by (simp add: segmmu_enable_def)
  have "setup_segmmu_cores 1 0 (Suc n) cfgs sec =
          setup_segmmu_cores 1 0 n (cfgs[0 := ?c]) (sec @ [?c])"
    using Suc.prems by (simp add: segmmu_enable_def Let_def)
  also have "\<dots> = Inr (if n = 0 then cfgs[0 := ?c] else (cfgs[0 := ?c])[0 := ?c],
                        (sec @ [?c]) @ replicate n ?c)"
    unfolding Suc.IH[OF ne] idem ..
  also have "\<dots> = Inr (cfgs[0 := ?c], sec @ replicate (Suc n) ?c)"
    by (simp add: replicate_app_Cons_same)
  finally show ?case by simp
qed

lemma setup_segmmu_cores_shifted:
  "num \<noteq> 1 \<Longrightarrow> p + n < length cfgs \<Longrightarrow>
   \<exists>cfgs'. setup_segmmu_cores num p n cfgs sec =
     Inr (cfgs', sec @ map (\<lambda>i. segmmu_enable (cfgs ! (p + 1 + i))) [0..<n])"
proof (induction n arbitrary: p cfgs sec)
  case 0
  show ?case by simp
next
  case (Suc n)
  let ?c = "segmmu_enable (cfgs ! (p + 1))"
  let ?cfgs = "cfgs[p + 1 := ?c]"
  have len: "(p + 1) + n < length ?cfgs" using Suc.prems by simp
  have step: "setup_segmmu_cores num p (Suc n) cfgs sec =
          setup_segmmu_cores num (p + 1) n ?cfgs (sec @ [?c])"
    using Suc.prems by (simp add: segmmu_enable_def Let_def)
  obtain cfgs' where r: "setup_segmmu_cores num (p + 1) n ?cfgs (sec @ [?c]) =
      Inr (cfgs', (sec @ [?c]) @ map (\<lambda>i. segmmu_enable (?cfgs ! (p + 1 + 1 + i))) [0..<n])"
    using Suc.IH[OF Suc.prems(1) len] ..
  have same: "map (\<lambda>i. segmmu_enable (?cfgs ! (p + 1 + 1 + i))) [0..<n] =
              map (\<lambda>i. segmmu_enable (cfgs ! (p + 1 + Suc i))) [0..<n]"
    by simp
  have unroll: "map (\<lambda>i. segmmu_enable (cfgs ! (p + 1 + i))) [0..<Suc n] =
              ?c # map (\<lambda>i. segmmu_enable (cfgs ! (p + 1 + Suc i))) [0..<n]"
    unfolding upt_conv_Cons[OF zero_less_Suc] map_Suc_upt[symmetric] by (simp add: comp_def)
  show ?case
    unfolding step r same unroll by simp
qed

lemma setup_segmmu_cores_overrun:
  "num \<noteq> 1 \<Longrightarrow> length cfgs \<le> p + n \<Longrightarrow> 0 < n \<Longrightarrow>
   setup_segmmu_cores num p n cfgs sec = Inl Out_Of_Bounds"
proof (induction n arbitrary: p cfgs sec)
  case 0
  then show ?case by simp
next
  case (Suc n)
  show ?case
  proof (cases "length cfgs \<le> p + 1")
    case True
    then show ?thesis using Suc.prems by (simp add: Let_def)
  next
    case False
    then have n: "0 < n" using Suc.prems by simp
    have "length (cfgs[p + 1 := segmmu_enable (cfgs ! (p + 1))]) \<le> (p + 1) + n"
      using Suc.prems by simp
    from Suc.IH[OF Suc.prems(1) this n] show ?thesis
      using False Suc.prems by (simp add: Let_def segmmu_enable_def)
  qed
qed

text \<open>
  Claim C8, the configuration of each core. With \<open>m_segmmu_num = 1\<close> every core gets
  the one configuration of the section, enabled (control word
  \<open>REMAP_SHARE_EN | MEM_CTRL_EN\<close>, remap word 0). With any other nonzero
  \<open>m_segmmu_num\<close> the pointer is advanced before its first use, so that core \<open>i\<close>
  gets the enabled configuration \<open>i + 1\<close> of the section, the first configuration is
  never used, and a section that holds just one configuration per core is left at the
  last core.
\<close>

theorem setup_segmmu_core_configs:
  "(cfgs \<noteq> [] \<longrightarrow>
      setup_segmmu 1 core_cnt cfgs [] [] =
        Inr (AIPU_STATUS_SUCCESS,
             (if core_cnt = 0 then cfgs else cfgs[0 := segmmu_enable (cfgs ! 0)]),
             replicate core_cnt (segmmu_enable (cfgs ! 0)))) \<and>
   (num \<noteq> 0 \<and> num \<noteq> 1 \<and> core_cnt < length cfgs \<longrightarrow>
      (\<exists>cfgs'. setup_segmmu num core_cnt cfgs [] [] =
         Inr (AIPU_STATUS_SUCCESS, cfgs',
              map (\<lambda>i. segmmu_enable (cfgs ! (i + 1))) [0..<core_cnt]))) \<and>
   (num \<noteq> 0 \<and> num \<noteq> 1 \<and> 0 < core_cnt \<and> length cfgs \<le> core_cnt \<longrightarrow>
      setup_segmmu num core_cnt cfgs [] [] = Inl Out_Of_Bounds)"
proof (intro conjI impI)
  assume "cfgs \<noteq> []"
  from setup_segmmu_cores_shared[OF this, of core_cnt "[]"]
  show "setup_segmmu 1 core_cnt cfgs [] [] =
        Inr (AIPU_STATUS_SUCCESS,
             (if core_cnt = 0 then cfgs else cfgs[0 := segmmu_enable (cfgs ! 0)]),
             replicate core_cnt (segmmu_enable (cfgs ! 0)))"
    by (simp add: setup_segmmu_def)
next
  assume a: "num \<noteq> 0 \<and> num \<noteq> 1 \<and> core_cnt < length cfgs"
  then have "0 + core_cnt < length cfgs" by simp
  from setup_segmmu_cores_shifted[OF _ this, of num "[]"] a
  obtain cfgs' where "setup_segmmu_cores num 0 core_cnt cfgs [] =
     Inr (cfgs', map (\<lambda>i. segmmu_enable (cfgs ! (i + 1))) [0..<core_cnt])"
    by (auto simp: add.commute)
  then have "setup_segmmu num core_cnt cfgs [] [] =
         Inr (AIPU_STATUS_SUCCESS, cfgs',
              map (\<lambda>i. segmmu_enable (cfgs ! (i + 1))) [0..<core_cnt])"
    using a by (simp add: setup_segmmu_def)
  then show "\<exists>cfgs'. setup_segmmu num core_cnt cfgs [] [] =
         Inr (AIPU_STATUS_SUCCESS, cfgs',
              map (\<lambda>i. segmmu_enable (cfgs ! (i + 1))) [0..<core_cnt])" ..
next
  assume a: "num \<noteq> 0 \<and> num \<noteq> 1 \<and> 0 < core_cnt \<and> length cfgs \<le> core_cnt"
  then have "length cfgs \<le> 0 + core_cnt" by simp
  from setup_segmmu_cores_overrun[OF _ this, of num "[]"] a
  show "setup_segmmu num core_cnt cfgs [] [] = Inl Out_Of_Bounds"
    by (simp add: setup_segmmu_def)
qed

theorem setup_segmmu_core_configs_witness:
  "setup_segmmu 1 2 [example_segmmu 1 0 7] [] [] =
     Inr (AIPU_STATUS_SUCCESS,
          [example_segmmu 1 (SEGMMU_REMAP_SHARE_EN OR SEGMMU_MEM_CTRL_EN) 0],
          [example_segmmu 1 (SEGMMU_REMAP_SHARE_EN OR SEGMMU_MEM_CTRL_EN) 0,
           example_segmmu 1 (SEGMMU_REMAP_SHARE_EN OR SEGMMU_MEM_CTRL_EN) 0]) \<and>
   (\<exists>cfgs'. setup_segmmu 2 1 [example_segmmu 1 0 7, example_segmmu 2 0 7] [] [] =
     Inr (AIPU_STATUS_SUCCESS, cfgs',
          [example_segmmu 2 (SEGMMU_REMAP_SHARE_EN OR SEGMMU_MEM_CTRL_EN) 0])) \<and>
   setup_segmmu 2 2 [example_segmmu 1 0 7, example_segmmu 2 0 7] [] [] = Inl Out_Of_Bounds"
proof -
  have a: "setup_segmmu 1 2 [example_segmmu 1 0 7] [] [] =
     Inr (AIPU_STATUS_SUCCESS,
          [example_segmmu 1 (SEGMMU_REMAP_SHARE_EN OR SEGMMU_MEM_CTRL_EN) 0],
          [example_segmmu 1 (SEGMMU_REMAP_SHARE_EN OR SEGMMU_MEM_CTRL_EN) 0,
           example_segmmu 1 (SEGMMU_REMAP_SHARE_EN OR SEGMMU_MEM_CTRL_EN) 0])"
    using setup_segmmu_core_configs[of "[example_segmmu 1 0 7]" 2 0, THEN conjunct1]
    by (simp add: example_segmmu_upd numeral_2_eq_2)
  have b: "\<exists>cfgs'. setup_segmmu 2 1 [example_segmmu 1 0 7, example_segmmu 2 0 7] [] [] =
     Inr (AIPU_STATUS_SUCCESS, cfgs',
          [example_segmmu 2 (SEGMMU_REMAP_SHARE_EN OR SEGMMU_MEM_CTRL_EN) 0])"
    using setup_segmmu_core_configs[of "[example_segmmu 1 0 7, example_segmmu 2 0 7]" 1 2,
            THEN conjunct2, THEN conjunct1]
    by (simp add: example_segmmu_upd)
  have c: "setup_segmmu 2 2 [example_segmmu 1 0 7, example_segmmu 2 0 7] [] [] = Inl Out_Of_Bounds"
    using setup_segmmu_core_configs[of "[example_segmmu 1 0 7, example_segmmu 2 0 7]" 2 2,
            THEN conjunct2, THEN conjunct2]
    by simp
  show ?thesis using a b c by (intro conjI)
qed

lemma mask_selects_core:
  fixes m :: u32
  assumes "m AND (push_bit cc 1 - 1) \<noteq> 0"
  shows "\<exists>i<cc. m AND push_bit i 1 \<noteq> 0"
proof -
  have "take_bit cc m \<noteq> 0"
    using assms by (simp add: take_bit_eq_mask mask_eq_exp_minus_1)
  then obtain i where "bit (take_bit cc m) i"
    using bit_eq_iff[of "take_bit cc m" 0] by auto
  then have "i < cc" "bit m i" by (simp_all add: bit_take_bit_iff)
  then show ?thesis
    using and_exp_eq_0_iff_not_bit[of m i] by auto
qed

lemma setup_segmmu_iobuf_invalid:
  assumes bad: "\<not> (segmmu_idx (io_id iobuf) < 4 \<and> segmmu_ctrl_idx (io_id iobuf) \<le> 1)"
  shows "setup_segmmu_iobuf iobuf k n sec =
     Inr (sec, \<exists>i. k \<le> i \<and> i < k + n \<and> core_id_mask (io_id iobuf) AND push_bit i 1 \<noteq> 0)"
proof (induction n arbitrary: k)
  case 0
  show ?case by simp
next
  case (Suc n)
  show ?case
  proof (cases "core_id_mask (io_id iobuf) AND push_bit k 1 = 0")
    case True
    have "(\<exists>i. Suc k \<le> i \<and> i < Suc k + n \<and> core_id_mask (io_id iobuf) AND push_bit i 1 \<noteq> 0) =
          (\<exists>i. k \<le> i \<and> i < k + Suc n \<and> core_id_mask (io_id iobuf) AND push_bit i 1 \<noteq> 0)"
      (is "?l = ?r")
    proof
      assume ?l
      then obtain i where "Suc k \<le> i \<and> i < Suc k + n \<and> core_id_mask (io_id iobuf) AND push_bit i 1 \<noteq> 0" ..
      then have "k \<le> i \<and> i < k + Suc n \<and> core_id_mask (io_id iobuf) AND push_bit i 1 \<noteq> 0" by simp
      then show ?r ..
    next
      assume ?r
      then obtain i where i: "k \<le> i \<and> i < k + Suc n \<and> core_id_mask (io_id iobuf) AND push_bit i 1 \<noteq> 0" ..
      then have "i \<noteq> k" using True by auto
      then have "Suc k \<le> i \<and> i < Suc k + n \<and> core_id_mask (io_id iobuf) AND push_bit i 1 \<noteq> 0"
        using i by simp
      then show ?l ..
    qed
    then show ?thesis using True Suc.IH[of "Suc k"] by simp
  next
    case False
    then have "\<exists>i. k \<le> i \<and> i < k + Suc n \<and> core_id_mask (io_id iobuf) AND push_bit i 1 \<noteq> 0"
      by (intro exI[of _ k]) simp
    then show ?thesis using False bad by auto
  qed
qed

text \<open>
  The range checks of the second loop of \<open>setup_segmmu\<close>: an I/O buffer whose core
  mask selects none of the cores of the job, whose segment index is not below 4 or
  whose control index is above 1 writes nothing, and no buffer after it is looked at:
  \<open>m_segmmu_sec\<close> stays as it is.
\<close>

theorem setup_segmmu_iobufs_range_check:
  assumes "core_id_mask (io_id iobuf) AND (push_bit core_cnt 1 - 1) = 0
           \<or> \<not> segmmu_idx (io_id iobuf) < 4 \<or> \<not> segmmu_ctrl_idx (io_id iobuf) \<le> 1"
  shows "setup_segmmu_iobufs core_cnt (iobuf # rest) sec = Inr sec"
proof (cases "core_id_mask (io_id iobuf) AND (push_bit core_cnt 1 - 1) = 0")
  case True
  then show ?thesis by simp
next
  case False
  then have bad: "\<not> (segmmu_idx (io_id iobuf) < 4 \<and> segmmu_ctrl_idx (io_id iobuf) \<le> 1)"
    using assms by auto
  from mask_selects_core[OF False]
  obtain i where "i < core_cnt" "core_id_mask (io_id iobuf) AND push_bit i 1 \<noteq> 0" by auto
  then have "0 \<le> i \<and> i < 0 + core_cnt \<and> core_id_mask (io_id iobuf) AND push_bit i 1 \<noteq> 0" by simp
  then have ex: "\<exists>i. 0 \<le> i \<and> i < 0 + core_cnt \<and> core_id_mask (io_id iobuf) AND push_bit i 1 \<noteq> 0" ..
  show ?thesis
    using False ex by (simp add: setup_segmmu_iobuf_invalid[OF bad] del: push_bit_of_1)
qed

lemma example_iobuf_simps [simp]:
  "io_id (example_iobuf i pa) = i" "io_pa (example_iobuf i pa) = pa"
  by (simp_all add: example_iobuf_def)

lemma example_ids:
  "core_id_mask 0x00010500 = 1" "segmmu_idx 0x00010500 = 5" "segmmu_ctrl_idx 0x00010500 = 0"
  by (simp_all add: core_id_mask_def segmmu_idx_def segmmu_ctrl_idx_def drop_bit_eq_div)

theorem setup_segmmu_iobufs_range_check_witness:
  "setup_segmmu_iobufs 1 [(example_iobuf 0x00010500 0x12345678),
                           (example_iobuf 0x00010000 0x12345678)]
       [example_segmmu 1 0 0] = Inr [example_segmmu 1 0 0]"
  using setup_segmmu_iobufs_range_check[of "(example_iobuf 0x00010500 0x12345678)" 1
          "[(example_iobuf 0x00010000 0x12345678)]" "[example_segmmu 1 0 0]"]
  by (simp add: example_ids)

lemma setup_segmmu_iobuf_valid:
  assumes ok: "segmmu_idx (io_id iobuf) < 4" "segmmu_ctrl_idx (io_id iobuf) \<le> 1"
  shows "k + n \<le> length sec \<Longrightarrow>
     setup_segmmu_iobuf iobuf k n sec =
       Inr (map (\<lambda>j. if k \<le> j \<and> j < k + n \<and> core_id_mask (io_id iobuf) AND push_bit j 1 \<noteq> 0
                      then segmmu_write iobuf (sec ! j) else sec ! j) [0..<length sec], False)"
proof (induction n arbitrary: k sec)
  case 0
  have "map (\<lambda>j. sec ! j) [0..<length sec] = sec" by (rule map_nth)
  moreover have "(\<lambda>j. if k \<le> j \<and> j < k + 0 \<and> core_id_mask (io_id iobuf) AND push_bit j 1 \<noteq> 0
                      then segmmu_write iobuf (sec ! j) else sec ! j) = (\<lambda>j. sec ! j)"
    by (rule ext) auto
  ultimately show ?case by (simp only: setup_segmmu_iobuf.simps)
next
  case (Suc n)
  let ?sel = "\<lambda>j. core_id_mask (io_id iobuf) AND push_bit j 1 \<noteq> 0"
  show ?case
  proof (cases "?sel k")
    case False
    have "map (\<lambda>j. if Suc k \<le> j \<and> j < Suc k + n \<and> ?sel j then segmmu_write iobuf (sec ! j) else sec ! j) [0..<length sec]
        = map (\<lambda>j. if k \<le> j \<and> j < k + Suc n \<and> ?sel j then segmmu_write iobuf (sec ! j) else sec ! j) [0..<length sec]"
    proof (rule map_cong[OF refl])
      fix j assume "j \<in> set [0..<length sec]"
      show "(if Suc k \<le> j \<and> j < Suc k + n \<and> ?sel j then segmmu_write iobuf (sec ! j) else sec ! j) =
            (if k \<le> j \<and> j < k + Suc n \<and> ?sel j then segmmu_write iobuf (sec ! j) else sec ! j)"
        using False by (cases "j = k") auto
    qed
    moreover have "Suc k + n \<le> length sec" using Suc.prems by simp
    ultimately show ?thesis using False Suc.IH[of "Suc k" sec] by simp
  next
    case True
    let ?sec = "sec[k := segmmu_write iobuf (sec ! k)]"
    have len: "Suc k + n \<le> length ?sec" using Suc.prems by simp
    have k: "k < length sec" using Suc.prems by simp
    have "map (\<lambda>j. if Suc k \<le> j \<and> j < Suc k + n \<and> ?sel j then segmmu_write iobuf (?sec ! j) else ?sec ! j) [0..<length ?sec]
        = map (\<lambda>j. if k \<le> j \<and> j < k + Suc n \<and> ?sel j then segmmu_write iobuf (sec ! j) else sec ! j) [0..<length sec]"
    proof (rule map_cong)
      show "[0..<length ?sec] = [0..<length sec]" by simp
    next
      fix j assume "j \<in> set [0..<length sec]"
      then have "j < length sec" by simp
      then show "(if Suc k \<le> j \<and> j < Suc k + n \<and> ?sel j then segmmu_write iobuf (?sec ! j) else ?sec ! j) =
            (if k \<le> j \<and> j < k + Suc n \<and> ?sel j then segmmu_write iobuf (sec ! j) else sec ! j)"
        using True k by (cases "j = k") auto
    qed
    then show ?thesis using True ok k Suc.IH[OF len] by simp
  qed
qed

text \<open>
  The write of the second loop of \<open>setup_segmmu\<close>: an I/O buffer whose indices are in
  range and whose core mask selects a core of the job writes its control word, and
  only that, for each core that the mask selects; the other cores keep their
  configuration. The control word written keeps the low 14 bits of the old one and has
  the other bits of (the low 32 bits of) the physical address.
\<close>

theorem setup_segmmu_iobufs_write:
  assumes "segmmu_idx (io_id iobuf) < 4" and "segmmu_ctrl_idx (io_id iobuf) \<le> 1"
    and "core_id_mask (io_id iobuf) AND (push_bit core_cnt 1 - 1) \<noteq> 0"
    and "core_cnt = length sec"
  shows "setup_segmmu_iobufs core_cnt [iobuf] sec =
       Inr (map (\<lambda>j. if core_id_mask (io_id iobuf) AND push_bit j 1 \<noteq> 0
                      then segmmu_write iobuf (sec ! j) else sec ! j) [0..<core_cnt])"
proof -
  have "0 + core_cnt \<le> length sec" using assms(4) by simp
  from setup_segmmu_iobuf_valid[OF assms(1,2) this]
  have "setup_segmmu_iobuf iobuf 0 core_cnt sec =
       Inr (map (\<lambda>j. if j < core_cnt \<and> core_id_mask (io_id iobuf) AND push_bit j 1 \<noteq> 0
                      then segmmu_write iobuf (sec ! j) else sec ! j) [0..<core_cnt], False)"
    using assms(4) by simp
  moreover have "map (\<lambda>j. if j < core_cnt \<and> core_id_mask (io_id iobuf) AND push_bit j 1 \<noteq> 0
                      then segmmu_write iobuf (sec ! j) else sec ! j) [0..<core_cnt] =
                 map (\<lambda>j. if core_id_mask (io_id iobuf) AND push_bit j 1 \<noteq> 0
                      then segmmu_write iobuf (sec ! j) else sec ! j) [0..<core_cnt]"
    by (rule map_cong) auto
  ultimately show ?thesis using assms(3) by (simp del: push_bit_of_1)
qed

lemma example_ids2:
  "core_id_mask 0x00010101 = 1" "segmmu_idx 0x00010101 = 1" "segmmu_ctrl_idx 0x00010101 = 1"
  by (simp_all add: core_id_mask_def segmmu_idx_def segmmu_ctrl_idx_def drop_bit_eq_div)

lemma example_write:
  "segmmu_write (example_iobuf 0x00010101 0x12345678) (example_segmmu 1 0 0) =
     (example_segmmu 1 0 0)\<lparr>seg := [[1, 1], [1, 0x12344001], [1, 1], [1, 1]]\<rparr>"
  by (simp add: segmmu_write_def example_ids2 example_segmmu_def)

theorem setup_segmmu_iobufs_write_witness:
  "setup_segmmu_iobufs 1 [(example_iobuf 0x00010101 0x12345678)] [example_segmmu 1 0 0] =
     Inr [(example_segmmu 1 0 0)\<lparr>seg := [[1, 1], [1, 0x12344001], [1, 1], [1, 1]]\<rparr>]"
  using setup_segmmu_iobufs_write[of "(example_iobuf 0x00010101 0x12345678)" 1
          "[example_segmmu 1 0 0]"]
  by (simp add: example_ids2 example_write)


section \<open>Proofs: graph version and top header\<close>






lemma istream_read_short:
  "length gbin < n \<Longrightarrow> snd (istream_read gbin n) \<noteq> n"
  by (simp add: istream_read_def)








end
